(* ===== verification/Prelude.thy ===== *)
theory Prelude
  imports "HOL-Library.Word" "HOL-Library.Code_Target_Nat"
begin

unbundle bit_operations_syntax

text \<open>
  Shared vocabulary of the development.

  The names of Rust's integer types; the result type of a method with a mutable receiver, which
  hands back the receiver also when it fails; its sequencing, written \<open>and_then\<close> after the method
  of \<open>Result\<close> that the question mark operator abbreviates; the checked reads of a vector; bytes
  in little-endian order; and a small calculus of weakest preconditions and of preserved
  relations by which the component theories reason about whole methods.
\<close>

section \<open>Machine integers\<close>

type_synonym u8 = "8 word"
type_synonym u16 = "16 word"
type_synonym u32 = "32 word"
type_synonym u64 = "64 word"
type_synonym i64 = "64 word"

text \<open>
  \<open>usize\<close> is a natural number. Where the code guards an addition with \<open>checked_add\<close> the bound is
  that of a 64-bit target.
\<close>

definition usize_max :: nat where
  "usize_max = 2 ^ 64 - 1"

definition checked_add_usize :: "nat \<Rightarrow> nat \<Rightarrow> nat option" where
  "checked_add_usize a b = (if a + b \<le> usize_max then Some (a + b) else None)"

definition checked_mul_usize :: "nat \<Rightarrow> nat \<Rightarrow> nat option" where
  "checked_mul_usize a b = (if a * b \<le> usize_max then Some (a * b) else None)"

definition checked_sub_usize :: "nat \<Rightarrow> nat \<Rightarrow> nat option" where
  "checked_sub_usize a b = (if b \<le> a then Some (a - b) else None)"

definition checked_add_u64 :: "u64 \<Rightarrow> u64 \<Rightarrow> u64 option" where
  "checked_add_u64 a b = (if unat a + unat b < 2 ^ 64 then Some (a + b) else None)"

section \<open>Reads of a vector\<close>

text \<open>\<open>Vec::get\<close> of an index and of a range.\<close>

definition vec_get :: "'a list \<Rightarrow> nat \<Rightarrow> 'a option" where
  "vec_get xs i = (if i < length xs then Some (xs ! i) else None)"

definition vec_range :: "'a list \<Rightarrow> nat \<Rightarrow> nat \<Rightarrow> 'a list option" where
  "vec_range xs a b = (if a \<le> b \<and> b \<le> length xs then Some (take (b - a) (drop a xs)) else None)"

text \<open>\<open>Vec::resize\<close> and the search of \<open>Iterator::find\<close>.\<close>

definition vec_resize :: "'a list \<Rightarrow> nat \<Rightarrow> 'a \<Rightarrow> 'a list" where
  "vec_resize xs n v = (if n \<le> length xs then take n xs else xs @ replicate (n - length xs) v)"

section \<open>Bytes in little-endian order\<close>

fun le_nat :: "u8 list \<Rightarrow> nat" where
  "le_nat [] = 0"
| "le_nat (b # bs) = unat b + 256 * le_nat bs"

fun nat_le :: "nat \<Rightarrow> nat \<Rightarrow> u8 list" where
  "nat_le 0 n = []"
| "nat_le (Suc k) n = of_nat (n mod 256) # nat_le k (n div 256)"

definition from_le_bytes :: "u8 list \<Rightarrow> 'a::len word" where
  "from_le_bytes bs = of_nat (le_nat bs)"

section \<open>Fallible methods with a mutable receiver\<close>

type_synonym ('s, 'e, 'a) meth = "'s \<Rightarrow> ('e + 'a) \<times> 's"

definition ok :: "'a \<Rightarrow> ('s, 'e, 'a) meth" where
  "ok x = (\<lambda>s. (Inr x, s))"

definition err :: "'e \<Rightarrow> ('s, 'e, 'a) meth" where
  "err e = (\<lambda>s. (Inl e, s))"

definition and_then :: "('s, 'e, 'a) meth \<Rightarrow> ('a \<Rightarrow> ('s, 'e, 'b) meth) \<Rightarrow> ('s, 'e, 'b) meth" where
  "and_then m f = (\<lambda>s. case m s of (Inl e, t) \<Rightarrow> (Inl e, t) | (Inr x, t) \<Rightarrow> f x t)"

definition then_do :: "('s, 'e, 'a) meth \<Rightarrow> ('s, 'e, 'b) meth \<Rightarrow> ('s, 'e, 'b) meth" where
  "then_do m n = and_then m (\<lambda>_. n)"

definition self :: "('s \<Rightarrow> 'a) \<Rightarrow> ('s, 'e, 'a) meth" where
  "self f = (\<lambda>s. (Inr (f s), s))"

definition update :: "('s \<Rightarrow> 's) \<Rightarrow> ('s, 'e, unit) meth" where
  "update f = (\<lambda>s. (Inr (), f s))"

definition ok_or :: "'a option \<Rightarrow> 'e \<Rightarrow> ('s, 'e, 'a) meth" where
  "ok_or x e = (case x of None \<Rightarrow> err e | Some y \<Rightarrow> ok y)"

definition lift_result :: "'e + 'a \<Rightarrow> ('s, 'e, 'a) meth" where
  "lift_result r = (\<lambda>s. (r, s))"

definition guard_err :: "bool \<Rightarrow> 'e \<Rightarrow> ('s, 'e, unit) meth" where
  "guard_err b e = (if b then err e else ok ())"

text \<open>A loop \<open>for _ in 0..n\<close> that collects what its body returns, and one over a list.\<close>

fun repeat_collect :: "nat \<Rightarrow> ('s, 'e, 'a) meth \<Rightarrow> ('s, 'e, 'a list) meth" where
  "repeat_collect 0 m = ok []"
| "repeat_collect (Suc n) m =
     and_then m (\<lambda>x. and_then (repeat_collect n m) (\<lambda>xs. ok (x # xs)))"

fun for_each :: "'a list \<Rightarrow> ('a \<Rightarrow> ('s, 'e, unit) meth) \<Rightarrow> ('s, 'e, unit) meth" where
  "for_each [] f = ok ()"
| "for_each (x # xs) f = then_do (f x) (for_each xs f)"

lemmas meth_defs = ok_def err_def and_then_def then_do_def self_def update_def ok_or_def
  lift_result_def guard_err_def

section \<open>Reasoning about methods\<close>

text \<open>
  \<open>wp m Q E s\<close>: a success of \<open>m\<close> at the receiver \<open>s\<close> satisfies \<open>Q\<close> of the value and the new
  receiver, and a failure satisfies \<open>E\<close> of the error and the receiver it leaves behind. The
  equations run a method symbolically; a callee with a contract of its own is entered through
  \<open>wp_use\<close>, a loop through its invariant.
\<close>

definition wp :: "('s, 'e, 'a) meth \<Rightarrow> ('a \<Rightarrow> 's \<Rightarrow> bool) \<Rightarrow> ('e \<Rightarrow> 's \<Rightarrow> bool) \<Rightarrow> 's \<Rightarrow> bool" where
  "wp m Q E s = (case m s of (Inl e, t) \<Rightarrow> E e t | (Inr x, t) \<Rightarrow> Q x t)"

named_theorems wp_simps "symbolic execution of methods"

lemma and_then_apply:
  "and_then m f s = (case m s of (Inl e, t) \<Rightarrow> (Inl e, t) | (Inr x, t) \<Rightarrow> f x t)"
  by (simp add: and_then_def)

lemma and_then_Inr:
  "and_then m f s = (Inr y, u) \<longleftrightarrow> (\<exists>x t. m s = (Inr x, t) \<and> f x t = (Inr y, u))"
  by (auto simp: and_then_def split: prod.splits sum.splits)

lemma and_then_Inl:
  "and_then m f s = (Inl e, u) \<longleftrightarrow>
     m s = (Inl e, u) \<or> (\<exists>x t. m s = (Inr x, t) \<and> f x t = (Inl e, u))"
  by (auto simp: and_then_def split: prod.splits sum.splits)

lemma wp_ok [wp_simps]: "wp (ok x) Q E s = Q x s"
  by (simp add: wp_def ok_def)

lemma wp_err [wp_simps]: "wp (err e) Q E s = E e s"
  by (simp add: wp_def err_def)

lemma wp_self [wp_simps]: "wp (self f) Q E s = Q (f s) s"
  by (simp add: wp_def self_def)

lemma wp_update [wp_simps]: "wp (update f) Q E s = Q () (f s)"
  by (simp add: wp_def update_def)

lemma wp_ok_or [wp_simps]: "wp (ok_or x e) Q E s = (case x of None \<Rightarrow> E e s | Some y \<Rightarrow> Q y s)"
  by (simp add: wp_def meth_defs split: option.splits)

lemma wp_guard_err [wp_simps]: "wp (guard_err b e) Q E s = (if b then E e s else Q () s)"
  by (simp add: wp_def meth_defs)

lemma wp_lift_result [wp_simps]: "wp (lift_result r) Q E s = (case r of Inl e \<Rightarrow> E e s | Inr x \<Rightarrow> Q x s)"
  by (simp add: wp_def meth_defs)

lemma wp_and_then [wp_simps]: "wp (and_then m f) Q E s = wp m (\<lambda>x. wp (f x) Q E) E s"
  by (auto simp: wp_def and_then_def split: prod.splits sum.splits)

lemma wp_then_do [wp_simps]: "wp (then_do m n) Q E s = wp m (\<lambda>_. wp n Q E) E s"
  by (simp add: then_do_def wp_and_then)

lemma wp_use:
  assumes "wp m Q' E' s" and "\<And>x t. Q' x t \<Longrightarrow> Q x t" and "\<And>e t. E' e t \<Longrightarrow> E e t"
  shows "wp m Q E s"
  using assms by (auto simp: wp_def split: prod.splits sum.splits)

lemma wp_for_each:
  assumes "I s" and "\<And>x s. x \<in> set xs \<Longrightarrow> I s \<Longrightarrow> wp (f x) (\<lambda>_. I) E s"
    and "\<And>t. I t \<Longrightarrow> Q () t"
  shows "wp (for_each xs f) Q E s"
  using assms
proof (induction xs arbitrary: s)
  case (Cons x xs)
  then show ?case by (simp add: wp_then_do) (rule wp_use [of "f x" "\<lambda>_. I"]; auto)
qed (simp add: wp_ok)

lemma wp_D:
  assumes "wp m Q E s"
  shows "m s = (Inr x, t) \<Longrightarrow> Q x t" and "m s = (Inl e, t) \<Longrightarrow> E e t"
  using assms by (simp_all add: wp_def)

text \<open>
  A relation between the receiver before and after, kept by every outcome of a method. For a
  preorder it composes; the components interpret the locale below at the relations their frame
  conditions are about.
\<close>

definition keeps :: "('s \<Rightarrow> 's \<Rightarrow> bool) \<Rightarrow> ('s, 'e, 'a) meth \<Rightarrow> bool" where
  "keeps R m \<longleftrightarrow> (\<forall>s. R s (snd (m s)))"

lemma keeps_D: "keeps R m \<Longrightarrow> m s = (r, t) \<Longrightarrow> R s t"
  unfolding keeps_def by (metis snd_conv)

lemma keeps_I: "(\<And>s r t. m s = (r, t) \<Longrightarrow> R s t) \<Longrightarrow> keeps R m"
  unfolding keeps_def by (metis prod.collapse)

locale frame_condition =
  fixes R :: "'s \<Rightarrow> 's \<Rightarrow> bool"
  assumes frame_refl: "R s s"
    and frame_trans: "R s t \<Longrightarrow> R t u \<Longrightarrow> R s u"
begin

lemma keeps_ok: "keeps R (ok x)"
  by (simp add: keeps_def ok_def frame_refl)

lemma keeps_err: "keeps R (err e)"
  by (simp add: keeps_def err_def frame_refl)

lemma keeps_self: "keeps R (self f)"
  by (simp add: keeps_def self_def frame_refl)

lemma keeps_ok_or: "keeps R (ok_or x e)"
  by (simp add: keeps_def meth_defs frame_refl split: option.splits)

lemma keeps_guard_err: "keeps R (guard_err b e)"
  by (simp add: keeps_def meth_defs frame_refl)

lemma keeps_lift_result: "keeps R (lift_result r)"
  by (simp add: keeps_def meth_defs frame_refl)

lemma keeps_update: "(\<And>s. R s (f s)) \<Longrightarrow> keeps R (update f)"
  by (simp add: keeps_def update_def)

lemma keeps_and_then:
  assumes "keeps R m" and "\<And>x. keeps R (f x)"
  shows "keeps R (and_then m f)"
proof (rule keeps_I)
  fix s r u
  assume step: "and_then m f s = (r, u)"
  obtain q t where m: "m s = (q, t)" by fastforce
  have "R s t" using assms(1) m by (rule keeps_D)
  moreover have "R t u"
    using step m assms(2) by (cases q) (auto simp: and_then_def frame_refl dest: keeps_D)
  ultimately show "R s u" by (rule frame_trans)
qed

lemma keeps_then_do: "keeps R m \<Longrightarrow> keeps R n \<Longrightarrow> keeps R (then_do m n)"
  unfolding then_do_def by (rule keeps_and_then)

lemma keeps_for_each: "(\<And>x. x \<in> set xs \<Longrightarrow> keeps R (f x)) \<Longrightarrow> keeps R (for_each xs f)"
  by (induction xs) (auto intro: keeps_ok keeps_then_do)

lemma keeps_repeat_collect: "keeps R m \<Longrightarrow> keeps R (repeat_collect n m)"
  by (induction n) (auto intro: keeps_ok keeps_and_then)

lemmas keeps_intros = keeps_ok keeps_err keeps_self keeps_ok_or keeps_guard_err keeps_lift_result
  keeps_update keeps_and_then keeps_then_do keeps_for_each keeps_repeat_collect

end

text \<open>
  A change \<open>h\<close> of the receiver that a method neither observes nor undoes.
\<close>

definition commutes :: "('s \<Rightarrow> 's) \<Rightarrow> ('s, 'e, 'a) meth \<Rightarrow> bool" where
  "commutes h m \<longleftrightarrow> (\<forall>s. m (h s) = (fst (m s), h (snd (m s))))"

lemma commutes_D: "commutes h m \<Longrightarrow> m s = (r, t) \<Longrightarrow> m (h s) = (r, h t)"
  by (simp add: commutes_def)

lemma commutes_I: "(\<And>s r t. m s = (r, t) \<Longrightarrow> m (h s) = (r, h t)) \<Longrightarrow> commutes h m"
  unfolding commutes_def by (metis prod.collapse)

lemma commutes_ok: "commutes h (ok x)"
  by (simp add: commutes_def ok_def)

lemma commutes_err: "commutes h (err e)"
  by (simp add: commutes_def err_def)

lemma commutes_self: "(\<And>s. f (h s) = f s) \<Longrightarrow> commutes h (self f)"
  by (simp add: commutes_def self_def)

lemma commutes_update: "(\<And>s. f (h s) = h (f s)) \<Longrightarrow> commutes h (update f)"
  by (simp add: commutes_def update_def)

lemma commutes_ok_or: "commutes h (ok_or x e)"
  by (simp add: commutes_def meth_defs split: option.splits)

lemma commutes_guard_err: "commutes h (guard_err b e)"
  by (simp add: commutes_def meth_defs)

lemma commutes_lift_result: "commutes h (lift_result r)"
  by (simp add: commutes_def meth_defs)

lemma commutes_and_then:
  assumes "commutes h m" and "\<And>x. commutes h (f x)"
  shows "commutes h (and_then m f)"
proof (rule commutes_I)
  fix s r u
  assume step: "and_then m f s = (r, u)"
  obtain q t where m: "m s = (q, t)" by fastforce
  have "m (h s) = (q, h t)" using assms(1) m by (rule commutes_D)
  then show "and_then m f (h s) = (r, h u)"
    using step m assms(2) by (cases q) (auto simp: and_then_def dest: commutes_D)
qed

lemma commutes_then_do: "commutes h m \<Longrightarrow> commutes h n \<Longrightarrow> commutes h (then_do m n)"
  unfolding then_do_def by (rule commutes_and_then)

lemma commutes_for_each: "(\<And>x. x \<in> set xs \<Longrightarrow> commutes h (f x)) \<Longrightarrow> commutes h (for_each xs f)"
  by (induction xs) (auto intro: commutes_ok commutes_then_do)

lemma commutes_repeat_collect: "commutes h m \<Longrightarrow> commutes h (repeat_collect n m)"
  by (induction n) (auto intro: commutes_ok commutes_and_then)

lemmas commutes_intros = commutes_ok commutes_err commutes_self commutes_update commutes_ok_or
  commutes_guard_err commutes_lift_result commutes_and_then commutes_then_do commutes_for_each
  commutes_repeat_collect

text \<open>The errors a method can fail with.\<close>

definition raises :: "('e \<Rightarrow> bool) \<Rightarrow> ('s, 'e, 'a) meth \<Rightarrow> bool" where
  "raises E m \<longleftrightarrow> (\<forall>s e t. m s = (Inl e, t) \<longrightarrow> E e)"

lemma raises_ok: "raises E (ok x)"
  by (simp add: raises_def ok_def)

lemma raises_err: "E e \<Longrightarrow> raises E (err e)"
  by (simp add: raises_def err_def)

lemma raises_self: "raises E (self f)"
  by (simp add: raises_def self_def)

lemma raises_update: "raises E (update f)"
  by (simp add: raises_def update_def)

lemma raises_ok_or: "E e \<Longrightarrow> raises E (ok_or x e)"
  by (simp add: raises_def meth_defs split: option.splits)

lemma raises_guard_err: "E e \<Longrightarrow> raises E (guard_err b e)"
  by (simp add: raises_def meth_defs)

lemma raises_lift_result: "(\<And>e. r = Inl e \<Longrightarrow> E e) \<Longrightarrow> raises E (lift_result r)"
  by (simp add: raises_def meth_defs)

lemma raises_and_then: "raises E m \<Longrightarrow> (\<And>x. raises E (f x)) \<Longrightarrow> raises E (and_then m f)"
  unfolding raises_def and_then_Inl by blast

lemma raises_then_do: "raises E m \<Longrightarrow> raises E n \<Longrightarrow> raises E (then_do m n)"
  unfolding then_do_def by (rule raises_and_then)

lemma raises_for_each: "(\<And>x. x \<in> set xs \<Longrightarrow> raises E (f x)) \<Longrightarrow> raises E (for_each xs f)"
  by (induction xs) (auto intro: raises_ok raises_then_do)

lemma raises_repeat_collect: "raises E m \<Longrightarrow> raises E (repeat_collect n m)"
  by (induction n) (auto intro: raises_ok raises_and_then)

lemmas raises_intros = raises_ok raises_err raises_self raises_update raises_ok_or raises_guard_err
  raises_lift_result raises_and_then raises_then_do raises_for_each raises_repeat_collect

end
