(* ===== verification/F64.thy ===== *)
theory F64
  imports Prelude
begin

text \<open>
  Rust's \<open>f64\<close> as its 64 bits, with the operations the interpreter uses: the four arithmetic
  operations and the remainder, negation, the strict comparisons and the cast from \<open>i64\<close>. A
  finite number is an integer times a power of two; an operation computes the exact result as a
  quotient of integers and rounds it once, to the nearest with ties to even. Rust leaves the
  payload of a computed NaN open; the model returns the quiet NaN with an empty payload, which is
  one of the results Rust allows.
\<close>

type_synonym f64 = "64 word"

definition f64_sign :: "f64 \<Rightarrow> bool" where
  "f64_sign x = bit x 63"

definition f64_exponent :: "f64 \<Rightarrow> nat" where
  "f64_exponent x = unat (drop_bit 52 (take_bit 63 x))"

definition f64_fraction :: "f64 \<Rightarrow> nat" where
  "f64_fraction x = unat (take_bit 52 x)"

definition f64_is_nan :: "f64 \<Rightarrow> bool" where
  "f64_is_nan x \<longleftrightarrow> f64_exponent x = 2047 \<and> f64_fraction x \<noteq> 0"

definition f64_is_inf :: "f64 \<Rightarrow> bool" where
  "f64_is_inf x \<longleftrightarrow> f64_exponent x = 2047 \<and> f64_fraction x = 0"

definition f64_is_zero :: "f64 \<Rightarrow> bool" where
  "f64_is_zero x \<longleftrightarrow> f64_exponent x = 0 \<and> f64_fraction x = 0"

text \<open>The significand and the exponent of a finite number, \<open>significand * 2 ^ scale\<close>.\<close>

definition f64_significand :: "f64 \<Rightarrow> nat" where
  "f64_significand x =
     (if f64_exponent x = 0 then f64_fraction x else f64_fraction x + 2 ^ 52)"

definition f64_scale :: "f64 \<Rightarrow> int" where
  "f64_scale x = int (max 1 (f64_exponent x)) - 1075"

definition f64_pack :: "bool \<Rightarrow> nat \<Rightarrow> f64" where
  "f64_pack s magnitude = of_nat ((if s then 2 ^ 63 else 0) + magnitude)"

definition f64_nan :: f64 where
  "f64_nan = 0x7FF8000000000000"

definition f64_infinity :: "bool \<Rightarrow> f64" where
  "f64_infinity s = f64_pack s 0x7FF0000000000000"

definition f64_zero :: "bool \<Rightarrow> f64" where
  "f64_zero s = f64_pack s 0"

fun bit_length :: "nat \<Rightarrow> nat" where
  "bit_length n = (if n = 0 then 0 else Suc (bit_length (n div 2)))"

declare bit_length.simps [simp del]

text \<open>Rounding of a positive quotient to the nearest integer, ties to even.\<close>

definition round_half_even :: "nat \<Rightarrow> nat \<Rightarrow> nat" where
  "round_half_even n d =
     (let q = n div d; r = n mod d
      in if 2 * r < d \<or> (2 * r = d \<and> even q) then q else q + 1)"

text \<open>
  The double nearest to \<open>n / d * 2 ^ e\<close>. The exponent of the result is chosen so that the
  significand has 53 bits, or is that of the subnormals. A significand rounded up to \<open>2 ^ 53\<close>
  carries into the exponent field, as the encodings are consecutive.
\<close>

definition f64_round_exp :: "nat \<Rightarrow> nat \<Rightarrow> int \<Rightarrow> int" where
  "f64_round_exp n d e =
     (let l = int (bit_length n) - int (bit_length d);
          l' = (if (if l \<ge> 0 then n < d * 2 ^ nat l else n * 2 ^ nat (- l) < d) then l - 1 else l)
      in max (l' + e - 52) (- 1074))"

definition f64_round :: "bool \<Rightarrow> nat \<Rightarrow> nat \<Rightarrow> int \<Rightarrow> f64" where
  "f64_round s n d e =
     (if n = 0 then f64_zero s
      else let x = f64_round_exp n d e; k = e - x;
               m = (if k \<ge> 0 then round_half_even (n * 2 ^ nat k) d
                    else round_half_even n (d * 2 ^ nat (- k)));
               magnitude = nat (x + 1074) * 2 ^ 52 + m
           in if magnitude \<ge> 0x7FF0000000000000 then f64_infinity s else f64_pack s magnitude)"

text \<open>A finite number as a signed integer at a scale no finer than its own.\<close>

definition f64_at_scale :: "int \<Rightarrow> f64 \<Rightarrow> int" where
  "f64_at_scale e x =
     (let m = int (f64_significand x) * 2 ^ nat (f64_scale x - e) in if f64_sign x then - m else m)"

definition f64_of_int_at :: "bool \<Rightarrow> int \<Rightarrow> int \<Rightarrow> f64" where
  "f64_of_int_at zero_sign m e =
     (if m = 0 then f64_zero zero_sign else f64_round (m < 0) (nat \<bar>m\<bar>) 1 e)"

definition f64_neg :: "f64 \<Rightarrow> f64" where
  "f64_neg x = x XOR 0x8000000000000000"

definition f64_add :: "f64 \<Rightarrow> f64 \<Rightarrow> f64" where
  "f64_add x y =
     (if f64_is_nan x \<or> f64_is_nan y then f64_nan
      else if f64_is_inf x then (if f64_is_inf y \<and> f64_sign x \<noteq> f64_sign y then f64_nan else x)
      else if f64_is_inf y then y
      else let e = min (f64_scale x) (f64_scale y)
           in f64_of_int_at (f64_sign x \<and> f64_sign y) (f64_at_scale e x + f64_at_scale e y) e)"

definition f64_sub :: "f64 \<Rightarrow> f64 \<Rightarrow> f64" where
  "f64_sub x y = f64_add x (f64_neg y)"

definition f64_mul :: "f64 \<Rightarrow> f64 \<Rightarrow> f64" where
  "f64_mul x y =
     (let s = (f64_sign x \<noteq> f64_sign y)
      in if f64_is_nan x \<or> f64_is_nan y then f64_nan
         else if f64_is_inf x \<or> f64_is_inf y
         then (if f64_is_zero x \<or> f64_is_zero y then f64_nan else f64_infinity s)
         else f64_round s (f64_significand x * f64_significand y) 1 (f64_scale x + f64_scale y))"

definition f64_div :: "f64 \<Rightarrow> f64 \<Rightarrow> f64" where
  "f64_div x y =
     (let s = (f64_sign x \<noteq> f64_sign y)
      in if f64_is_nan x \<or> f64_is_nan y then f64_nan
         else if f64_is_inf x then (if f64_is_inf y then f64_nan else f64_infinity s)
         else if f64_is_inf y then f64_zero s
         else if f64_is_zero y then (if f64_is_zero x then f64_nan else f64_infinity s)
         else f64_round s (f64_significand x) (f64_significand y) (f64_scale x - f64_scale y))"

definition f64_rem :: "f64 \<Rightarrow> f64 \<Rightarrow> f64" where
  "f64_rem x y =
     (if f64_is_nan x \<or> f64_is_nan y \<or> f64_is_inf x \<or> f64_is_zero y then f64_nan
      else if f64_is_inf y then x
      else let e = min (f64_scale x) (f64_scale y);
               r = \<bar>f64_at_scale e x\<bar> mod \<bar>f64_at_scale e y\<bar>
           in f64_of_int_at (f64_sign x) (if f64_sign x then - r else r) e)"

definition f64_lt :: "f64 \<Rightarrow> f64 \<Rightarrow> bool" where
  "f64_lt x y =
     (if f64_is_nan x \<or> f64_is_nan y then False
      else if f64_is_inf x then f64_sign x \<and> \<not> (f64_is_inf y \<and> f64_sign y)
      else if f64_is_inf y then \<not> f64_sign y
      else let e = min (f64_scale x) (f64_scale y) in f64_at_scale e x < f64_at_scale e y)"

definition f64_gt :: "f64 \<Rightarrow> f64 \<Rightarrow> bool" where
  "f64_gt x y = f64_lt y x"

text \<open>The cast \<open>as f64\<close> of an \<open>i64\<close>.\<close>

definition f64_of_i64 :: "i64 \<Rightarrow> f64" where
  "f64_of_i64 i = f64_of_int_at False (sint i) 0"

end
