(* ===== verification/Value.thy ===== *)
theory Value
  imports F64
begin

text \<open>
  The values of the freestanding runtime (\<open>pd-vm-nostd/src/value.rs\<close>) and their equality.

  The code's \<open>Rc\<close> containers are immutable once shared, so a string, a byte vector, an array and a
  map are the lists they hold. Two things are shared and have an identity. A capture cell
  (\<open>Rc<RefCell<Value>>\<close>) is mutable and is a number, its address in the store of the machine. A
  callable with an environment is compared by the address of its allocation, which is the
  \<open>callable_identity\<close> of the model. A string is the list of its UTF-8 bytes.
\<close>

section \<open>The data\<close>

datatype CallableKind = FunctionItem | Closure | HostFunction

type_synonym cell_address = nat

datatype CallableValue = CallableValue
  (callable_prototype_id: u32)
  (callable_kind: CallableKind)
  (callable_env: "cell_address list option")
  (callable_identity: nat)

datatype Value =
    VNull
  | VInt i64
  | VFloat f64
  | VBool bool
  | VString string
  | VBytes "u8 list"
  | VArray "Value list"
  | VMap "(Value \<times> Value) list"
  | VCallable CallableValue

section \<open>Equality\<close>

text \<open>\<open>impl PartialEq for Value\<close>: floats by their bits, closures by their identity.\<close>

fun callable_eq :: "CallableValue \<Rightarrow> CallableValue \<Rightarrow> bool" where
  "callable_eq lhs rhs =
     (if callable_env lhs = None \<and> callable_env rhs = None
      then callable_prototype_id lhs = callable_prototype_id rhs \<and> callable_kind lhs = callable_kind rhs
      else callable_identity lhs = callable_identity rhs)"

function (sequential) value_eq :: "Value \<Rightarrow> Value \<Rightarrow> bool"
  and values_eq :: "Value list \<Rightarrow> Value list \<Rightarrow> bool"
  and entries_eq :: "(Value \<times> Value) list \<Rightarrow> (Value \<times> Value) list \<Rightarrow> bool" where
  "value_eq VNull other = (case other of VNull \<Rightarrow> True | _ \<Rightarrow> False)"
| "value_eq (VInt lhs) other = (case other of VInt rhs \<Rightarrow> lhs = rhs | _ \<Rightarrow> False)"
| "value_eq (VFloat lhs) other = (case other of VFloat rhs \<Rightarrow> lhs = rhs | _ \<Rightarrow> False)"
| "value_eq (VBool lhs) other = (case other of VBool rhs \<Rightarrow> lhs = rhs | _ \<Rightarrow> False)"
| "value_eq (VString lhs) other = (case other of VString rhs \<Rightarrow> lhs = rhs | _ \<Rightarrow> False)"
| "value_eq (VBytes lhs) other = (case other of VBytes rhs \<Rightarrow> lhs = rhs | _ \<Rightarrow> False)"
| "value_eq (VArray lhs) other = (case other of VArray rhs \<Rightarrow> values_eq lhs rhs | _ \<Rightarrow> False)"
| "value_eq (VMap lhs) other = (case other of VMap rhs \<Rightarrow> entries_eq lhs rhs | _ \<Rightarrow> False)"
| "value_eq (VCallable lhs) other =
     (case other of VCallable rhs \<Rightarrow> callable_eq lhs rhs | _ \<Rightarrow> False)"
| "values_eq [] ys = (ys = [])"
| "values_eq (x # xs) ys = (case ys of [] \<Rightarrow> False | y # ys \<Rightarrow> value_eq x y \<and> values_eq xs ys)"
| "entries_eq [] ys = (ys = [])"
| "entries_eq ((k, v) # xs) ys =
     (case ys of [] \<Rightarrow> False | (l, w) # ys \<Rightarrow> value_eq k l \<and> value_eq v w \<and> entries_eq xs ys)"
  by pat_completeness auto
termination
  by (relation "measure (\<lambda>a. case a of Inl (v, _) \<Rightarrow> size v
    | Inr (Inl (vs, _)) \<Rightarrow> size_list size vs
    | Inr (Inr (es, _)) \<Rightarrow> size_list (size_prod size size) es)") auto

section \<open>The cells a value holds\<close>

text \<open>
  The addresses that occur in a value without going through a cell. \<open>value_cells\<close> is a
  specification: the code walks them in \<open>value_references_capture_cell\<close>.
\<close>

primrec env_cells :: "cell_address list option \<Rightarrow> cell_address list" where
  "env_cells None = []"
| "env_cells (Some cells) = cells"

fun value_cells :: "Value \<Rightarrow> cell_address list" where
  "value_cells (VCallable c) = env_cells (callable_env c)"
| "value_cells (VArray vs) = concat (map value_cells vs)"
| "value_cells (VMap es) = concat (map (\<lambda>(k, v). value_cells k @ value_cells v) es)"
| "value_cells _ = []"

end
