(* ===== verification/Program.thy ===== *)
theory Program
  imports Value
begin

text \<open>
  Programs of the freestanding runtime (\<open>pd-vm-nostd/src/program.rs\<close>): the callable metadata, the
  opcodes and their encoding, and the builders that compute how many locals the root frame has.
\<close>

section \<open>The data\<close>

datatype ValueType =
    TUnknown | TNull | TInt | TFloat | TBool | TString | TBytes | TArray | TMap | TCallable

fun value_type_try_from :: "u8 \<Rightarrow> ValueType option" where
  "value_type_try_from value =
     (if value = 0 then Some TUnknown
      else if value = 1 then Some TNull
      else if value = 2 then Some TInt
      else if value = 3 then Some TFloat
      else if value = 4 then Some TBool
      else if value = 5 then Some TString
      else if value = 6 then Some TBytes
      else if value = 7 then Some TArray
      else if value = 8 then Some TMap
      else if value = 9 then Some TCallable
      else None)"

datatype CallableTarget = ScriptFunctionTarget u32 | HostImportTarget u16

datatype CaptureBindingMode = CopyMode | BorrowMode | BorrowMutMode | MoveMode

record ScriptFunction =
  entry_ip :: u32
  end_ip :: u32

record CallablePrototype =
  kind :: CallableKind
  target :: CallableTarget
  arity :: u8
  frame_local_count :: nat
  parameter_slots :: "u16 list"
  capture_source_slots :: "u16 list"
  capture_slots :: "u16 list"
  capture_modes :: "CaptureBindingMode list"
  self_slot :: "u16 option"

record FunctionRegion =
  start_ip :: u32
  region_end_ip :: u32
  region_prototype_id :: "u32 option"

record RootCallableBinding =
  binding_local_slot :: u16
  binding_prototype_id :: u32

record ExportedCallable =
  export_name :: string
  export_local_slot :: u16

record HostImport =
  import_name :: string
  import_arity :: u8
  import_return_type :: ValueType

record Program =
  constants :: "Value list"
  code :: "u8 list"
  local_count :: nat
  host_imports :: "HostImport list"
  script_functions :: "ScriptFunction list"
  callable_prototypes :: "CallablePrototype list"
  function_regions :: "FunctionRegion list"
  root_callable_bindings :: "RootCallableBinding list"
  exported_callables :: "ExportedCallable list"

definition MAX_FRAME_LOCAL_COUNT :: nat where
  "MAX_FRAME_LOCAL_COUNT = 64 * 1024"

section \<open>Opcodes\<close>

datatype OpCode =
    OpNop | OpRet | OpLdc | OpAdd | OpSub | OpMul | OpDiv | OpNeg | OpCeq | OpClt | OpCgt | OpBr | OpBrfalse | OpPop | OpDup
  | OpLdloc | OpStloc | OpCall | OpShl | OpShr | OpMod | OpAnd | OpOr | OpNot | OpLshr | OpCallValue | OpCallScript

fun opcode_byte :: "OpCode \<Rightarrow> u8" where
  "opcode_byte OpNop = 0x00"
| "opcode_byte OpRet = 0x01"
| "opcode_byte OpLdc = 0x02"
| "opcode_byte OpAdd = 0x03"
| "opcode_byte OpSub = 0x04"
| "opcode_byte OpMul = 0x05"
| "opcode_byte OpDiv = 0x06"
| "opcode_byte OpNeg = 0x07"
| "opcode_byte OpCeq = 0x08"
| "opcode_byte OpClt = 0x09"
| "opcode_byte OpCgt = 0x0a"
| "opcode_byte OpBr = 0x0b"
| "opcode_byte OpBrfalse = 0x0c"
| "opcode_byte OpPop = 0x0d"
| "opcode_byte OpDup = 0x0e"
| "opcode_byte OpLdloc = 0x0f"
| "opcode_byte OpStloc = 0x10"
| "opcode_byte OpCall = 0x11"
| "opcode_byte OpShl = 0x12"
| "opcode_byte OpShr = 0x13"
| "opcode_byte OpMod = 0x14"
| "opcode_byte OpAnd = 0x15"
| "opcode_byte OpOr = 0x16"
| "opcode_byte OpNot = 0x17"
| "opcode_byte OpLshr = 0x18"
| "opcode_byte OpCallValue = 0x19"
| "opcode_byte OpCallScript = 0x1A"

fun operand_len :: "OpCode \<Rightarrow> nat" where
  "operand_len OpLdc = 4"
| "operand_len OpBr = 4"
| "operand_len OpBrfalse = 4"
| "operand_len OpLdloc = 1"
| "operand_len OpStloc = 1"
| "operand_len OpCallValue = 1"
| "operand_len OpCall = 3"
| "operand_len OpCallScript = 5"
| "operand_len _ = 0"

definition opcode_try_from :: "u8 \<Rightarrow> OpCode option" where
  "opcode_try_from value =
     (if value = 0x00 then Some OpNop
      else if value = 0x01 then Some OpRet
      else if value = 0x02 then Some OpLdc
      else if value = 0x03 then Some OpAdd
      else if value = 0x04 then Some OpSub
      else if value = 0x05 then Some OpMul
      else if value = 0x06 then Some OpDiv
      else if value = 0x07 then Some OpNeg
      else if value = 0x08 then Some OpCeq
      else if value = 0x09 then Some OpClt
      else if value = 0x0a then Some OpCgt
      else if value = 0x0b then Some OpBr
      else if value = 0x0c then Some OpBrfalse
      else if value = 0x0d then Some OpPop
      else if value = 0x0e then Some OpDup
      else if value = 0x0f then Some OpLdloc
      else if value = 0x10 then Some OpStloc
      else if value = 0x11 then Some OpCall
      else if value = 0x12 then Some OpShl
      else if value = 0x13 then Some OpShr
      else if value = 0x14 then Some OpMod
      else if value = 0x15 then Some OpAnd
      else if value = 0x16 then Some OpOr
      else if value = 0x17 then Some OpNot
      else if value = 0x18 then Some OpLshr
      else if value = 0x19 then Some OpCallValue
      else if value = 0x1a then Some OpCallScript
      else None)"

section \<open>Building a program\<close>

text \<open>The walk of \<open>infer_local_count\<close>: \<open>ip\<close> grows, so the distance to the end of the code shrinks.\<close>

function infer_max_local :: "u8 list \<Rightarrow> nat \<Rightarrow> u8 option \<Rightarrow> u8 option" where
  "infer_max_local bs ip max_local =
     (if ip < length bs then
        case opcode_try_from (bs ! ip) of
          None \<Rightarrow> max_local
        | Some opcode \<Rightarrow>
            (let ip = ip + 1; len = operand_len opcode
             in if ip + len > length bs then max_local
                else let max_local =
                       (if opcode = OpLdloc \<or> opcode = OpStloc
                        then Some (case max_local of None \<Rightarrow> bs ! ip | Some current \<Rightarrow> max current (bs ! ip))
                        else max_local)
                     in infer_max_local bs (ip + len) max_local)
      else max_local)"
  by pat_completeness auto
termination
  by (relation "measure (\<lambda>(bs, ip, _). length bs - ip)") auto

declare infer_max_local.simps [simp del]

definition infer_local_count :: "u8 list \<Rightarrow> nat" where
  "infer_local_count bs =
     (case infer_max_local bs 0 None of None \<Rightarrow> 0 | Some index \<Rightarrow> unat index + 1)"

definition program_new :: "Value list \<Rightarrow> u8 list \<Rightarrow> HostImport list \<Rightarrow> Program" where
  "program_new cs bs is =
     \<lparr>constants = cs, code = bs, local_count = infer_local_count bs, host_imports = is,
      script_functions = [], callable_prototypes = [], function_regions = [],
      root_callable_bindings = [], exported_callables = []\<rparr>"

definition with_local_count :: "nat \<Rightarrow> Program \<Rightarrow> Program" where
  "with_local_count n p = p\<lparr>local_count := max (local_count p) n\<rparr>"

definition with_callable_metadata ::
  "ScriptFunction list \<Rightarrow> CallablePrototype list \<Rightarrow> FunctionRegion list \<Rightarrow>
   RootCallableBinding list \<Rightarrow> ExportedCallable list \<Rightarrow> Program \<Rightarrow> Program" where
  "with_callable_metadata functions prototypes regions bindings exports p =
     p\<lparr>script_functions := functions,
       callable_prototypes := prototypes,
       function_regions := regions,
       local_count :=
         max (max (local_count p)
                  (foldr max (map (\<lambda>b. unat (binding_local_slot b) + 1) bindings) 0))
             (foldr max (map (\<lambda>e. unat (export_local_slot e) + 1) exports) 0),
       root_callable_bindings := bindings,
       exported_callables := exports\<rparr>"

end
