(* ===== verification/Wire.thy ===== *)
theory Wire
  imports Program
begin

text \<open>
  The decoder of the freestanding runtime for the VMBC wire format (\<open>pd-vm-nostd/src/vmbc.rs\<close>).

  A reader is a method on the cursor. Allocation is taken to succeed, so \<open>reserve\<close> and the
  \<open>try_reserve_exact\<close> of a string have no counterpart: they fail only when the allocator does. A
  static field name of an error is a \<open>string\<close>.
\<close>

section \<open>Errors and limits\<close>

datatype WireError =
    UnexpectedEof
  | InvalidMagic "u8 list"
  | UnsupportedVersion u16
  | UnsupportedFlags u16
  | InvalidConstantTag u8
  | InvalidBool u8
  | InvalidTypeMapFlag u8
  | InvalidDebugFlag u8
  | InvalidValueType u8
  | InvalidResourceKey
  | InvalidCaptureBindingMode u8
  | InvalidCallScriptTarget u32
  | InvalidCallScriptArity u32 u8 u8
  | TruncatedOperand u8 nat
  | InvalidUtf8
  | LengthTooLarge string nat
  | SchemaTooDeep
  | TrailingBytes

definition MAGIC :: "u8 list" where "MAGIC = [0x56, 0x4D, 0x42, 0x43]"
definition VERSION_V11 :: u16 where "VERSION_V11 = 11"
definition VERSION_V12 :: u16 where "VERSION_V12 = 12"
definition VERSION_V13 :: u16 where "VERSION_V13 = 13"
definition FLAGS :: u16 where "FLAGS = 0"
definition MAX_WIRE_PAYLOAD_BYTES :: nat where "MAX_WIRE_PAYLOAD_BYTES = 64 * 1024 * 1024"
definition MAX_WIRE_BLOB_BYTES :: nat where "MAX_WIRE_BLOB_BYTES = 16 * 1024 * 1024"
definition MAX_WIRE_COUNT :: nat where "MAX_WIRE_COUNT = 1000000"
definition MAX_WIRE_AGGREGATE_ITEMS :: nat where "MAX_WIRE_AGGREGATE_ITEMS = 1000000"
definition MAX_RESOURCE_KEY_LEN :: nat where "MAX_RESOURCE_KEY_LEN = 128"
definition MAX_SCHEMA_DEPTH :: nat where "MAX_SCHEMA_DEPTH = 64"
definition MAX_CONSTANT_DEPTH :: nat where "MAX_CONSTANT_DEPTH = 64"

section \<open>UTF-8\<close>

text \<open>
  \<open>core::str::from_utf8\<close>: the well-formed byte sequences of the Unicode standard, without overlong
  forms, surrogates and code points above 10FFFF.
\<close>

definition utf8_tail :: "u8 \<Rightarrow> bool" where
  "utf8_tail b \<longleftrightarrow> 0x80 \<le> b \<and> b \<le> 0xBF"

fun utf8_valid :: "u8 list \<Rightarrow> bool" where
  "utf8_valid [] = True"
| "utf8_valid (b0 # rest) =
     (if b0 < 0x80 then utf8_valid rest
      else if 0xC2 \<le> b0 \<and> b0 \<le> 0xDF then
        (case rest of b1 # rest \<Rightarrow> utf8_tail b1 \<and> utf8_valid rest | _ \<Rightarrow> False)
      else if 0xE0 \<le> b0 \<and> b0 \<le> 0xEF then
        (case rest of b1 # b2 # rest \<Rightarrow>
           (if b0 = 0xE0 then 0xA0 \<le> b1 \<and> b1 \<le> 0xBF
            else if b0 = 0xED then 0x80 \<le> b1 \<and> b1 \<le> 0x9F
            else utf8_tail b1) \<and> utf8_tail b2 \<and> utf8_valid rest
         | _ \<Rightarrow> False)
      else if 0xF0 \<le> b0 \<and> b0 \<le> 0xF4 then
        (case rest of b1 # b2 # b3 # rest \<Rightarrow>
           (if b0 = 0xF0 then 0x90 \<le> b1 \<and> b1 \<le> 0xBF
            else if b0 = 0xF4 then 0x80 \<le> b1 \<and> b1 \<le> 0x8F
            else utf8_tail b1) \<and> utf8_tail b2 \<and> utf8_tail b3 \<and> utf8_valid rest
         | _ \<Rightarrow> False)
      else False)"

definition string_of_bytes :: "u8 list \<Rightarrow> string" where
  "string_of_bytes bs = map (\<lambda>b. char_of (unat b)) bs"

section \<open>The cursor\<close>

record Cursor =
  bytes :: "u8 list"
  offset :: nat
  remaining_budget :: nat

type_synonym 'a Reader = "(Cursor, WireError, 'a) meth"

definition cursor_new :: "u8 list \<Rightarrow> Cursor" where
  "cursor_new bs = \<lparr>bytes = bs, offset = 0, remaining_budget = MAX_WIRE_AGGREGATE_ITEMS\<rparr>"

definition cursor_is_empty :: "Cursor \<Rightarrow> bool" where
  "cursor_is_empty c \<longleftrightarrow> offset c = length (bytes c)"

definition cursor_remaining :: "Cursor \<Rightarrow> nat" where
  "cursor_remaining c = length (bytes c) - offset c"

definition cursor_read_u8 :: "u8 Reader" where
  "cursor_read_u8 =
     and_then (self (\<lambda>c. vec_get (bytes c) (offset c))) (\<lambda>b.
     and_then (ok_or b UnexpectedEof) (\<lambda>value.
     then_do (update (\<lambda>c. c\<lparr>offset := offset c + 1\<rparr>)) (ok value)))"

definition cursor_read_bool :: "bool Reader" where
  "cursor_read_bool =
     and_then cursor_read_u8 (\<lambda>value.
       if value = 0 then ok False else if value = 1 then ok True else err (InvalidBool value))"

definition cursor_read_exact :: "nat \<Rightarrow> u8 list Reader" where
  "cursor_read_exact len =
     and_then (self (\<lambda>c. checked_add_usize (offset c) len)) (\<lambda>e.
     and_then (ok_or e (LengthTooLarge ''payload'' len)) (\<lambda>stop.
     and_then (self (\<lambda>c. vec_range (bytes c) (offset c) stop)) (\<lambda>r.
     and_then (ok_or r UnexpectedEof) (\<lambda>value.
     then_do (update (\<lambda>c. c\<lparr>offset := stop\<rparr>)) (ok value)))))"

definition cursor_read_u16 :: "u16 Reader" where
  "cursor_read_u16 = and_then (cursor_read_exact 2) (\<lambda>bs. ok (from_le_bytes bs))"

definition cursor_read_u32 :: "u32 Reader" where
  "cursor_read_u32 = and_then (cursor_read_exact 4) (\<lambda>bs. ok (from_le_bytes bs))"

definition cursor_read_i64 :: "i64 Reader" where
  "cursor_read_i64 = and_then (cursor_read_exact 8) (\<lambda>bs. ok (from_le_bytes bs))"

definition cursor_read_f64 :: "f64 Reader" where
  "cursor_read_f64 = and_then (cursor_read_exact 8) (\<lambda>bs. ok (from_le_bytes bs))"

definition cursor_read_blob :: "string \<Rightarrow> u8 list Reader" where
  "cursor_read_blob field =
     and_then cursor_read_u32 (\<lambda>len.
     then_do (guard_err (unat len > MAX_WIRE_BLOB_BYTES) (LengthTooLarge field (unat len)))
     (cursor_read_exact (unat len)))"

definition cursor_read_string :: "string Reader" where
  "cursor_read_string =
     and_then (cursor_read_blob ''string'') (\<lambda>bs.
       if utf8_valid bs then ok (string_of_bytes bs) else err InvalidUtf8)"

definition cursor_skip_string :: "unit Reader" where
  "cursor_skip_string = and_then (cursor_read_blob ''string'') (\<lambda>_. ok ())"

definition cursor_debit_count :: "string \<Rightarrow> nat \<Rightarrow> unit Reader" where
  "cursor_debit_count field count =
     then_do (guard_err (count > MAX_WIRE_COUNT) (LengthTooLarge field count))
     (and_then (self (\<lambda>c. checked_sub_usize (remaining_budget c) count)) (\<lambda>r.
      and_then (ok_or r (LengthTooLarge field count)) (\<lambda>budget.
      update (\<lambda>c. c\<lparr>remaining_budget := budget\<rparr>))))"

definition cursor_validate_count_with_overhead :: "string \<Rightarrow> nat \<Rightarrow> nat \<Rightarrow> nat \<Rightarrow> unit Reader" where
  "cursor_validate_count_with_overhead field count min_item_bytes fixed_bytes =
     then_do (guard_err (count > MAX_WIRE_COUNT) (LengthTooLarge field count))
     (and_then (ok_or (checked_mul_usize count min_item_bytes) (LengthTooLarge field count)) (\<lambda>item_bytes.
      and_then (ok_or (checked_add_usize item_bytes fixed_bytes) (LengthTooLarge field count)) (\<lambda>required_bytes.
      and_then (self cursor_remaining) (\<lambda>remaining.
      guard_err (required_bytes > remaining) (LengthTooLarge field count)))))"

definition cursor_validate_count :: "string \<Rightarrow> nat \<Rightarrow> nat \<Rightarrow> unit Reader" where
  "cursor_validate_count field count min_item_bytes =
     cursor_validate_count_with_overhead field count min_item_bytes 0"

definition cursor_read_count_with_overhead :: "string \<Rightarrow> nat \<Rightarrow> nat \<Rightarrow> nat Reader" where
  "cursor_read_count_with_overhead field min_item_bytes fixed_bytes =
     and_then cursor_read_u32 (\<lambda>raw. let count = unat raw in
     then_do (cursor_validate_count_with_overhead field count min_item_bytes fixed_bytes)
     (then_do (cursor_debit_count field count) (ok count)))"

definition cursor_read_count :: "string \<Rightarrow> nat \<Rightarrow> nat Reader" where
  "cursor_read_count field min_item_bytes = cursor_read_count_with_overhead field min_item_bytes 0"

definition cursor_read_limited_count :: "string \<Rightarrow> nat Reader" where
  "cursor_read_limited_count field =
     and_then cursor_read_u32 (\<lambda>raw. let count = unat raw in
     then_do (guard_err (count > MAX_FRAME_LOCAL_COUNT) (LengthTooLarge field count))
     (then_do (cursor_debit_count field count) (ok count)))"

definition cursor_skip_count :: "string \<Rightarrow> nat \<Rightarrow> nat \<Rightarrow> unit Reader" where
  "cursor_skip_count field count item_size =
     and_then (ok_or (checked_mul_usize count item_size) (LengthTooLarge field count)) (\<lambda>len.
     and_then (cursor_read_exact len) (\<lambda>_. ok ()))"

text \<open>A loop \<open>for _ in 0..n\<close> whose body returns nothing.\<close>

fun repeat_do :: "nat \<Rightarrow> ('s, 'e, unit) meth \<Rightarrow> ('s, 'e, unit) meth" where
  "repeat_do 0 m = ok ()"
| "repeat_do (Suc n) m = then_do m (repeat_do n m)"

section \<open>Constants\<close>

function read_constant :: "nat \<Rightarrow> Value Reader" where
  "read_constant depth =
     (if depth \<ge> MAX_CONSTANT_DEPTH then err (LengthTooLarge ''constant nesting depth'' depth)
      else and_then cursor_read_u8 (\<lambda>tag.
        if tag = 0 then and_then cursor_read_i64 (\<lambda>i. ok (VInt i))
        else if tag = 1 then and_then cursor_read_bool (\<lambda>b. ok (VBool b))
        else if tag = 2 then and_then cursor_read_string (\<lambda>s. ok (VString s))
        else if tag = 3 then and_then cursor_read_f64 (\<lambda>f. ok (VFloat f))
        else if tag = 4 then ok VNull
        else if tag = 5 then and_then (cursor_read_blob ''constant bytes'') (\<lambda>bs. ok (VBytes bs))
        else if tag = 6 then
          and_then (cursor_read_count ''constant array'' 1) (\<lambda>count.
          and_then (repeat_collect count (read_constant (depth + 1))) (\<lambda>vs. ok (VArray vs)))
        else if tag = 7 then
          and_then (cursor_read_count ''constant map'' 2) (\<lambda>count.
          and_then (repeat_collect count
            (and_then (read_constant (depth + 1)) (\<lambda>k.
             and_then (read_constant (depth + 1)) (\<lambda>v. ok (k, v))))) (\<lambda>es. ok (VMap es)))
        else err (InvalidConstantTag tag)))"
  by pat_completeness auto
termination
  by (relation "measure (\<lambda>depth. MAX_CONSTANT_DEPTH - depth)") auto

declare read_constant.simps [simp del]

section \<open>Skipped sections\<close>

definition read_value_type :: "u8 \<Rightarrow> ValueType Reader" where
  "read_value_type raw = ok_or (value_type_try_from raw) (InvalidValueType raw)"

text \<open>The segments of a resource key, separated by dots, are not empty.\<close>

fun resource_key_segments :: "u8 list \<Rightarrow> nat \<Rightarrow> nat \<Rightarrow> WireError + nat" where
  "resource_key_segments [] index segment_start = Inr segment_start"
| "resource_key_segments (byte # rest) index segment_start =
     (if \<not> (0x61 \<le> byte \<and> byte \<le> 0x7A \<or> 0x30 \<le> byte \<and> byte \<le> 0x39
             \<or> byte = 0x5F \<or> byte = 0x2D \<or> byte = 0x2E) then Inl InvalidResourceKey
      else if byte = 0x2E then
        if index = segment_start then Inl InvalidResourceKey
        else resource_key_segments rest (index + 1) (index + 1)
      else resource_key_segments rest (index + 1) segment_start)"

definition skip_resource_key :: "unit Reader" where
  "skip_resource_key =
     and_then (cursor_read_blob ''schema resource key'') (\<lambda>bs.
     then_do (guard_err (bs = [] \<or> length bs > MAX_RESOURCE_KEY_LEN) InvalidResourceKey)
     (then_do (guard_err (\<not> utf8_valid bs) InvalidUtf8)
     (and_then (lift_result (resource_key_segments bs 0 0)) (\<lambda>segment_start.
      guard_err (segment_start = length bs) InvalidResourceKey))))"

function skip_schema :: "nat \<Rightarrow> unit Reader" where
  "skip_schema depth =
     (if depth \<ge> MAX_SCHEMA_DEPTH then err SchemaTooDeep
      else then_do (cursor_debit_count ''schema nodes'' 1)
        (and_then cursor_read_u8 (\<lambda>tag.
        if tag \<le> 7 then ok ()
        else if tag = 8 then cursor_skip_string
        else if tag = 9 then
          then_do cursor_skip_string
          (and_then (cursor_read_count ''schema type args'' 1) (\<lambda>count.
           repeat_do count (skip_schema (depth + 1))))
        else if tag = 10 \<or> tag = 13 \<or> tag = 16 then skip_schema (depth + 1)
        else if tag = 11 then
          and_then (cursor_read_count ''schema tuple items'' 1) (\<lambda>count.
          repeat_do count (skip_schema (depth + 1)))
        else if tag = 12 then
          and_then (cursor_read_count_with_overhead ''schema tuple prefix'' 1 1) (\<lambda>count.
          then_do (repeat_do count (skip_schema (depth + 1))) (skip_schema (depth + 1)))
        else if tag = 14 then
          and_then (cursor_read_count ''schema object fields'' 5) (\<lambda>count.
          repeat_do count (then_do cursor_skip_string (skip_schema (depth + 1))))
        else if tag = 15 then
          and_then (cursor_read_count_with_overhead ''schema callable params'' 1 1) (\<lambda>count.
          then_do (repeat_do count (skip_schema (depth + 1))) (skip_schema (depth + 1)))
        else if tag = 17 then skip_resource_key
        else err (InvalidValueType tag))))"
  by pat_completeness auto
termination
  by (relation "measure (\<lambda>depth. MAX_SCHEMA_DEPTH - depth)") auto

declare skip_schema.simps [simp del]

function skip_host_schema :: "nat \<Rightarrow> unit Reader" where
  "skip_host_schema depth =
     (if depth \<ge> MAX_SCHEMA_DEPTH then err SchemaTooDeep
      else and_then cursor_read_u8 (\<lambda>tag.
        if tag \<le> 7 then ok ()
        else if tag \<le> 10 then skip_host_schema (depth + 1)
        else if tag = 11 then
          and_then (cursor_read_count_with_overhead ''host callable parameters'' 1 1) (\<lambda>count.
          then_do (repeat_do count (skip_host_schema (depth + 1))) (skip_host_schema (depth + 1)))
        else if tag = 12 then cursor_skip_string
        else if tag = 13 then
          then_do cursor_skip_string
          (and_then (cursor_read_count_with_overhead ''host named struct fields'' 1 1) (\<lambda>count.
           repeat_do count (then_do cursor_skip_string (skip_host_schema (depth + 1)))))
        else err (InvalidValueType tag)))"
  by pat_completeness auto
termination
  by (relation "measure (\<lambda>depth. MAX_SCHEMA_DEPTH - depth)") auto

declare skip_host_schema.simps [simp del]

definition skip_host_import_parameter :: "unit Reader" where
  "skip_host_import_parameter =
     then_do cursor_skip_string
     (then_do (skip_host_schema 0)
     (and_then cursor_read_u8 (\<lambda>value. guard_err (\<not> value \<le> 3) (InvalidValueType value))))"

definition skip_host_import_schema :: "unit Reader" where
  "skip_host_import_schema =
     then_do cursor_skip_string
     (and_then (cursor_read_count ''host import schema parameters'' 6) (\<lambda>parameter_count.
     then_do (repeat_do parameter_count skip_host_import_parameter)
     (then_do (skip_host_schema 0)
     (and_then (cursor_read_exact 8) (\<lambda>_. ok ())))))"

definition skip_bool_vector :: "nat \<Rightarrow> unit Reader" where
  "skip_bool_vector expected =
     and_then cursor_read_u32 (\<lambda>raw. let count = unat raw in
     then_do (guard_err (count \<noteq> expected) TrailingBytes)
     (then_do (cursor_validate_count ''type map boolean vector'' count 1)
     (then_do (cursor_debit_count ''type map boolean vector'' count)
     (repeat_do count (and_then cursor_read_bool (\<lambda>_. ok ()))))))"

text \<open>The value type of one local and its optional schema, and the types of one operand pair.\<close>

definition skip_value_type :: "unit Reader" where
  "skip_value_type = and_then cursor_read_u8 (\<lambda>raw. and_then (read_value_type raw) (\<lambda>_. ok ()))"

definition skip_optional_schema :: "unit Reader" where
  "skip_optional_schema =
     and_then cursor_read_u8 (\<lambda>value.
       if value = 0 then ok () else if value = 1 then skip_schema 0 else err (InvalidBool value))"

definition skip_operand_types :: "unit Reader" where
  "skip_operand_types =
     and_then cursor_read_u32 (\<lambda>_. then_do skip_value_type skip_value_type)"

definition skip_type_map :: "nat option Reader" where
  "skip_type_map =
     and_then cursor_read_u8 (\<lambda>value.
       if value = 0 then ok None
       else if value = 1 then
         and_then cursor_read_bool (\<lambda>_.
         and_then (cursor_read_count_with_overhead ''type map locals'' 4 12) (\<lambda>local_count.
         then_do (guard_err (local_count > MAX_FRAME_LOCAL_COUNT) (LengthTooLarge ''type map locals'' local_count))
         (then_do (repeat_do local_count skip_value_type)
         (then_do (repeat_do local_count skip_optional_schema)
         (then_do (skip_bool_vector local_count)
         (then_do (skip_bool_vector local_count)
         (and_then (cursor_read_count ''type map operands'' 6) (\<lambda>operand_count.
         then_do (repeat_do operand_count skip_operand_types)
         (ok (Some local_count))))))))))
       else err (InvalidTypeMapFlag value))"

definition skip_optional_u32 :: "unit Reader" where
  "skip_optional_u32 =
     and_then cursor_read_u8 (\<lambda>value.
       if value = 0 then ok ()
       else if value = 1 then and_then cursor_read_u32 (\<lambda>_. ok ())
       else err (InvalidDebugFlag value))"

definition skip_debug_function :: "unit Reader" where
  "skip_debug_function =
     then_do cursor_skip_string
     (and_then (cursor_read_count ''debug function args'' 5) (\<lambda>arg_count.
      repeat_do arg_count (then_do cursor_skip_string (and_then cursor_read_u8 (\<lambda>_. ok ())))))"

definition skip_debug_local :: "unit Reader" where
  "skip_debug_local =
     then_do cursor_skip_string
     (and_then cursor_read_u8 (\<lambda>_. then_do skip_optional_u32 skip_optional_u32))"

definition skip_debug_info :: "unit Reader" where
  "skip_debug_info =
     and_then cursor_read_u8 (\<lambda>value.
       if value = 0 then ok ()
       else if value = 1 then
         and_then cursor_read_u8 (\<lambda>source.
         then_do (if source = 0 then ok () else if source = 1 then cursor_skip_string
                  else err (InvalidDebugFlag source))
         (and_then (cursor_read_count ''debug lines'' 8) (\<lambda>line_count.
         then_do (cursor_skip_count ''debug lines'' line_count 8)
         (and_then (cursor_read_count ''debug functions'' 8) (\<lambda>function_count.
         then_do (repeat_do function_count skip_debug_function)
         (and_then (cursor_read_count ''debug locals'' 7) (\<lambda>local_count.
         repeat_do local_count skip_debug_local)))))))
       else err (InvalidDebugFlag value))"

text \<open>
  The names of the declarations and of the parameters of each are distinct. The loops carry the
  names seen so far.
\<close>

fun read_distinct_strings :: "nat \<Rightarrow> string list \<Rightarrow> unit Reader" where
  "read_distinct_strings 0 seen = ok ()"
| "read_distinct_strings (Suc n) seen =
     and_then cursor_read_string (\<lambda>param.
     then_do (guard_err (param \<in> set seen) (InvalidValueType 0))
     (read_distinct_strings n (seen @ [param])))"

fun skip_named_struct_decl_list :: "nat \<Rightarrow> string list \<Rightarrow> unit Reader" where
  "skip_named_struct_decl_list 0 seen_names = ok ()"
| "skip_named_struct_decl_list (Suc n) seen_names =
     and_then cursor_read_string (\<lambda>name.
     then_do (guard_err (name \<in> set seen_names) (InvalidValueType 0))
     (and_then (cursor_read_count ''named struct type params'' 1) (\<lambda>param_count.
     then_do (read_distinct_strings param_count [])
     (then_do (skip_schema 0)
     (skip_named_struct_decl_list n (seen_names @ [name]))))))"

definition skip_named_struct_decls :: "unit Reader" where
  "skip_named_struct_decls =
     and_then (cursor_read_count ''named struct decls'' 1) (\<lambda>count. skip_named_struct_decl_list count [])"

section \<open>Callable metadata\<close>

definition read_script_function :: "ScriptFunction Reader" where
  "read_script_function =
     and_then cursor_read_u32 (\<lambda>entry. and_then cursor_read_u32 (\<lambda>stop.
     ok \<lparr>entry_ip = entry, end_ip = stop\<rparr>))"

definition read_callable_kind :: "CallableKind Reader" where
  "read_callable_kind =
     and_then cursor_read_u8 (\<lambda>value.
       if value = 0 then ok FunctionItem
       else if value = 1 then ok Closure
       else if value = 2 then ok HostFunction
       else err (InvalidValueType value))"

definition read_callable_target :: "CallableTarget Reader" where
  "read_callable_target =
     and_then cursor_read_u8 (\<lambda>target_tag.
     and_then cursor_read_u32 (\<lambda>target_id.
       if target_tag = 0 then ok (ScriptFunctionTarget target_id)
       else if target_tag = 1 then
         if unat target_id < 2 ^ 16 then ok (HostImportTarget (ucast target_id))
         else err (LengthTooLarge ''host callable target'' (unat target_id))
       else err (InvalidValueType target_tag)))"

text \<open>The three lists of slots of a prototype, each with its own field name.\<close>

definition read_slots :: "string \<Rightarrow> u16 list Reader" where
  "read_slots field =
     and_then (cursor_read_count field 2) (\<lambda>count. repeat_collect count cursor_read_u16)"

definition read_capture_mode :: "CaptureBindingMode Reader" where
  "read_capture_mode =
     and_then cursor_read_u8 (\<lambda>value.
       if value = 0 then ok CopyMode
       else if value = 1 then ok BorrowMode
       else if value = 2 then ok BorrowMutMode
       else if value = 3 then ok MoveMode
       else err (InvalidCaptureBindingMode value))"

text \<open>\<open>read_bool()?.then(read).transpose()?\<close>.\<close>

definition read_optional :: "'a Reader \<Rightarrow> 'a option Reader" where
  "read_optional m =
     and_then cursor_read_bool (\<lambda>present.
       if present then and_then m (\<lambda>x. ok (Some x)) else ok None)"

definition read_callable_prototype :: "CallablePrototype Reader" where
  "read_callable_prototype =
     and_then read_callable_kind (\<lambda>k.
     and_then read_callable_target (\<lambda>t.
     and_then cursor_read_u8 (\<lambda>a.
     and_then (cursor_read_limited_count ''callable frame locals'') (\<lambda>frame_locals.
     and_then (read_slots ''callable parameters'') (\<lambda>parameters.
     and_then (read_slots ''callable capture sources'') (\<lambda>sources.
     and_then (read_slots ''callable captures'') (\<lambda>captures.
     and_then (cursor_read_count ''callable capture modes'' 1) (\<lambda>mode_count.
     and_then (repeat_collect mode_count read_capture_mode) (\<lambda>modes.
     and_then (read_optional cursor_read_u16) (\<lambda>own_slot.
     and_then cursor_read_bool (\<lambda>has_schema.
     then_do (if has_schema then skip_schema 0 else ok ())
     (ok \<lparr>kind = k, target = t, arity = a, frame_local_count = frame_locals,
          parameter_slots = parameters, capture_source_slots = sources, capture_slots = captures,
          capture_modes = modes, self_slot = own_slot\<rparr>))))))))))))"

definition read_function_region :: "FunctionRegion Reader" where
  "read_function_region =
     and_then cursor_read_u32 (\<lambda>start. and_then cursor_read_u32 (\<lambda>stop.
     and_then (read_optional cursor_read_u32) (\<lambda>pid.
     ok \<lparr>start_ip = start, region_end_ip = stop, region_prototype_id = pid\<rparr>)))"

definition read_root_callable_binding :: "RootCallableBinding Reader" where
  "read_root_callable_binding =
     and_then cursor_read_u16 (\<lambda>slot. and_then cursor_read_u32 (\<lambda>pid.
     ok \<lparr>binding_local_slot = slot, binding_prototype_id = pid\<rparr>))"

definition read_exported_callable :: "ExportedCallable Reader" where
  "read_exported_callable =
     and_then cursor_read_string (\<lambda>name. and_then cursor_read_u16 (\<lambda>slot.
     ok \<lparr>export_name = name, export_local_slot = slot\<rparr>))"

type_synonym CallableMetadata =
  "ScriptFunction list \<times> CallablePrototype list \<times> FunctionRegion list \<times>
   RootCallableBinding list \<times> ExportedCallable list"

definition read_callable_metadata :: "CallableMetadata Reader" where
  "read_callable_metadata =
     and_then (cursor_read_count ''script functions'' 8) (\<lambda>function_count.
     and_then (repeat_collect function_count read_script_function) (\<lambda>functions.
     and_then (cursor_read_count ''callable prototypes'' 29) (\<lambda>prototype_count.
     and_then (repeat_collect prototype_count read_callable_prototype) (\<lambda>prototypes.
     and_then (cursor_read_count ''function regions'' 9) (\<lambda>region_count.
     and_then (repeat_collect region_count read_function_region) (\<lambda>regions.
     and_then (cursor_read_count ''root callable bindings'' 6) (\<lambda>binding_count.
     and_then (repeat_collect binding_count read_root_callable_binding) (\<lambda>bindings.
     and_then (cursor_read_count ''exported callables'' 6) (\<lambda>export_count.
     and_then (repeat_collect export_count read_exported_callable) (\<lambda>exports.
     ok (functions, prototypes, regions, bindings, exports)))))))))))"

section \<open>The operands of \<open>CallScript\<close>\<close>

definition check_call_script :: "u8 list \<Rightarrow> CallablePrototype list \<Rightarrow> nat \<Rightarrow> WireError + unit" where
  "check_call_script bs prototypes operands_start =
     (let pid = from_le_bytes (take 4 (drop operands_start bs)); argc = bs ! (operands_start + 4)
      in case vec_get prototypes (unat pid) of
           None \<Rightarrow> Inl (InvalidCallScriptTarget pid)
         | Some prototype \<Rightarrow>
             (case target prototype of
                HostImportTarget _ \<Rightarrow> Inl (InvalidCallScriptTarget pid)
              | ScriptFunctionTarget _ \<Rightarrow>
                  if argc \<noteq> arity prototype then Inl (InvalidCallScriptArity pid (arity prototype) argc)
                  else Inr ()))"

function validate_call_script_operands_from ::
  "u8 list \<Rightarrow> CallablePrototype list \<Rightarrow> nat \<Rightarrow> WireError + unit" where
  "validate_call_script_operands_from bs prototypes ip =
     (if ip < length bs then
        (case opcode_try_from (bs ! ip) of
           None \<Rightarrow> validate_call_script_operands_from bs prototypes (ip + 1)
         | Some opcode \<Rightarrow>
             (let operands_start = ip + 1 in
              case checked_add_usize operands_start (operand_len opcode) of
                None \<Rightarrow> Inl (LengthTooLarge ''code'' (length bs))
              | Some operands_end \<Rightarrow>
                  if operands_end > length bs then Inl (TruncatedOperand (bs ! ip) (operand_len opcode))
                  else case (if opcode = OpCallScript then check_call_script bs prototypes operands_start
                             else Inr ()) of
                         Inl e \<Rightarrow> Inl e
                       | Inr _ \<Rightarrow> validate_call_script_operands_from bs prototypes operands_end))
      else Inr ())"
  by pat_completeness auto
termination
  by (relation "measure (\<lambda>(bs, _, ip). length bs - ip)")
    (auto simp: checked_add_usize_def split: if_splits)

declare validate_call_script_operands_from.simps [simp del]

definition validate_call_script_operands :: "u8 list \<Rightarrow> CallablePrototype list \<Rightarrow> WireError + unit" where
  "validate_call_script_operands bs prototypes = validate_call_script_operands_from bs prototypes 0"

section \<open>Programs\<close>

definition read_host_import :: "bool \<Rightarrow> HostImport Reader" where
  "read_host_import has_host_import_schemas =
     and_then cursor_read_string (\<lambda>name.
     and_then cursor_read_u8 (\<lambda>a.
     and_then cursor_read_u8 (\<lambda>raw.
     and_then (read_value_type raw) (\<lambda>t.
     then_do (if has_host_import_schemas
              then and_then cursor_read_u8 (\<lambda>value.
                     if value = 0 then ok ()
                     else if value = 1 then skip_host_import_schema
                     else err (InvalidBool value))
              else ok ())
     (ok \<lparr>import_name = name, import_arity = a, import_return_type = t\<rparr>)))))"

text \<open>The magic number, the version and the flags; whether imports carry schemas.\<close>

definition read_header :: "(u16 \<times> bool) Reader" where
  "read_header =
     and_then (cursor_read_exact 4) (\<lambda>magic.
     then_do (guard_err (magic \<noteq> MAGIC) (InvalidMagic magic))
     (and_then cursor_read_u16 (\<lambda>version.
     and_then (if version = VERSION_V11 then ok False
               else if version = VERSION_V12 \<or> version = VERSION_V13 then ok True
               else err (UnsupportedVersion version)) (\<lambda>has_host_import_schemas.
     and_then cursor_read_u16 (\<lambda>flags.
     then_do (guard_err (flags \<noteq> FLAGS) (UnsupportedFlags flags))
     (ok (version, has_host_import_schemas)))))))"

definition build_program ::
  "Value list \<Rightarrow> u8 list \<Rightarrow> HostImport list \<Rightarrow> nat option \<Rightarrow> CallableMetadata \<Rightarrow> Program" where
  "build_program cs bs imports encoded_local_count = (\<lambda>(functions, prototypes, regions, bindings, exports).
     let p = program_new cs bs imports;
         p = (case encoded_local_count of Some n \<Rightarrow> with_local_count n p | None \<Rightarrow> p)
     in with_callable_metadata functions prototypes regions bindings exports p)"

text \<open>The sections of the payload, in their order, and what is done with them.\<close>

definition read_sections ::
  "(Value list \<times> u8 list \<times> HostImport list \<times> nat option \<times> CallableMetadata) Reader" where
  "read_sections =
     and_then read_header (\<lambda>(version, has_host_import_schemas).
     and_then (cursor_read_count ''constants'' 1) (\<lambda>constant_count.
     and_then (repeat_collect constant_count (read_constant 0)) (\<lambda>cs.
     and_then (cursor_read_blob ''code'') (\<lambda>bs.
     then_do (guard_err (version = VERSION_V11 \<and> opcode_byte OpCallScript \<in> set bs)
        (UnsupportedVersion VERSION_V11))
     (and_then (cursor_read_count ''imports'' (if has_host_import_schemas then 7 else 6)) (\<lambda>import_count.
     and_then (repeat_collect import_count (read_host_import has_host_import_schemas)) (\<lambda>imports.
     and_then skip_type_map (\<lambda>encoded_local_count.
     then_do skip_debug_info
     (and_then read_callable_metadata (\<lambda>metadata.
     then_do (if version \<ge> VERSION_V13 then skip_named_struct_decls else ok ())
     (ok (cs, bs, imports, encoded_local_count, metadata))))))))))))"

definition read_program :: "Program Reader" where
  "read_program =
     and_then read_sections (\<lambda>(cs, bs, imports, encoded_local_count, metadata).
     and_then (self cursor_is_empty) (\<lambda>empty.
     then_do (guard_err (\<not> empty) TrailingBytes)
     (and_then (lift_result (validate_call_script_operands bs (fst (snd metadata)))) (\<lambda>_.
     ok (build_program cs bs imports encoded_local_count metadata)))))"

definition decode_program :: "u8 list \<Rightarrow> WireError + Program" where
  "decode_program bs =
     (if length bs > MAX_WIRE_PAYLOAD_BYTES then Inl (LengthTooLarge ''payload'' (length bs))
      else fst (read_program (cursor_new bs)))"

end
