(* ===== verification/Machine.thy ===== *)
theory Machine
  imports Program "HOL-Library.Signed_Division"
begin

text \<open>
  The state of the freestanding interpreter (\<open>pd-vm-nostd/src/vm.rs\<close>, \<open>error.rs\<close>, \<open>host.rs\<close>) and
  the operations on it that are not calls: construction, fuel, reads of the bytecode, jumps, the
  operand stack, arithmetic, and locals.

  A method with a mutable receiver returns the machine also when it fails, because the embedder
  still holds it and may call \<open>run\<close> again. Capture cells live in the store, a list indexed by
  their address.
\<close>

section \<open>Errors\<close>

datatype VmError =
    StackUnderflow
  | TypeMismatch string
  | DivisionByZero
  | IntegerOverflow string
  | InvalidShift i64
  | InvalidConstant u32
  | InvalidLocal u8
  | InvalidCall u16
  | InvalidCallable
  | InvalidCallablePrototype u32
  | InvalidFrameState string
  | FrameAllocationLimit nat nat
  | CallScriptRequiresEnvironment u32
  | CallStackOverflow
  | InvalidCallStackLimit nat
  | InvalidCallArity string u8 u8
  | UnboundImport string
  | HostCallsUnavailable u16
  | HostError string
  | HostBindingCapacity
  | InvalidOpcode u8
  | BytecodeBounds
  | InvalidJump u32
  | FuelOverflow
  | OutOfFuel u64 u64

section \<open>The machine\<close>

datatype VmStatus = Halted

datatype NumericValue = NumInt i64 | NumFloat f64

record ExecutionFrame =
  return_ip :: nat
  operand_stack_base :: nat
  local_base :: nat
  frame_locals :: nat
  prototype_id :: u32

record Store =
  cells :: "Value list"
  next_identity :: nat

text \<open>
  A host function mutates the host's context and may allocate cells or write through the cells of
  the callables it is given, so it also maps the store. It reports an error as a message.
\<close>

type_synonym 'c HostFunction = "'c \<times> Store \<Rightarrow> Value list \<Rightarrow> (string + Value option) \<times> 'c \<times> Store"
type_synonym 'c HostDispatcher =
  "'c \<times> Store \<Rightarrow> string \<Rightarrow> Value list \<Rightarrow> (string + Value option) \<times> 'c \<times> Store"

record 'c HostBinding =
  host_binding_name :: string
  host_binding_arity :: u8
  host_binding_function :: "'c HostFunction"

record 'c Vm =
  program :: Program
  ip :: nat
  stack :: "Value list"
  locals :: "Value list"
  capture_cells :: "nat \<rightharpoonup> cell_address"
  host_functions :: "'c HostFunction list"
  host_dispatcher :: "'c HostDispatcher option"
  host_context :: 'c
  fuel :: "u64 option"
  max_script_call_depth :: nat
  frames :: "ExecutionFrame list"
  frame_allocation_error :: "(nat \<times> nat) option"
  store :: Store

type_synonym ('c, 'a) VmMethod = "('c Vm, VmError, 'a) meth"

definition DEFAULT_MAX_SCRIPT_CALL_DEPTH :: nat where
  "DEFAULT_MAX_SCRIPT_CALL_DEPTH = 1024"

section \<open>Construction\<close>

definition find_frame_allocation_error :: "Program \<Rightarrow> (nat \<times> nat) option" where
  "find_frame_allocation_error p =
     (if local_count p > MAX_FRAME_LOCAL_COUNT then Some (local_count p, MAX_FRAME_LOCAL_COUNT)
      else map_option (\<lambda>prototype. (frame_local_count prototype, MAX_FRAME_LOCAL_COUNT))
             (find (\<lambda>prototype. frame_local_count prototype > MAX_FRAME_LOCAL_COUNT)
                (callable_prototypes p)))"

definition validate_frame_allocation_limits :: "Program \<Rightarrow> VmError + unit" where
  "validate_frame_allocation_limits p =
     (case find_frame_allocation_error p of
        Some (requested, limit) \<Rightarrow> Inl (FrameAllocationLimit requested limit)
      | None \<Rightarrow> Inr ())"

definition checked_frame_end :: "nat \<Rightarrow> nat \<Rightarrow> VmError + nat" where
  "checked_frame_end base count =
     (if count > MAX_FRAME_LOCAL_COUNT then Inl (FrameAllocationLimit count MAX_FRAME_LOCAL_COUNT)
      else case checked_add_usize base count of
             None \<Rightarrow> Inl (FrameAllocationLimit count MAX_FRAME_LOCAL_COUNT)
           | Some stop \<Rightarrow> Inr stop)"

text \<open>
  A function item has no environment. Two of them are not compared by their allocation, so they
  share the identity 0, which no closure gets.
\<close>

definition function_item :: "u32 \<Rightarrow> CallableKind \<Rightarrow> Value" where
  "function_item pid k = VCallable (CallableValue pid k None 0)"

definition initialize_root_callable :: "RootCallableBinding \<Rightarrow> 'c Vm \<Rightarrow> 'c Vm" where
  "initialize_root_callable binding vm =
     (case vec_get (callable_prototypes (program vm)) (unat (binding_prototype_id binding)) of
        None \<Rightarrow> vm
      | Some prototype \<Rightarrow>
          (let slot = unat (binding_local_slot binding)
           in if slot < length (locals vm)
              then vm\<lparr>locals := (locals vm)
                       [slot := function_item (binding_prototype_id binding) (kind prototype)]\<rparr>
              else vm))"

definition initialize_root_callables :: "'c Vm \<Rightarrow> 'c Vm" where
  "initialize_root_callables vm =
     fold initialize_root_callable (root_callable_bindings (program vm)) vm"

definition from_parts ::
  "Program \<Rightarrow> 'c \<Rightarrow> 'c HostFunction list \<Rightarrow> 'c HostDispatcher option \<Rightarrow> 'c Vm" where
  "from_parts p c functions dispatcher =
     (let error = find_frame_allocation_error p;
          count = (if error = None then local_count p else 0)
      in initialize_root_callables
           \<lparr>program = p, ip = 0, stack = [], locals = replicate count VNull,
            capture_cells = Map.empty, host_functions = functions, host_dispatcher = dispatcher,
            host_context = c, fuel = None, max_script_call_depth = DEFAULT_MAX_SCRIPT_CALL_DEPTH,
            frames = [], frame_allocation_error = error, store = \<lparr>cells = [], next_identity = 1\<rparr>\<rparr>)"

definition vm_new :: "Program \<Rightarrow> unit Vm" where
  "vm_new p = from_parts p () [] None"

definition vm_try_new :: "Program \<Rightarrow> VmError + unit Vm" where
  "vm_try_new p =
     (case validate_frame_allocation_limits p of Inl e \<Rightarrow> Inl e | Inr _ \<Rightarrow> Inr (vm_new p))"

fun resolve_host_functions ::
  "HostImport list \<Rightarrow> 'c HostBinding list \<Rightarrow> VmError + 'c HostFunction list" where
  "resolve_host_functions [] bindings = Inr []"
| "resolve_host_functions (i # is) bindings =
     (case find (\<lambda>b. host_binding_name b = import_name i) bindings of
        None \<Rightarrow> Inl (UnboundImport (import_name i))
      | Some binding \<Rightarrow>
          if host_binding_arity binding \<noteq> import_arity i
          then Inl (InvalidCallArity (import_name i) (host_binding_arity binding) (import_arity i))
          else case resolve_host_functions is bindings of
                 Inl e \<Rightarrow> Inl e
               | Inr fs \<Rightarrow> Inr (host_binding_function binding # fs))"

definition with_host_bindings ::
  "Program \<Rightarrow> 'c \<Rightarrow> 'c HostBinding list \<Rightarrow> VmError + 'c Vm" where
  "with_host_bindings p c bindings =
     (case validate_frame_allocation_limits p of
        Inl e \<Rightarrow> Inl e
      | Inr _ \<Rightarrow> (case resolve_host_functions (host_imports p) bindings of
                    Inl e \<Rightarrow> Inl e
                  | Inr fs \<Rightarrow> Inr (from_parts p c fs None)))"

definition with_host_dispatcher :: "Program \<Rightarrow> 'c \<Rightarrow> 'c HostDispatcher \<Rightarrow> 'c Vm" where
  "with_host_dispatcher p c dispatcher = from_parts p c [] (Some dispatcher)"

section \<open>Fuel and the call depth limit\<close>

definition set_fuel :: "u64 \<Rightarrow> 'c Vm \<Rightarrow> 'c Vm" where
  "set_fuel f vm = vm\<lparr>fuel := Some f\<rparr>"

definition clear_fuel :: "'c Vm \<Rightarrow> 'c Vm" where
  "clear_fuel vm = vm\<lparr>fuel := None\<rparr>"

definition add_fuel :: "u64 \<Rightarrow> ('c, unit) VmMethod" where
  "add_fuel f =
     and_then (self fuel) (\<lambda>old.
     and_then (ok_or (checked_add_u64 (case old of None \<Rightarrow> 0 | Some r \<Rightarrow> r) f) FuelOverflow) (\<lambda>new.
     update (\<lambda>vm. vm\<lparr>fuel := Some new\<rparr>)))"

definition charge_fuel :: "('c, unit) VmMethod" where
  "charge_fuel =
     and_then (self fuel) (\<lambda>f. case f of
       None \<Rightarrow> ok ()
     | Some r \<Rightarrow> if r = 0 then err (OutOfFuel 1 0) else update (\<lambda>vm. vm\<lparr>fuel := Some (r - 1)\<rparr>))"

definition set_max_script_call_depth :: "nat \<Rightarrow> ('c, unit) VmMethod" where
  "set_max_script_call_depth limit =
     (if limit = 0 then err (InvalidCallStackLimit limit)
      else update (\<lambda>vm. vm\<lparr>max_script_call_depth := limit\<rparr>))"

section \<open>The bytecode\<close>

definition read_u8 :: "('c, u8) VmMethod" where
  "read_u8 =
     and_then (self (\<lambda>vm. vec_get (code (program vm)) (ip vm))) (\<lambda>b.
     and_then (ok_or b BytecodeBounds) (\<lambda>value.
     then_do (update (\<lambda>vm. vm\<lparr>ip := ip vm + 1\<rparr>)) (ok value)))"

definition read_array :: "nat \<Rightarrow> ('c, u8 list) VmMethod" where
  "read_array n =
     and_then (self (\<lambda>vm. checked_add_usize (ip vm) n)) (\<lambda>e.
     and_then (ok_or e BytecodeBounds) (\<lambda>stop.
     and_then (self (\<lambda>vm. vec_range (code (program vm)) (ip vm) stop)) (\<lambda>bs.
     and_then (ok_or bs BytecodeBounds) (\<lambda>bytes.
     then_do (update (\<lambda>vm. vm\<lparr>ip := stop\<rparr>)) (ok bytes)))))"

definition read_u16 :: "('c, u16) VmMethod" where
  "read_u16 = and_then (read_array 2) (\<lambda>bs. ok (from_le_bytes bs))"

definition read_u32 :: "('c, u32) VmMethod" where
  "read_u32 = and_then (read_array 4) (\<lambda>bs. ok (from_le_bytes bs))"

definition region_contains :: "nat \<Rightarrow> FunctionRegion \<Rightarrow> bool" where
  "region_contains i region \<longleftrightarrow> unat (start_ip region) \<le> i \<and> i < unat (region_end_ip region)"

definition active_prototype :: "'c Vm \<Rightarrow> u32 option" where
  "active_prototype vm = (if frames vm = [] then None else Some (prototype_id (last (frames vm))))"

definition target_prototype :: "Program \<Rightarrow> nat \<Rightarrow> u32 option" where
  "target_prototype p i =
     Option.bind (find (region_contains i) (function_regions p)) region_prototype_id"

definition jump :: "u32 \<Rightarrow> ('c, unit) VmMethod" where
  "jump t =
     (let target_index = unat t in
      and_then (self (\<lambda>vm. target_index \<ge> length (code (program vm)))) (\<lambda>outside.
      then_do (guard_err outside (InvalidJump t))
      (and_then (self (\<lambda>vm. function_regions (program vm) \<noteq> [] \<and>
                   target_prototype (program vm) target_index \<noteq> active_prototype vm)) (\<lambda>foreign.
      then_do (guard_err foreign (InvalidJump t))
      (update (\<lambda>vm. vm\<lparr>ip := target_index\<rparr>))))))"

section \<open>The operand stack\<close>

definition push :: "Value \<Rightarrow> ('c, unit) VmMethod" where
  "push v = update (\<lambda>vm. vm\<lparr>stack := stack vm @ [v]\<rparr>)"

definition pop :: "('c, Value) VmMethod" where
  "pop =
     and_then (self stack) (\<lambda>st.
     if st = [] then err StackUnderflow
     else then_do (update (\<lambda>vm. vm\<lparr>stack := butlast (stack vm)\<rparr>)) (ok (last st)))"

definition pop_numeric :: "('c, NumericValue) VmMethod" where
  "pop_numeric = and_then pop (\<lambda>v. case v of
       VInt i \<Rightarrow> ok (NumInt i)
     | VFloat f \<Rightarrow> ok (NumFloat f)
     | _ \<Rightarrow> err (TypeMismatch ''number''))"

definition pop_int :: "('c, i64) VmMethod" where
  "pop_int = and_then pop (\<lambda>v. case v of
       VInt i \<Rightarrow> ok i
     | _ \<Rightarrow> err (TypeMismatch ''int''))"

definition pop_bool :: "('c, bool) VmMethod" where
  "pop_bool = and_then pop (\<lambda>v. case v of
       VBool b \<Rightarrow> ok b
     | _ \<Rightarrow> err (TypeMismatch ''bool''))"

definition pop_shift :: "('c, nat) VmMethod" where
  "pop_shift = and_then pop_int (\<lambda>value.
     if \<not> (0 \<le> sint value \<and> sint value \<le> 63) then err (InvalidShift value)
     else ok (unat value))"

section \<open>Arithmetic\<close>

definition as_float :: "NumericValue \<Rightarrow> f64" where
  "as_float v = (case v of NumInt i \<Rightarrow> f64_of_i64 i | NumFloat f \<Rightarrow> f)"

definition i64_min :: i64 where
  "i64_min = 0x8000000000000000"

definition checked_int_div :: "i64 \<Rightarrow> i64 \<Rightarrow> VmError + i64" where
  "checked_int_div lhs rhs =
     (if rhs = 0 then Inl DivisionByZero
      else if lhs = i64_min \<and> rhs = - 1 then Inl (IntegerOverflow ''division'')
      else Inr (word_of_int (sint lhs sdiv sint rhs)))"

definition checked_int_rem :: "i64 \<Rightarrow> i64 \<Rightarrow> VmError + i64" where
  "checked_int_rem lhs rhs =
     (if rhs = 0 then Inl DivisionByZero
      else if lhs = i64_min \<and> rhs = - 1 then Inl (IntegerOverflow ''remainder'')
      else Inr (word_of_int (sint lhs smod sint rhs)))"

definition numeric_binary ::
  "(i64 \<Rightarrow> i64 \<Rightarrow> VmError + i64) \<Rightarrow> (f64 \<Rightarrow> f64 \<Rightarrow> f64) \<Rightarrow> ('c, unit) VmMethod" where
  "numeric_binary int_op float_op =
     and_then pop_numeric (\<lambda>rhs. and_then pop_numeric (\<lambda>lhs. case (lhs, rhs) of
       (NumInt a, NumInt b) \<Rightarrow> and_then (lift_result (int_op a b)) (\<lambda>c. push (VInt c))
     | (lhs, rhs) \<Rightarrow> push (VFloat (float_op (as_float lhs) (as_float rhs)))))"

definition numeric_compare ::
  "(i64 \<Rightarrow> i64 \<Rightarrow> bool) \<Rightarrow> (f64 \<Rightarrow> f64 \<Rightarrow> bool) \<Rightarrow> ('c, unit) VmMethod" where
  "numeric_compare int_op float_op =
     and_then pop_numeric (\<lambda>rhs. and_then pop_numeric (\<lambda>lhs.
       push (VBool (case (lhs, rhs) of
           (NumInt a, NumInt b) \<Rightarrow> int_op a b
         | (lhs, rhs) \<Rightarrow> float_op (as_float lhs) (as_float rhs)))))"

definition neg :: "('c, unit) VmMethod" where
  "neg = and_then pop_numeric (\<lambda>v. case v of
       NumInt i \<Rightarrow> push (VInt (- i))
     | NumFloat f \<Rightarrow> push (VFloat (f64_neg f)))"

definition add_values :: "Value \<Rightarrow> Value \<Rightarrow> Value option" where
  "add_values lhs rhs = (case (lhs, rhs) of
       (VInt a, VInt b) \<Rightarrow> Some (VInt (a + b))
     | (VInt a, VFloat b) \<Rightarrow> Some (VFloat (f64_add (f64_of_i64 a) b))
     | (VFloat a, VInt b) \<Rightarrow> Some (VFloat (f64_add a (f64_of_i64 b)))
     | (VFloat a, VFloat b) \<Rightarrow> Some (VFloat (f64_add a b))
     | (VString a, VString b) \<Rightarrow> Some (VString (a @ b))
     | (VBytes a, VBytes b) \<Rightarrow> Some (VBytes (a @ b))
     | (VArray a, VArray b) \<Rightarrow> Some (VArray (a @ b))
     | _ \<Rightarrow> None)"

definition add :: "('c, unit) VmMethod" where
  "add = and_then pop (\<lambda>rhs. and_then pop (\<lambda>lhs.
     and_then (ok_or (add_values lhs rhs)
       (TypeMismatch ''number, string/string, bytes/bytes, or array/array'')) push))"

section \<open>Locals\<close>

definition active_local_base :: "'c Vm \<Rightarrow> nat" where
  "active_local_base vm = (if frames vm = [] then 0 else local_base (last (frames vm)))"

definition absolute_local :: "u8 \<Rightarrow> ('c, nat) VmMethod" where
  "absolute_local index =
     and_then (self (\<lambda>vm. checked_add_usize (active_local_base vm) (unat index))) (\<lambda>a.
     and_then (ok_or a (InvalidLocal index)) (\<lambda>absolute.
     and_then (self (\<lambda>vm. absolute < length (locals vm))) (\<lambda>inside.
     if inside then ok absolute else err (InvalidLocal index))))"

definition cell_value :: "'c Vm \<Rightarrow> cell_address \<Rightarrow> Value" where
  "cell_value vm a = cells (store vm) ! a"

definition set_cell :: "cell_address \<Rightarrow> Value \<Rightarrow> 'c Vm \<Rightarrow> 'c Vm" where
  "set_cell a v vm = vm\<lparr>store := (store vm)\<lparr>cells := (cells (store vm))[a := v]\<rparr>\<rparr>"

definition set_local_slot :: "nat \<Rightarrow> Value \<Rightarrow> 'c Vm \<Rightarrow> 'c Vm" where
  "set_local_slot i v vm = vm\<lparr>locals := (locals vm)[i := v]\<rparr>"

definition load_local :: "u8 \<Rightarrow> ('c, unit) VmMethod" where
  "load_local index =
     and_then (absolute_local index) (\<lambda>absolute.
     and_then (self (\<lambda>vm. case capture_cells vm absolute of
         None \<Rightarrow> locals vm ! absolute
       | Some cell \<Rightarrow> cell_value vm cell)) push)"

definition store_local :: "u8 \<Rightarrow> Value \<Rightarrow> ('c, unit) VmMethod" where
  "store_local index value =
     and_then (absolute_local index) (\<lambda>absolute.
     then_do (update (\<lambda>vm. case capture_cells vm absolute of
         None \<Rightarrow> vm
       | Some cell \<Rightarrow> set_cell cell value vm))
     (update (set_local_slot absolute value)))"

definition set_local :: "u8 \<Rightarrow> Value \<Rightarrow> ('c, unit) VmMethod" where
  "set_local index value = store_local index value"

definition resolve_exported_callable :: "string \<Rightarrow> 'c Vm \<Rightarrow> Value option" where
  "resolve_exported_callable name vm =
     (case find (\<lambda>e. export_name e = name) (exported_callables (program vm)) of
        None \<Rightarrow> None
      | Some exported \<Rightarrow>
          (case vec_get (locals vm) (unat (export_local_slot exported)) of
             Some (VCallable c) \<Rightarrow> Some (VCallable c)
           | _ \<Rightarrow> None))"

section \<open>Symbolic execution of the machine's operations\<close>

lemma set_local_slot_simps [simp]:
  "store (set_local_slot a w vm) = store vm" "stack (set_local_slot a w vm) = stack vm"
  "capture_cells (set_local_slot a w vm) = capture_cells vm"
  "frames (set_local_slot a w vm) = frames vm" "program (set_local_slot a w vm) = program vm"
  "ip (set_local_slot a w vm) = ip vm" "locals (set_local_slot a w vm) = (locals vm)[a := w]"
  "max_script_call_depth (set_local_slot a w vm) = max_script_call_depth vm"
  by (simp_all add: set_local_slot_def)

lemma set_cell_simps [simp]:
  "stack (set_cell a w vm) = stack vm" "locals (set_cell a w vm) = locals vm"
  "capture_cells (set_cell a w vm) = capture_cells vm"
  "frames (set_cell a w vm) = frames vm" "program (set_cell a w vm) = program vm"
  "ip (set_cell a w vm) = ip vm" "cells (store (set_cell a w vm)) = (cells (store vm))[a := w]"
  "max_script_call_depth (set_cell a w vm) = max_script_call_depth vm"
  by (simp_all add: set_cell_def)

lemma wp_push [wp_simps]: "wp (push v) Q E vm = Q () (vm\<lparr>stack := stack vm @ [v]\<rparr>)"
  by (simp add: push_def wp_simps)

lemma wp_pop [wp_simps]: "wp pop Q E vm =
   (if stack vm = [] then E StackUnderflow vm else Q (last (stack vm)) (vm\<lparr>stack := butlast (stack vm)\<rparr>))"
  by (simp add: pop_def wp_simps)

lemma wp_absolute_local [wp_simps]:
  "wp (absolute_local i) Q E vm \<longleftrightarrow>
     (let a = active_local_base vm + unat i in
      if a \<le> usize_max \<and> a < length (locals vm) then Q a vm else E (InvalidLocal i) vm)"
  by (auto simp: absolute_local_def wp_simps checked_add_usize_def Let_def)

end
