(* ===== verification/Captures.thy ===== *)
theory Captures
  imports Machine
begin

text \<open>
  Capture cells of the freestanding interpreter (\<open>pd-vm-nostd/src/vm.rs\<close>): the search for a cell
  behind a value that guards every write through a captured local, and the construction of a
  closure from the captured values.
\<close>

section \<open>The search for a cell behind a value\<close>

text \<open>
  \<open>value_references_capture_cell\<close> with the cells it has visited passed along, as the code does
  through its mutable argument. An address outside the store does not exist in the code, where a
  cell is held by a counted reference.
\<close>

function (sequential)
      references_value :: "Value list \<Rightarrow> cell_address \<Rightarrow> Value \<Rightarrow> cell_address list \<Rightarrow> bool \<times> cell_address list"
  and references_env :: "Value list \<Rightarrow> cell_address \<Rightarrow> cell_address list \<Rightarrow> cell_address list \<Rightarrow> bool \<times> cell_address list"
  and references_values :: "Value list \<Rightarrow> cell_address \<Rightarrow> Value list \<Rightarrow> cell_address list \<Rightarrow> bool \<times> cell_address list"
  and references_entries :: "Value list \<Rightarrow> cell_address \<Rightarrow> (Value \<times> Value) list \<Rightarrow> cell_address list \<Rightarrow> bool \<times> cell_address list"
where
  "references_value heap t (VCallable callable) visited =
     (case callable_env callable of
        None \<Rightarrow> (False, visited)
      | Some environment \<Rightarrow> references_env heap t environment visited)"
| "references_value heap t (VArray values) visited = references_values heap t values visited"
| "references_value heap t (VMap values) visited = references_entries heap t values visited"
| "references_value heap t _ visited = (False, visited)"
| "references_env heap t [] visited = (False, visited)"
| "references_env heap t (cell # rest) visited =
     (if cell = t then (True, visited)
      else if cell \<in> set visited \<or> \<not> cell < length heap then references_env heap t rest visited
      else case references_value heap t (heap ! cell) (visited @ [cell]) of
             (found, visited) \<Rightarrow>
               if found then (True, visited) else references_env heap t rest visited)"
| "references_values heap t [] visited = (False, visited)"
| "references_values heap t (v # rest) visited =
     (case references_value heap t v visited of
        (found, visited) \<Rightarrow> if found then (True, visited) else references_values heap t rest visited)"
| "references_entries heap t [] visited = (False, visited)"
| "references_entries heap t ((k, v) # rest) visited =
     (case references_value heap t k visited of
        (found, visited) \<Rightarrow>
          if found then (True, visited)
          else case references_value heap t v visited of
                 (found, visited) \<Rightarrow>
                   if found then (True, visited) else references_entries heap t rest visited)"
  by pat_completeness auto

text \<open>
  Every call visits more of the store or a smaller part of a value. That the visited cells only
  grow is shown first, on the domain of the function.
\<close>

lemma references_visited_mono:
  "references_value_references_env_references_values_references_entries_dom (Inl (Inl (heap, t, v, vis))) \<Longrightarrow>
     set vis \<subseteq> set (snd (references_value heap t v vis))"
  "references_value_references_env_references_values_references_entries_dom (Inl (Inr (heap, t, env, vis))) \<Longrightarrow>
     set vis \<subseteq> set (snd (references_env heap t env vis))"
  "references_value_references_env_references_values_references_entries_dom (Inr (Inl (heap, t, vs, vis))) \<Longrightarrow>
     set vis \<subseteq> set (snd (references_values heap t vs vis))"
  "references_value_references_env_references_values_references_entries_dom (Inr (Inr (heap, t, es, vis))) \<Longrightarrow>
     set vis \<subseteq> set (snd (references_entries heap t es vis))"
proof (induction heap t v vis and heap t env vis and heap t vs vis and heap t es vis
    rule: references_value_references_env_references_values_references_entries.pinduct)
qed (auto simp: references_value.psimps references_env.psimps references_values.psimps
  references_entries.psimps split: prod.splits option.splits if_splits, blast+)

definition unvisited :: "Value list \<Rightarrow> cell_address list \<Rightarrow> nat" where
  "unvisited heap visited = card ({..<length heap} - set visited)"

lemma unvisited_mono: "set vis \<subseteq> set vis' \<Longrightarrow> unvisited heap vis' \<le> unvisited heap vis"
  by (auto simp: unvisited_def intro!: card_mono)

lemma unvisited_less:
  "c < length heap \<Longrightarrow> c \<notin> set vis \<Longrightarrow> unvisited heap (vis @ [c]) < unvisited heap vis"
  unfolding unvisited_def by (rule psubset_card_mono) auto

lemma references_value_unvisited:
  assumes "(found, vis') = references_value heap t v vis"
    and "references_value_references_env_references_values_references_entries_dom (Inl (Inl (heap, t, v, vis)))"
  shows "unvisited heap vis' \<le> unvisited heap vis"
  using references_visited_mono(1) [OF assms(2)] assms(1) by (metis snd_conv unvisited_mono)

termination references_value
proof (relation "measures
    [\<lambda>a. case a of Inl (Inl (heap, _, _, vis)) \<Rightarrow> unvisited heap vis
      | Inl (Inr (heap, _, _, vis)) \<Rightarrow> unvisited heap vis
      | Inr (Inl (heap, _, _, vis)) \<Rightarrow> unvisited heap vis
      | Inr (Inr (heap, _, _, vis)) \<Rightarrow> unvisited heap vis,
     \<lambda>a. case a of Inl (Inr _) \<Rightarrow> 0 | _ \<Rightarrow> 1,
     \<lambda>a. case a of Inl (Inl (_, _, v, _)) \<Rightarrow> size v
      | Inl (Inr (_, _, env, _)) \<Rightarrow> length env
      | Inr (Inl (_, _, vs, _)) \<Rightarrow> size_list size vs
      | Inr (Inr (_, _, es, _)) \<Rightarrow> size_list (size_prod size size) es]", goal_cases)
qed (fastforce simp: unvisited_less
  dest: references_value_unvisited le_less_trans [OF references_value_unvisited unvisited_less])+

definition value_references_capture_cell :: "Value list \<Rightarrow> Value \<Rightarrow> cell_address \<Rightarrow> bool" where
  "value_references_capture_cell heap v t = fst (references_value heap t v [])"

section \<open>Storing into a local\<close>

text \<open>\<open>OpCode::Stloc\<close> after its operand is read.\<close>

definition stloc :: "u8 \<Rightarrow> ('c, unit) VmMethod" where
  "stloc index =
     and_then (absolute_local index) (\<lambda>absolute.
     and_then pop (\<lambda>value.
     and_then (self (\<lambda>vm. capture_cells vm absolute)) (\<lambda>captured.
     then_do (case captured of
         None \<Rightarrow> ok ()
       | Some cell \<Rightarrow>
           and_then (self (\<lambda>vm. value_references_capture_cell (cells (store vm)) value cell)) (\<lambda>cyclic.
           if cyclic then err (HostError ''callable capture ownership cycle is unsupported'')
           else update (set_cell cell value)))
     (update (set_local_slot absolute value)))))"

section \<open>Closures\<close>

definition alloc_cell :: "Value \<Rightarrow> ('c, cell_address) VmMethod" where
  "alloc_cell v =
     and_then (self (\<lambda>vm. length (cells (store vm)))) (\<lambda>a.
     then_do (update (\<lambda>vm. vm\<lparr>store := (store vm)\<lparr>cells := cells (store vm) @ [v]\<rparr>\<rparr>)) (ok a))"

definition fresh_identity :: "('c, nat) VmMethod" where
  "fresh_identity =
     and_then (self (\<lambda>vm. next_identity (store vm))) (\<lambda>n.
     then_do (update (\<lambda>vm. vm\<lparr>store := (store vm)\<lparr>next_identity := n + 1\<rparr>\<rparr>)) (ok n))"

text \<open>\<open>capture_cells.entry(absolute).or_insert_with\<close>.\<close>

definition capture_cell_or_insert :: "nat \<Rightarrow> Value \<Rightarrow> ('c, cell_address) VmMethod" where
  "capture_cell_or_insert absolute value =
     and_then (self (\<lambda>vm. capture_cells vm absolute)) (\<lambda>c. case c of
       Some cell \<Rightarrow> ok cell
     | None \<Rightarrow> and_then (alloc_cell value) (\<lambda>cell.
         then_do (update (\<lambda>vm. vm\<lparr>capture_cells := (capture_cells vm)(absolute \<mapsto> cell)\<rparr>)) (ok cell)))"

definition bind_capture ::
  "u32 \<Rightarrow> u16 option \<Rightarrow> nat \<Rightarrow> Value \<Rightarrow> u16 \<Rightarrow> u16 \<Rightarrow> CaptureBindingMode \<Rightarrow> ('c, cell_address) VmMethod" where
  "bind_capture pid own_slot active_base value source capture mode =
     (if own_slot \<noteq> Some capture \<and> (mode = BorrowMode \<or> mode = BorrowMutMode)
      then and_then (ok_or (checked_add_usize active_base (unat source)) (InvalidCallablePrototype pid)) (\<lambda>absolute.
           and_then (self (\<lambda>vm. absolute \<ge> length (locals vm))) (\<lambda>outside.
           then_do (guard_err outside (InvalidCallablePrototype pid))
           (and_then (capture_cell_or_insert absolute value) (\<lambda>cell.
           then_do (update (\<lambda>vm. set_local_slot absolute (cell_value vm cell) vm)) (ok cell)))))
      else alloc_cell value)"

fun bind_captures ::
  "u32 \<Rightarrow> u16 option \<Rightarrow> nat \<Rightarrow> (((Value \<times> u16) \<times> u16) \<times> CaptureBindingMode) list \<Rightarrow>
   ('c, cell_address list) VmMethod" where
  "bind_captures pid own_slot active_base [] = ok []"
| "bind_captures pid own_slot active_base ((((value, source), capture), mode) # rest) =
     and_then (bind_capture pid own_slot active_base value source capture mode) (\<lambda>cell.
     and_then (bind_captures pid own_slot active_base rest) (\<lambda>env. ok (cell # env)))"

definition bind_callable_value :: "u32 \<Rightarrow> Value list \<Rightarrow> ('c, Value) VmMethod" where
  "bind_callable_value pid captures =
     and_then (self (\<lambda>vm. vec_get (callable_prototypes (program vm)) (unat pid))) (\<lambda>p.
     and_then (ok_or p (InvalidCallablePrototype pid)) (\<lambda>prototype.
     then_do (guard_err (length captures \<noteq> length (capture_slots prototype)
                \<or> length captures \<noteq> length (capture_source_slots prototype)
                \<or> length captures \<noteq> length (capture_modes prototype)) (InvalidCallablePrototype pid))
     (and_then (self active_local_base) (\<lambda>active_base.
     and_then (bind_captures pid (self_slot prototype) active_base
         (zip (zip (zip captures (capture_source_slots prototype)) (capture_slots prototype))
            (capture_modes prototype))) (\<lambda>env.
     and_then fresh_identity (\<lambda>n.
     ok (VCallable (CallableValue pid (kind prototype) (Some env) n))))))))"

end
