(* ===== verification/Calls.thy ===== *)
theory Calls
  imports Captures
begin

text \<open>
  Calls of the freestanding interpreter (\<open>pd-vm-nostd/src/vm.rs\<close>): core builtins and host imports,
  dynamic and static script calls, and the return from a script frame.
\<close>

section \<open>Builtins and host functions\<close>

text \<open>The builtin indices the runtime serves itself (\<open>generated_builtin_ids.rs\<close>).\<close>

definition DETACH_LOCAL_CALL_INDEX :: u16 where "DETACH_LOCAL_CALL_INDEX = 0xFF93"
definition BIND_CALLABLE_CALL_INDEX :: u16 where "BIND_CALLABLE_CALL_INDEX = 0xFF94"
definition CONCAT_CALL_INDEX :: u16 where "CONCAT_CALL_INDEX = 0xFFA4"
definition ARRAY_NEW_CALL_INDEX :: u16 where "ARRAY_NEW_CALL_INDEX = 0xFFA5"
definition ARRAY_PUSH_CALL_INDEX :: u16 where "ARRAY_PUSH_CALL_INDEX = 0xFFA6"
definition MAP_NEW_CALL_INDEX :: u16 where "MAP_NEW_CALL_INDEX = 0xFFA7"
definition SET_CALL_INDEX :: u16 where "SET_CALL_INDEX = 0xFFAA"

lemmas call_index_defs = DETACH_LOCAL_CALL_INDEX_def BIND_CALLABLE_CALL_INDEX_def
  CONCAT_CALL_INDEX_def ARRAY_NEW_CALL_INDEX_def ARRAY_PUSH_CALL_INDEX_def MAP_NEW_CALL_INDEX_def
  SET_CALL_INDEX_def

definition require_builtin_arity :: "string \<Rightarrow> u8 \<Rightarrow> u8 \<Rightarrow> ('c, unit) VmMethod" where
  "require_builtin_arity name got expected =
     (if got = expected then ok () else err (InvalidCallArity name expected got))"

definition stack_start :: "nat \<Rightarrow> ('c, nat) VmMethod" where
  "stack_start n =
     and_then (self (\<lambda>vm. checked_sub_usize (length (stack vm)) n)) (\<lambda>start. ok_or start StackUnderflow)"

text \<open>\<open>stack.truncate(start); stack.push(result)\<close>.\<close>

definition finish_builtin :: "nat \<Rightarrow> Value \<Rightarrow> ('c, unit) VmMethod" where
  "finish_builtin start result = update (\<lambda>vm. vm\<lparr>stack := take start (stack vm) @ [result]\<rparr>)"

definition concat_values :: "Value \<Rightarrow> Value \<Rightarrow> Value option" where
  "concat_values lhs rhs = (case (lhs, rhs) of
       (VString a, VString b) \<Rightarrow> Some (VString (a @ b))
     | (VBytes a, VBytes b) \<Rightarrow> Some (VBytes (a @ b))
     | (VArray a, VArray b) \<Rightarrow> Some (VArray (a @ b))
     | _ \<Rightarrow> None)"

definition builtin_concat :: "u8 \<Rightarrow> ('c, unit) VmMethod" where
  "builtin_concat argc =
     then_do (require_builtin_arity ''concat'' argc 2)
     (and_then (stack_start 2) (\<lambda>start.
      and_then (self (\<lambda>vm. concat_values (stack vm ! start) (stack vm ! (start + 1)))) (\<lambda>r.
      and_then (ok_or r (TypeMismatch ''concat operands'')) (\<lambda>result.
      finish_builtin start result))))"

definition builtin_array_new :: "u8 \<Rightarrow> ('c, unit) VmMethod" where
  "builtin_array_new argc =
     then_do (require_builtin_arity ''array_new'' argc 0) (push (VArray []))"

definition builtin_array_push :: "u8 \<Rightarrow> ('c, unit) VmMethod" where
  "builtin_array_push argc =
     then_do (require_builtin_arity ''array_push'' argc 2)
     (and_then (stack_start 2) (\<lambda>start.
      and_then (self (\<lambda>vm. (stack vm ! start, stack vm ! (start + 1)))) (\<lambda>(target, value).
      case target of
        VArray values \<Rightarrow> finish_builtin start (VArray (values @ [value]))
      | _ \<Rightarrow> err (TypeMismatch ''array''))))"

definition builtin_map_new :: "u8 \<Rightarrow> ('c, unit) VmMethod" where
  "builtin_map_new argc =
     then_do (require_builtin_arity ''map_new'' argc 0) (push (VMap []))"

text \<open>The update of the entries: the first entry with an equal key, or a new one at the end.\<close>

fun map_set :: "(Value \<times> Value) list \<Rightarrow> Value \<Rightarrow> Value \<Rightarrow> (Value \<times> Value) list" where
  "map_set [] key value = [(key, value)]"
| "map_set ((current, old) # rest) key value =
     (if value_eq current key then (current, value) # rest
      else (current, old) # map_set rest key value)"

definition builtin_set :: "u8 \<Rightarrow> ('c, unit) VmMethod" where
  "builtin_set argc =
     then_do (require_builtin_arity ''set'' argc 3)
     (and_then (stack_start 3) (\<lambda>start.
      and_then (self (\<lambda>vm. (stack vm ! start, stack vm ! (start + 1), stack vm ! (start + 2))))
        (\<lambda>(target, key, value).
      case target of
        VMap entries \<Rightarrow> finish_builtin start (VMap (map_set entries key value))
      | _ \<Rightarrow> err (TypeMismatch ''map''))))"

text \<open>\<open>u8::try_from\<close> and \<open>u32::try_from\<close> of an \<open>i64\<close>.\<close>

definition u8_try_from_i64 :: "i64 \<Rightarrow> u8 option" where
  "u8_try_from_i64 v = (if 0 \<le> sint v \<and> sint v < 256 then Some (ucast v) else None)"

definition u32_try_from_i64 :: "i64 \<Rightarrow> u32 option" where
  "u32_try_from_i64 v = (if 0 \<le> sint v \<and> sint v < 2 ^ 32 then Some (ucast v) else None)"

definition builtin_detach_local :: "u8 \<Rightarrow> ('c, unit) VmMethod" where
  "builtin_detach_local argc =
     then_do (require_builtin_arity ''__detach_local'' argc 1)
     (and_then (stack_start 1) (\<lambda>start.
      and_then (self (\<lambda>vm. stack vm ! start)) (\<lambda>v. case v of
        VInt value \<Rightarrow>
          and_then (ok_or (u8_try_from_i64 value) (TypeMismatch ''local slot'')) (\<lambda>slot.
          and_then (absolute_local slot) (\<lambda>absolute.
          then_do (update (\<lambda>vm. vm\<lparr>capture_cells := (capture_cells vm)(absolute := None)\<rparr>))
          (then_do (update (set_local_slot absolute VNull))
          (update (\<lambda>vm. vm\<lparr>stack := take start (stack vm)\<rparr>)))))
      | _ \<Rightarrow> err (TypeMismatch ''local slot''))))"

definition builtin_bind_callable :: "u8 \<Rightarrow> ('c, unit) VmMethod" where
  "builtin_bind_callable argc =
     then_do (require_builtin_arity ''__bind_callable'' argc 2)
     (and_then (stack_start 2) (\<lambda>start.
      and_then (self (\<lambda>vm. (stack vm ! start, stack vm ! (start + 1)))) (\<lambda>(first, second).
      case first of
        VInt value \<Rightarrow>
          and_then (ok_or (u32_try_from_i64 value) (InvalidCallablePrototype (- 1))) (\<lambda>pid.
          case second of
            VArray captures \<Rightarrow>
              and_then (bind_callable_value pid captures) (\<lambda>callable. finish_builtin start callable)
          | _ \<Rightarrow> err (TypeMismatch ''callable captures''))
      | _ \<Rightarrow> err (TypeMismatch ''callable prototype id''))))"

definition call_core_builtin :: "u16 \<Rightarrow> u8 \<Rightarrow> ('c, unit) VmMethod option" where
  "call_core_builtin index argc =
     (if index = CONCAT_CALL_INDEX then Some (builtin_concat argc)
      else if index = ARRAY_NEW_CALL_INDEX then Some (builtin_array_new argc)
      else if index = ARRAY_PUSH_CALL_INDEX then Some (builtin_array_push argc)
      else if index = MAP_NEW_CALL_INDEX then Some (builtin_map_new argc)
      else if index = SET_CALL_INDEX then Some (builtin_set argc)
      else if index = DETACH_LOCAL_CALL_INDEX then Some (builtin_detach_local argc)
      else if index = BIND_CALLABLE_CALL_INDEX then Some (builtin_bind_callable argc)
      else None)"

text \<open>The host function bound to the import, or else the dispatcher applied to the import's name.\<close>

definition resolve_host_call :: "'c Vm \<Rightarrow> u16 \<Rightarrow> string \<Rightarrow> 'c HostFunction option" where
  "resolve_host_call vm index name =
     (case vec_get (host_functions vm) (unat index) of
        Some function \<Rightarrow> Some function
      | None \<Rightarrow> map_option (\<lambda>dispatcher ctx. dispatcher ctx name) (host_dispatcher vm))"

definition invoke_host :: "'c HostFunction \<Rightarrow> Value list \<Rightarrow> ('c, Value option) VmMethod" where
  "invoke_host function arguments = (\<lambda>vm.
     case function (host_context vm, store vm) arguments of
       (result, ctx, st) \<Rightarrow>
         (case result of Inl message \<Rightarrow> Inl (HostError message) | Inr value \<Rightarrow> Inr value,
          vm\<lparr>host_context := ctx, store := st\<rparr>))"

definition call_host :: "u16 \<Rightarrow> u8 \<Rightarrow> ('c, unit) VmMethod" where
  "call_host index argc =
     (case call_core_builtin index argc of
        Some result \<Rightarrow> result
      | None \<Rightarrow>
          and_then (self (\<lambda>vm. vec_get (host_imports (program vm)) (unat index))) (\<lambda>i.
          and_then (ok_or i (InvalidCall index)) (\<lambda>import.
          then_do (guard_err (import_arity import \<noteq> argc)
             (InvalidCallArity (import_name import) (import_arity import) argc))
          (and_then (stack_start (unat argc)) (\<lambda>argument_start.
           and_then (self (\<lambda>vm. drop argument_start (stack vm))) (\<lambda>arguments.
           and_then (self (\<lambda>vm. resolve_host_call vm index (import_name import))) (\<lambda>f.
           and_then (ok_or f (HostCallsUnavailable index)) (\<lambda>function.
           and_then (invoke_host function arguments) (\<lambda>result.
           then_do (update (\<lambda>vm. vm\<lparr>stack := take argument_start (stack vm)\<rparr>))
           (case result of None \<Rightarrow> ok () | Some value \<Rightarrow> push value)))))))))) "

section \<open>Script frames\<close>

text \<open>
  The steps that \<open>call_value\<close> and \<open>call_script\<close> have in common: the callables a frame inherits
  from its caller, the bindings of the root callables, the parameters, and the captures.
\<close>

definition active_local_count :: "'c Vm \<Rightarrow> nat" where
  "active_local_count vm =
     (if frames vm = [] then length (locals vm) else frame_locals (last (frames vm)))"

definition is_callable :: "Value \<Rightarrow> bool" where
  "is_callable v = (case v of VCallable _ \<Rightarrow> True | _ \<Rightarrow> False)"

definition inherited_callables :: "('c, (nat \<times> Value) list) VmMethod" where
  "inherited_callables =
     and_then (self (\<lambda>vm. (active_local_base vm, active_local_count vm))) (\<lambda>(base, count).
     and_then (lift_result (checked_frame_end base count)) (\<lambda>stop.
     and_then (self (\<lambda>vm. vec_range (locals vm) base stop)) (\<lambda>r.
     and_then (ok_or r (InvalidFrameState ''active local frame range is invalid'')) (\<lambda>range.
     ok (filter (\<lambda>(slot, value). is_callable value) (enumerate 0 range))))))"

definition bind_root_callable :: "nat \<Rightarrow> nat \<Rightarrow> RootCallableBinding \<Rightarrow> ('c, unit) VmMethod" where
  "bind_root_callable base count binding =
     and_then (self (\<lambda>vm. vec_get (callable_prototypes (program vm)) (unat (binding_prototype_id binding)))) (\<lambda>p.
     and_then (ok_or p (InvalidCallablePrototype (binding_prototype_id binding))) (\<lambda>binding_prototype.
     let slot = unat (binding_local_slot binding) in
     then_do (guard_err (slot \<ge> count)
       (InvalidFrameState ''root callable binding is outside the script frame''))
     (update (set_local_slot (base + slot)
        (function_item (binding_prototype_id binding) (kind binding_prototype))))))"

definition place_inherited :: "nat \<Rightarrow> nat \<Rightarrow> nat \<times> Value \<Rightarrow> ('c, unit) VmMethod" where
  "place_inherited base count = (\<lambda>(slot, value).
     if slot < count then update (set_local_slot (base + slot) value) else ok ())"

definition bind_parameter :: "u32 \<Rightarrow> nat \<Rightarrow> nat \<Rightarrow> u16 \<times> Value \<Rightarrow> ('c, unit) VmMethod" where
  "bind_parameter pid base count = (\<lambda>(slot, argument).
     then_do (guard_err (unat slot \<ge> count) (InvalidCallablePrototype pid))
     (update (set_local_slot (base + unat slot) argument)))"

definition bind_environment_cell ::
  "u32 \<Rightarrow> u16 option \<Rightarrow> nat \<Rightarrow> nat \<Rightarrow> u16 \<times> cell_address \<Rightarrow> ('c, unit) VmMethod" where
  "bind_environment_cell pid own_slot base count = (\<lambda>(slot, cell).
     then_do (guard_err (unat slot \<ge> count) (InvalidCallablePrototype pid))
     (let absolute = base + unat slot in
      then_do (update (\<lambda>vm. set_local_slot absolute (cell_value vm cell) vm))
      (if own_slot \<noteq> Some slot
       then update (\<lambda>vm. vm\<lparr>capture_cells := (capture_cells vm)(absolute \<mapsto> cell)\<rparr>)
       else ok ())))"

definition enter_frame_locals :: "nat \<Rightarrow> (nat \<times> Value) list \<Rightarrow> ('c, nat) VmMethod" where
  "enter_frame_locals count inherited =
     and_then (self (\<lambda>vm. length (locals vm))) (\<lambda>base.
     and_then (lift_result (checked_frame_end base count)) (\<lambda>stop.
     then_do (update (\<lambda>vm. vm\<lparr>locals := vec_resize (locals vm) stop VNull\<rparr>))
     (and_then (self (\<lambda>vm. root_callable_bindings (program vm))) (\<lambda>bindings.
      then_do (for_each bindings (bind_root_callable base count))
      (then_do (for_each inherited (place_inherited base count)) (ok base))))))"

definition push_frame :: "u32 \<Rightarrow> nat \<Rightarrow> nat \<Rightarrow> nat \<Rightarrow> ScriptFunction \<Rightarrow> ('c, unit) VmMethod" where
  "push_frame pid stack_base base count function =
     then_do (update (\<lambda>vm. vm\<lparr>frames := frames vm @
        [\<lparr>return_ip = ip vm, operand_stack_base = stack_base, local_base = base,
          frame_locals = count, prototype_id = pid\<rparr>]\<rparr>))
     (update (\<lambda>vm. vm\<lparr>ip := unat (entry_ip function)\<rparr>))"

definition split_off_stack :: "nat \<Rightarrow> ('c, Value list) VmMethod" where
  "split_off_stack base =
     and_then (self (\<lambda>vm. drop base (stack vm))) (\<lambda>operands.
     then_do (update (\<lambda>vm. vm\<lparr>stack := take base (stack vm)\<rparr>)) (ok operands))"

definition call_script_function ::
  "CallableValue \<Rightarrow> CallablePrototype \<Rightarrow> nat \<Rightarrow> Value list \<Rightarrow> u32 \<Rightarrow> ('c, unit) VmMethod" where
  "call_script_function callable prototype stack_base operands function_id =
     (let pid = callable_prototype_id callable; count = frame_local_count prototype in
      and_then (self (\<lambda>vm. vec_get (script_functions (program vm)) (unat function_id))) (\<lambda>f.
      and_then (ok_or f (InvalidCallablePrototype pid)) (\<lambda>function.
      and_then inherited_callables (\<lambda>inherited.
      and_then (enter_frame_locals count inherited) (\<lambda>base.
      then_do (for_each (zip (parameter_slots prototype) operands) (bind_parameter pid base count))
      (then_do (case callable_env callable of
           None \<Rightarrow> ok ()
         | Some env \<Rightarrow> for_each (zip (capture_slots prototype) env)
                         (bind_environment_cell pid (self_slot prototype) base count))
      (then_do (case self_slot prototype of
           None \<Rightarrow> ok ()
         | Some slot \<Rightarrow>
             then_do (guard_err (unat slot \<ge> count) (InvalidCallablePrototype pid))
             (update (set_local_slot (base + unat slot) (VCallable callable))))
      (push_frame pid stack_base base count function))))))))"

text \<open>The call of what was popped: the callable first, then its operands.\<close>

definition call_popped :: "u8 \<Rightarrow> nat \<Rightarrow> Value list \<Rightarrow> ('c, unit) VmMethod" where
  "call_popped argc stack_base popped = (case popped of
       VCallable callable # operands \<Rightarrow>
         (let pid = callable_prototype_id callable in
          and_then (self (\<lambda>vm. vec_get (callable_prototypes (program vm)) (unat pid))) (\<lambda>p.
          and_then (ok_or p (InvalidCallablePrototype pid)) (\<lambda>prototype.
          then_do (guard_err (frame_local_count prototype > MAX_FRAME_LOCAL_COUNT)
             (FrameAllocationLimit (frame_local_count prototype) MAX_FRAME_LOCAL_COUNT))
          (then_do (guard_err (arity prototype \<noteq> argc \<or>
               length (parameter_slots prototype) \<noteq> length operands)
             (InvalidCallArity ''script callable'' (arity prototype) argc))
          (case target prototype of
             HostImportTarget index \<Rightarrow>
               then_do (update (\<lambda>vm. vm\<lparr>stack := stack vm @ operands\<rparr>)) (call_host index argc)
           | ScriptFunctionTarget function_id \<Rightarrow>
               call_script_function callable prototype stack_base operands function_id)))))
     | _ \<Rightarrow> err InvalidCallable)"

definition call_value :: "u8 \<Rightarrow> ('c, unit) VmMethod" where
  "call_value argc =
     and_then (self (\<lambda>vm. length (frames vm) \<ge> max_script_call_depth vm)) (\<lambda>too_deep.
     then_do (guard_err too_deep CallStackOverflow)
     (let operand_count = unat argc + 1 in
      and_then (self (\<lambda>vm. length (stack vm))) (\<lambda>len.
      then_do (guard_err (len < operand_count) StackUnderflow)
      (let stack_base = len - operand_count in
       and_then (split_off_stack stack_base) (call_popped argc stack_base)))))"

definition call_script :: "u32 \<Rightarrow> u8 \<Rightarrow> ('c, unit) VmMethod" where
  "call_script pid argc =
     (let operand_count = unat argc in
      and_then (self (\<lambda>vm. length (stack vm))) (\<lambda>len.
      then_do (guard_err (len < operand_count) StackUnderflow)
      (and_then (self (\<lambda>vm. vec_get (callable_prototypes (program vm)) (unat pid))) (\<lambda>p.
       and_then (ok_or p (InvalidCallablePrototype pid)) (\<lambda>prototype.
       then_do (guard_err (frame_local_count prototype > MAX_FRAME_LOCAL_COUNT)
          (FrameAllocationLimit (frame_local_count prototype) MAX_FRAME_LOCAL_COUNT))
       (then_do (guard_err (capture_slots prototype \<noteq> [] \<or> self_slot prototype \<noteq> None)
          (CallScriptRequiresEnvironment pid))
       (let stack_base = len - operand_count in
        and_then (split_off_stack stack_base) (\<lambda>operands.
        then_do (guard_err (arity prototype \<noteq> argc \<or>
             length (parameter_slots prototype) \<noteq> length operands)
           (InvalidCallArity ''script call'' (arity prototype) argc))
        (case target prototype of
           HostImportTarget _ \<Rightarrow> err (InvalidCallablePrototype pid)
         | ScriptFunctionTarget function_id \<Rightarrow>
             and_then (self (\<lambda>vm. length (frames vm) \<ge> max_script_call_depth vm)) (\<lambda>too_deep.
             then_do (guard_err too_deep CallStackOverflow)
             (and_then (self (\<lambda>vm. vec_get (script_functions (program vm)) (unat function_id))) (\<lambda>f.
              and_then (ok_or f (InvalidCallablePrototype pid)) (\<lambda>function.
              and_then inherited_callables (\<lambda>inherited.
              and_then (enter_frame_locals (frame_local_count prototype) inherited) (\<lambda>base.
              then_do (for_each (zip (parameter_slots prototype) operands)
                 (bind_parameter pid base (frame_local_count prototype)))
              (push_frame pid stack_base base (frame_local_count prototype) function))))))))))))))))"

text \<open>\<open>capture_cells.retain\<close>: the entries whose slot lies outside the frame.\<close>

definition retain_outside :: "nat \<Rightarrow> nat \<Rightarrow> (nat \<rightharpoonup> cell_address) \<Rightarrow> (nat \<rightharpoonup> cell_address)" where
  "retain_outside base stop m = (\<lambda>absolute. if absolute < base \<or> absolute \<ge> stop then m absolute else None)"

definition return_from_frame :: "('c, bool) VmMethod" where
  "return_from_frame =
     and_then (self frames) (\<lambda>fs.
     if fs = [] then ok False
     else
       let frame = last fs in
       then_do (update (\<lambda>vm. vm\<lparr>frames := butlast (frames vm)\<rparr>))
       (and_then (self (\<lambda>vm. length (stack vm))) (\<lambda>len.
        then_do (guard_err (len < operand_stack_base frame) StackUnderflow)
        (and_then (self (\<lambda>vm. if len > operand_stack_base frame then last (stack vm) else VNull)) (\<lambda>result.
         then_do (update (\<lambda>vm. vm\<lparr>stack := take (operand_stack_base frame) (stack vm)\<rparr>))
         (and_then (lift_result (checked_frame_end (local_base frame) (frame_locals frame))) (\<lambda>frame_end.
          then_do (update (\<lambda>vm. vm\<lparr>capture_cells :=
             retain_outside (local_base frame) frame_end (capture_cells vm)\<rparr>))
          (then_do (update (\<lambda>vm. vm\<lparr>locals := take (local_base frame) (locals vm)\<rparr>))
          (then_do (update (\<lambda>vm. vm\<lparr>ip := return_ip frame\<rparr>))
          (then_do (push result) (ok True)))))))))))"

section \<open>Symbolic execution of the call steps\<close>

lemma wp_stack_start [wp_simps]:
  "wp (stack_start n) Q E vm = (if n \<le> length (stack vm) then Q (length (stack vm) - n) vm else E StackUnderflow vm)"
  by (simp add: stack_start_def wp_simps checked_sub_usize_def)

lemma wp_require_builtin_arity [wp_simps]:
  "wp (require_builtin_arity name a b) Q E vm = (if a = b then Q () vm else E (InvalidCallArity name b a) vm)"
  by (simp add: require_builtin_arity_def wp_simps)

lemma wp_finish_builtin [wp_simps]: "wp (finish_builtin n v) Q E vm = Q () (vm\<lparr>stack := take n (stack vm) @ [v]\<rparr>)"
  by (simp add: finish_builtin_def wp_simps)

lemma wp_split_off_stack [wp_simps]:
  "wp (split_off_stack n) Q E vm = Q (drop n (stack vm)) (vm\<lparr>stack := take n (stack vm)\<rparr>)"
  by (simp add: split_off_stack_def wp_simps)

end
