(* ===== verification/Interpreter.thy ===== *)
theory Interpreter
  imports Calls
begin

text \<open>
  The instruction loop of the freestanding interpreter, \<open>Vm::run\<close> in \<open>pd-vm-nostd/src/vm.rs\<close>. One
  iteration is a method; the loop ends when the root frame returns or an iteration fails, and may
  run forever when the machine is not metered, which is the value \<open>None\<close>.
\<close>

definition ldc :: "('c, unit) VmMethod" where
  "ldc =
     and_then read_u32 (\<lambda>index.
     and_then (self (\<lambda>vm. vec_get (constants (program vm)) (unat index))) (\<lambda>c.
     and_then (ok_or c (InvalidConstant index)) push))"

definition dup :: "('c, unit) VmMethod" where
  "dup =
     and_then (self stack) (\<lambda>st.
     if st = [] then err StackUnderflow else push (last st))"

definition exec_opcode :: "OpCode \<Rightarrow> ('c, VmStatus option) VmMethod" where
  "exec_opcode opcode = (case opcode of
       OpNop \<Rightarrow> ok None
     | OpRet \<Rightarrow> and_then return_from_frame (\<lambda>returned. ok (if returned then None else Some Halted))
     | OpLdc \<Rightarrow> then_do ldc (ok None)
     | OpAdd \<Rightarrow> then_do add (ok None)
     | OpSub \<Rightarrow> then_do (numeric_binary (\<lambda>lhs rhs. Inr (lhs - rhs)) f64_sub) (ok None)
     | OpMul \<Rightarrow> then_do (numeric_binary (\<lambda>lhs rhs. Inr (lhs * rhs)) f64_mul) (ok None)
     | OpDiv \<Rightarrow> then_do (numeric_binary checked_int_div f64_div) (ok None)
     | OpNeg \<Rightarrow> then_do neg (ok None)
     | OpCeq \<Rightarrow> and_then pop (\<lambda>rhs. and_then pop (\<lambda>lhs. then_do (push (VBool (value_eq lhs rhs))) (ok None)))
     | OpClt \<Rightarrow> then_do (numeric_compare (\<lambda>lhs rhs. sint lhs < sint rhs) f64_lt) (ok None)
     | OpCgt \<Rightarrow> then_do (numeric_compare (\<lambda>lhs rhs. sint lhs > sint rhs) f64_gt) (ok None)
     | OpBr \<Rightarrow> and_then read_u32 (\<lambda>t. then_do (jump t) (ok None))
     | OpBrfalse \<Rightarrow> and_then read_u32 (\<lambda>t. and_then pop_bool (\<lambda>b.
         if \<not> b then then_do (jump t) (ok None) else ok None))
     | OpPop \<Rightarrow> and_then pop (\<lambda>_. ok None)
     | OpDup \<Rightarrow> then_do dup (ok None)
     | OpLdloc \<Rightarrow> and_then read_u8 (\<lambda>index. then_do (load_local index) (ok None))
     | OpStloc \<Rightarrow> and_then read_u8 (\<lambda>index. then_do (stloc index) (ok None))
     | OpCall \<Rightarrow> and_then read_u16 (\<lambda>index. and_then read_u8 (\<lambda>argc. then_do (call_host index argc) (ok None)))
     | OpCallValue \<Rightarrow> and_then read_u8 (\<lambda>argc. then_do (call_value argc) (ok None))
     | OpCallScript \<Rightarrow> and_then read_u32 (\<lambda>pid. and_then read_u8 (\<lambda>argc. then_do (call_script pid argc) (ok None)))
     | OpShl \<Rightarrow> and_then pop_shift (\<lambda>rhs. and_then pop_int (\<lambda>lhs. then_do (push (VInt (push_bit rhs lhs))) (ok None)))
     | OpShr \<Rightarrow> and_then pop_shift (\<lambda>rhs. and_then pop_int (\<lambda>lhs. then_do (push (VInt (signed_drop_bit rhs lhs))) (ok None)))
     | OpMod \<Rightarrow> then_do (numeric_binary checked_int_rem f64_rem) (ok None)
     | OpAnd \<Rightarrow> and_then pop_bool (\<lambda>rhs. and_then pop_bool (\<lambda>lhs. then_do (push (VBool (lhs \<and> rhs))) (ok None)))
     | OpOr \<Rightarrow> and_then pop_bool (\<lambda>rhs. and_then pop_bool (\<lambda>lhs. then_do (push (VBool (lhs \<or> rhs))) (ok None)))
     | OpNot \<Rightarrow> and_then pop_bool (\<lambda>value. then_do (push (VBool (\<not> value))) (ok None))
     | OpLshr \<Rightarrow> and_then pop_shift (\<lambda>rhs. and_then pop_int (\<lambda>lhs. then_do (push (VInt (drop_bit rhs lhs))) (ok None))))"

text \<open>The body of the loop after the charge, and the whole iteration.\<close>

definition dispatch :: "('c, VmStatus option) VmMethod" where
  "dispatch =
     and_then read_u8 (\<lambda>raw.
     and_then (ok_or (opcode_try_from raw) (InvalidOpcode raw)) exec_opcode)"

definition run_step :: "('c, VmStatus option) VmMethod" where
  "run_step = then_do charge_fuel dispatch"

partial_function (option) run_loop :: "'c Vm \<Rightarrow> ((VmError + VmStatus) \<times> 'c Vm) option" where
  "run_loop vm =
     (case run_step vm of
        (Inl e, vm') \<Rightarrow> Some (Inl e, vm')
      | (Inr (Some status), vm') \<Rightarrow> Some (Inr status, vm')
      | (Inr None, vm') \<Rightarrow> run_loop vm')"

declare run_loop.simps [code]

definition run :: "'c Vm \<Rightarrow> ((VmError + VmStatus) \<times> 'c Vm) option" where
  "run vm =
     (case frame_allocation_error vm of
        Some (requested, limit) \<Rightarrow> Some (Inl (FrameAllocationLimit requested limit), vm)
      | None \<Rightarrow> run_loop vm)"

text \<open>
  An invariant of the iteration is an invariant of the run.
\<close>

lemma run_loop_invariant:
  assumes "run_loop vm = Some (r, vm')" and "I vm"
    and step: "\<And>vm. I vm \<Longrightarrow> wp run_step (\<lambda>_. I) (\<lambda>_. I) vm"
  shows "I vm'"
proof -
  have "I vm \<longrightarrow> I (snd (r, vm'))"
  proof (rule run_loop.raw_induct [of "\<lambda>vm y. I vm \<longrightarrow> I (snd y)", OF _ assms(1)])
    fix loop :: "'a Vm \<Rightarrow> ((VmError + VmStatus) \<times> 'a Vm) option" and vm y
    assume "\<And>vm y. loop vm = Some y \<Longrightarrow> I vm \<longrightarrow> I (snd y)"
      and "(case run_step vm of
          (Inl e, vm') \<Rightarrow> Some (Inl e, vm')
        | (Inr (Some status), vm') \<Rightarrow> Some (Inr status, vm')
        | (Inr None, vm') \<Rightarrow> loop vm') = Some y"
    then show "I vm \<longrightarrow> I (snd y)"
      using step [of vm] by (auto simp: wp_def split: prod.splits sum.splits option.splits)
  qed
  with assms(2) show ?thesis by simp
qed

lemma run_invariant:
  assumes "run vm = Some (r, vm')" and "I vm" and "\<And>vm. I vm \<Longrightarrow> wp run_step (\<lambda>_. I) (\<lambda>_. I) vm"
  shows "I vm'"
  using assms run_loop_invariant [of vm r vm' I]
  by (auto simp: run_def split: option.splits prod.splits)

end
