(* ===== verification/Metering.thy ===== *)
theory Metering
  imports Interpreter
begin

text \<open>
  Fuel metering of the freestanding interpreter. An interface for loops whose iterations are each
  paid for with one unit of fuel, with what follows for any such loop: it returns, the charge is
  exact, and a run that stopped for lack of fuel continues where it was. The instruction loop
  \<open>Vm::run\<close> is an instance.
\<close>

section \<open>Metered loops\<close>

text \<open>Iterations of a body alone that all go on; \<open>None\<close> when one of them ends the loop.\<close>

primrec continued :: "('s, 'e, 'r option) meth \<Rightarrow> nat \<Rightarrow> 's \<Rightarrow> 's option" where
  "continued body 0 s = Some s"
| "continued body (Suc n) s = (case body s of (Inr None, t) \<Rightarrow> continued body n t | _ \<Rightarrow> None)"

text \<open>
  \<open>get\<close> and \<open>put\<close> access the meter, \<open>body\<close> is one unmetered iteration, \<open>iteration\<close> is the charge
  followed by the body, and \<open>loop\<close> repeats it. The body neither reads nor writes the meter, and
  does not itself report an empty meter.
\<close>

locale metered_loop =
  fixes get :: "'s \<Rightarrow> u64 option"
    and put :: "u64 option \<Rightarrow> 's \<Rightarrow> 's"
    and exhausted :: 'e
    and body :: "('s, 'e, 'r option) meth"
    and iteration :: "('s, 'e, 'r option) meth"
    and loop :: "'s \<Rightarrow> (('e + 'r) \<times> 's) option"
  assumes get_put: "get (put g s) = g"
    and put_get: "put (get s) s = s"
    and put_put: "put g (put g' s) = put g s"
    and body_oblivious: "commutes (put g) body"
    and body_not_exhausted: "body s \<noteq> (Inl exhausted, t)"
    and iteration_unmetered: "get s = None \<Longrightarrow> iteration s = body s"
    and iteration_empty: "get s = Some 0 \<Longrightarrow> iteration s = (Inl exhausted, s)"
    and iteration_charged: "get s = Some f \<Longrightarrow> f \<noteq> 0 \<Longrightarrow> iteration s = body (put (Some (f - 1)) s)"
    and loop_unfold: "loop s = (case iteration s of
          (Inl e, t) \<Rightarrow> Some (Inl e, t)
        | (Inr (Some r), t) \<Rightarrow> Some (Inr r, t)
        | (Inr None, t) \<Rightarrow> loop t)"
begin

lemma body_put: "body s = (r, t) \<Longrightarrow> body (put f s) = (r, put f t)"
  by (rule commutes_D [OF body_oblivious])

lemma body_get: "body s = (r, t) \<Longrightarrow> get t = get s"
  by (metis body_put get_put put_get snd_conv)

lemma loop_empty: "get s = Some 0 \<Longrightarrow> loop s = Some (Inl exhausted, s)"
  by (subst loop_unfold) (simp add: iteration_empty)

lemma loop_charged:
  assumes "get s = Some f" "f \<noteq> 0"
  shows "loop s = (case body s of
          (Inl e, t) \<Rightarrow> Some (Inl e, put (Some (f - 1)) t)
        | (Inr (Some r), t) \<Rightarrow> Some (Inr r, put (Some (f - 1)) t)
        | (Inr None, t) \<Rightarrow> loop (put (Some (f - 1)) t))"
proof -
  obtain r t where b: "body s = (r, t)" by fastforce
  then have "iteration s = (r, put (Some (f - 1)) t)"
    using iteration_charged [OF assms] body_put by simp
  then show ?thesis by (subst loop_unfold) (simp add: b)
qed

lemma continued_put: "continued body k (put g s) = map_option (put g) (continued body k s)"
proof (induction k arbitrary: s)
  case (Suc k)
  obtain r t where b: "body s = (r, t)" by fastforce
  with Suc show ?case by (auto simp: body_put [OF b] split: sum.splits option.splits)
qed simp

text \<open>A metered loop returns, whatever its body does.\<close>

lemma metered_returns: "get s = Some f \<Longrightarrow> \<exists>r t. loop s = Some (r, t)"
proof (induction "unat f" arbitrary: f s)
  case 0
  then show ?case by (metis loop_empty unat_0_iff)
next
  case (Suc n)
  from Suc.hyps(2) have f: "f \<noteq> 0" by auto
  then have n: "n = unat (f - 1)" using Suc.hyps(2) by (simp add: unat_minus_one)
  obtain r t where b: "body s = (r, t)" by fastforce
  have "\<exists>r u. loop (put (Some (f - 1)) t) = Some (r, u)"
    using Suc.hyps(1) [OF n] get_put by blast
  then show ?case
    by (subst loop_charged [OF Suc.prems f]) (auto simp: b split: sum.splits option.splits)
qed

text \<open>
  What a metered run did: \<open>k\<close> iterations that went on, and then either the meter was empty after
  exactly these, or one more iteration ended the loop. Each iteration cost one unit.
\<close>

lemma metered_accounting:
  assumes "get s = Some f" and "loop s = Some (r, t)"
  shows "\<exists>k u. continued body k s = Some u \<and>
    ((r = Inl exhausted \<and> k = unat f \<and> t = put (Some 0) u) \<or>
     (\<exists>q v. body u = (q, v) \<and> q \<noteq> Inr None \<and> r \<noteq> Inl exhausted \<and> k < unat f \<and>
        r = map_sum id the q \<and> t = put (Some (f - of_nat (Suc k))) v))"
  using assms
proof (induction "unat f" arbitrary: f s)
  case 0
  then have "f = 0" by (simp add: unat_eq_zero)
  with 0 have "r = Inl exhausted" and "t = put (Some 0) s"
    using loop_empty [of s] put_get [of s] by auto
  with 0 show ?case by (intro exI [of _ 0] exI [of _ s]) auto
next
  case (Suc n)
  from Suc.hyps(2) have f: "f \<noteq> 0" by auto
  then have n: "n = unat (f - 1)" using Suc.hyps(2) by (simp add: unat_minus_one)
  obtain q v where b: "body s = (q, v)" by fastforce
  show ?case
  proof (cases "q = Inr None")
    case False
    then have "r = map_sum id the q" and "t = put (Some (f - 1)) v"
      using Suc.prems(2) unfolding loop_charged [OF Suc.prems(1) f] b
      by (auto split: sum.splits option.splits)
    moreover have "r \<noteq> Inl exhausted"
      using body_not_exhausted b \<open>r = _\<close> by (cases q) auto
    ultimately show ?thesis
      using b False Suc.hyps(2) by (intro exI [of _ 0] exI [of _ s]) auto
  next
    case True
    let ?v = "put (Some (f - 1)) v"
    have "loop ?v = Some (r, t)"
      using Suc.prems(2) unfolding loop_charged [OF Suc.prems(1) f] b True by simp
    then obtain k u where ku: "continued body k ?v = Some u" and
      fin: "(r = Inl exhausted \<and> k = unat (f - 1) \<and> t = put (Some 0) u) \<or>
        (\<exists>q w. body u = (q, w) \<and> q \<noteq> Inr None \<and> r \<noteq> Inl exhausted \<and> k < unat (f - 1) \<and>
           r = map_sum id the q \<and> t = put (Some (f - 1 - of_nat (Suc k))) w)"
      using Suc.hyps(1) [OF n get_put] by blast
    from ku obtain u' where u': "continued body k v = Some u'" "u = put (Some (f - 1)) u'"
      unfolding continued_put by auto
    have cont: "continued body (Suc k) s = Some u'" using b True u' by simp
    have sk: "Suc k \<le> unat f \<longleftrightarrow> k \<le> unat (f - 1)" "Suc k < unat f \<longleftrightarrow> k < unat (f - 1)"
      "Suc k = unat f \<longleftrightarrow> k = unat (f - 1)"
      using n Suc.hyps(2) by auto
    from fin show ?thesis
    proof (elim disjE exE conjE)
      assume "r = Inl exhausted" "k = unat (f - 1)" "t = put (Some 0) u"
      then show ?thesis
        using cont sk(3) u'(2) put_put
        by (intro exI [of _ "Suc k"] exI [of _ u']) (simp del: continued.simps)
    next
      fix q' w
      assume step: "body u = (q', w)" and rest: "q' \<noteq> Inr None" "r \<noteq> Inl exhausted"
        "k < unat (f - 1)" "r = map_sum id the q'" and t: "t = put (Some (f - 1 - of_nat (Suc k))) w"
      obtain q'' w' where step': "body u' = (q'', w')" by fastforce
      then have "q'' = q'" "w = put (Some (f - 1)) w'"
        using step u'(2) body_put [OF step'] by auto
      moreover have "f - 1 - of_nat (Suc k) = f - of_nat (Suc (Suc k))" by simp
      ultimately show ?thesis
        using cont rest t step' sk(2) put_put
        by (intro exI [of _ "Suc k"] exI [of _ u']) (auto simp: diff_diff_eq add.commute)
    qed
  qed
qed

text \<open>
  A run that stopped for lack of fuel is resumed by refilling the meter: stopping with \<open>a\<close> units and
  going on with \<open>b\<close> is running with \<open>a + b\<close>.
\<close>

lemma resume:
  assumes "loop (put (Some a) s) = Some (Inl exhausted, t)" and "unat a + unat b < 2 ^ 64"
  shows "loop (put (Some b) t) = loop (put (Some (a + b)) s)"
  using assms
proof (induction "unat a" arbitrary: a s)
  case 0
  then have "a = 0" by (simp add: unat_eq_zero)
  moreover from this 0 have "t = put (Some 0) s" using loop_empty get_put by fastforce
  ultimately show ?case by (simp add: put_put)
next
  case (Suc n)
  from Suc.hyps(2) have a: "a \<noteq> 0" by auto
  then have n: "n = unat (a - 1)" using Suc.hyps(2) by (simp add: unat_minus_one)
  have "unat (a + b) = unat a + unat b"
    using Suc.prems(2) unat_add_lem [of a b] by simp
  then have ab: "a + b \<noteq> 0" using Suc.hyps(2) by auto
  obtain q v where b: "body s = (q, v)" by fastforce
  have q: "q = Inr None"
    using Suc.prems(1) body_not_exhausted b
    unfolding loop_charged [OF get_put a] body_put [OF b]
    by (auto split: sum.splits option.splits)
  have "loop (put (Some (a - 1)) v) = Some (Inl exhausted, t)"
    using Suc.prems(1) unfolding loop_charged [OF get_put a] body_put [OF b] q by (simp add: put_put)
  moreover have "unat (a - 1) + unat b < 2 ^ 64" using Suc.prems(2) Suc.hyps(2) n by simp
  ultimately have "loop (put (Some b) t) = loop (put (Some (a - 1 + b)) v)"
    by (rule Suc.hyps(1) [OF n])
  also have "\<dots> = loop (put (Some (a + b)) s)"
    unfolding loop_charged [OF get_put ab] body_put [OF b] q by (simp add: put_put algebra_simps)
  finally show ?case .
qed

end

section \<open>The instruction loop is metered\<close>

abbreviation put_fuel :: "u64 option \<Rightarrow> 'c Vm \<Rightarrow> 'c Vm" where
  "put_fuel f vm \<equiv> vm\<lparr>fuel := f\<rparr>"

text \<open>
  What holds of every method an instruction is made of: it neither observes nor changes the meter,
  never reports it empty, and leaves the configuration of the machine alone.
\<close>

definition not_fuel :: "VmError \<Rightarrow> bool" where
  "not_fuel e = (case e of OutOfFuel _ _ \<Rightarrow> False | _ \<Rightarrow> True)"

definition same_config :: "'c Vm \<Rightarrow> 'c Vm \<Rightarrow> bool" where
  "same_config vm vm' \<longleftrightarrow> program vm' = program vm \<and> host_functions vm' = host_functions vm \<and>
     host_dispatcher vm' = host_dispatcher vm \<and> fuel vm' = fuel vm \<and>
     max_script_call_depth vm' = max_script_call_depth vm \<and>
     frame_allocation_error vm' = frame_allocation_error vm"

interpretation config: frame_condition same_config
  by unfold_locales (auto simp: same_config_def)

definition instruction :: "('c, 'a) VmMethod \<Rightarrow> bool" where
  "instruction m \<longleftrightarrow> (\<forall>f. commutes (put_fuel f) m) \<and> raises not_fuel m \<and> keeps same_config m"

lemma not_fuel_simps [simp]:
  "not_fuel StackUnderflow" "not_fuel (TypeMismatch s)" "not_fuel (InvalidShift i)"
  "not_fuel (InvalidConstant c)" "not_fuel (InvalidLocal l)" "not_fuel (InvalidCall x)"
  "not_fuel InvalidCallable" "not_fuel (InvalidCallablePrototype pid)" "not_fuel (InvalidFrameState s)"
  "not_fuel (FrameAllocationLimit m n)" "not_fuel (CallScriptRequiresEnvironment pid)"
  "not_fuel CallStackOverflow" "not_fuel (InvalidCallArity s a b)" "not_fuel (HostCallsUnavailable x)"
  "not_fuel (HostError s)" "not_fuel (InvalidOpcode o')" "not_fuel BytecodeBounds"
  "not_fuel (InvalidJump t)" "\<not> not_fuel (OutOfFuel a' b')"
  by (simp_all add: not_fuel_def)

lemma same_config_simps [simp]:
  "same_config vm vm" "same_config vm (vm\<lparr>ip := i\<rparr>)" "same_config vm (vm\<lparr>stack := st\<rparr>)"
  "same_config vm (vm\<lparr>locals := ls\<rparr>)" "same_config vm (vm\<lparr>capture_cells := cs\<rparr>)"
  "same_config vm (vm\<lparr>frames := fs\<rparr>)" "same_config vm (vm\<lparr>store := sto\<rparr>)"
  "same_config vm (vm\<lparr>host_context := c, store := sto\<rparr>)"
  by (simp_all add: same_config_def)

lemma results_not_fuel [dest]:
  "checked_frame_end base count = Inl e \<Longrightarrow> not_fuel e"
  "checked_int_div x y = Inl e \<Longrightarrow> not_fuel e" "checked_int_rem x y = Inl e \<Longrightarrow> not_fuel e"
  by (auto simp: checked_frame_end_def checked_int_div_def checked_int_rem_def not_fuel_def
    split: if_splits option.splits)

named_theorems instructions "the methods an instruction is made of"

lemma instruction_intros [instructions]:
  "instruction (ok x)"
  "not_fuel e \<Longrightarrow> instruction (err e)"
  "(\<And>vm g. h (put_fuel g vm) = h vm) \<Longrightarrow> instruction (self h)"
  "(\<And>vm g. u (put_fuel g vm) = put_fuel g (u vm)) \<Longrightarrow> (\<And>vm. same_config vm (u vm)) \<Longrightarrow> instruction (update u)"
  "not_fuel e \<Longrightarrow> instruction (ok_or y e)"
  "not_fuel e \<Longrightarrow> instruction (guard_err b e)"
  "(\<And>e. r = Inl e \<Longrightarrow> not_fuel e) \<Longrightarrow> instruction (lift_result r)"
  "instruction m \<Longrightarrow> (\<And>z. instruction (k z)) \<Longrightarrow> instruction (and_then m k)"
  "instruction m \<Longrightarrow> instruction n \<Longrightarrow> instruction (then_do m n)"
  "(\<And>w. w \<in> set ws \<Longrightarrow> instruction (l w)) \<Longrightarrow> instruction (for_each ws l)"
  unfolding instruction_def
  by (intro conjI allI commutes_intros raises_intros config.keeps_intros; simp)+

lemmas machine_method_defs = read_u8_def read_array_def read_u16_def read_u32_def jump_def push_def
  pop_def pop_numeric_def pop_int_def pop_bool_def pop_shift_def numeric_binary_def
  numeric_compare_def neg_def add_def absolute_local_def load_local_def store_local_def set_local_def

lemmas capture_method_defs = stloc_def alloc_cell_def fresh_identity_def capture_cell_or_insert_def
  bind_capture_def bind_callable_value_def

lemmas builtin_method_defs = require_builtin_arity_def stack_start_def finish_builtin_def
  builtin_concat_def builtin_array_new_def builtin_array_push_def builtin_map_new_def
  builtin_set_def builtin_detach_local_def builtin_bind_callable_def

lemmas frame_method_defs = inherited_callables_def bind_root_callable_def place_inherited_def
  bind_parameter_def bind_environment_cell_def enter_frame_locals_def push_frame_def
  split_off_stack_def

lemma machine_instruction [instructions]:
  "instruction read_u8" "instruction (read_array n)"
  "instruction (jump t)" "instruction (push v)"
  "instruction pop" "instruction (absolute_local i)"
  unfolding machine_method_defs Let_def
  by (auto intro!: instructions simp: active_prototype_def active_local_base_def)

lemma numeric_instruction [instructions]:
  "instruction read_u16" "instruction read_u32"
  "instruction pop_numeric" "instruction pop_int"
  "instruction pop_bool" "instruction add"
  unfolding read_u16_def read_u32_def pop_numeric_def pop_int_def pop_bool_def add_def
  by (auto intro!: instructions split: Value.split)

lemma arithmetic_instruction [instructions]:
  "instruction pop_shift" "instruction neg"
  "instruction (numeric_compare p q)"
  "(\<And>x y e. g x y = Inl e \<Longrightarrow> not_fuel e) \<Longrightarrow> instruction (numeric_binary g h)"
  unfolding pop_shift_def neg_def numeric_binary_def numeric_compare_def
  by (auto intro!: instructions split: NumericValue.split)

lemma local_instruction [instructions]:
  "instruction (load_local i)" "instruction (stloc i)"
  unfolding load_local_def stloc_def
  by (auto intro!: instructions split: option.split
    simp: set_cell_def set_local_slot_def cell_value_def)

lemma alloc_instruction [instructions]:
  "instruction (alloc_cell v)" "instruction fresh_identity"
  unfolding alloc_cell_def fresh_identity_def by (auto intro!: instructions)

lemma capture_instruction [instructions]:
  "instruction (capture_cell_or_insert a v)"
  "instruction (bind_capture pid own base v source capture mode)"
  unfolding bind_capture_def capture_cell_or_insert_def
  by (auto intro!: instructions split: option.split
    simp: set_local_slot_def cell_value_def)

lemma bind_captures_instruction [instructions]: "instruction (bind_captures pid own base cs)"
  by (induction pid own base cs rule: bind_captures.induct) (auto intro!: instructions)

lemma closure_instruction [instructions]: "instruction (bind_callable_value pid cs)"
  unfolding bind_callable_value_def
  by (auto intro!: instructions simp: active_local_base_def)

lemma builtin_step_instruction [instructions]:
  "instruction (require_builtin_arity name a b)" "instruction (stack_start n)"
  "instruction (finish_builtin start v)"
  unfolding require_builtin_arity_def stack_start_def finish_builtin_def
  by (auto intro!: instructions)

lemma builtin_instruction [instructions]:
  "instruction (builtin_concat argc)" "instruction (builtin_array_new argc)"
  "instruction (builtin_array_push argc)" "instruction (builtin_map_new argc)"
  "instruction (builtin_set argc)" "instruction (builtin_detach_local argc)"
  "instruction (builtin_bind_callable argc)"
  unfolding builtin_method_defs
  by (auto intro!: instructions split: Value.split simp: set_local_slot_def)

lemma invoke_host_instruction [instructions]: "instruction (invoke_host g arguments)"
  by (auto simp: instruction_def commutes_def raises_def keeps_def invoke_host_def
    split: prod.splits sum.splits)

lemma call_host_instruction [instructions]: "instruction (call_host index argc)"
  unfolding call_host_def call_core_builtin_def
  by (auto intro!: instructions split: option.split simp: resolve_host_call_def)

lemma frame_instruction [instructions]:
  "instruction inherited_callables" "instruction (bind_root_callable base count b)"
  "instruction (place_inherited base count sv)"
  "instruction (bind_parameter pid base count sa)"
  "instruction (bind_environment_cell pid own base count sc)"
  "instruction (push_frame pid sbase base count g)"
  "instruction (split_off_stack n)"
  unfolding frame_method_defs Let_def
  by (auto intro!: instructions split: prod.split
    simp: active_local_base_def active_local_count_def set_local_slot_def cell_value_def)

lemma enter_instruction [instructions]: "instruction (enter_frame_locals count inherited)"
  unfolding enter_frame_locals_def by (auto intro!: instructions)

lemma call_instruction [instructions]:
  "instruction (call_script_function c p n vs g)"
  "instruction (call_value argc)" "instruction (call_script pid argc)"
  "instruction return_from_frame"
  unfolding call_script_function_def call_value_def call_popped_def call_script_def return_from_frame_def Let_def
  by (auto intro!: instructions
    split: option.split list.split Value.split CallableTarget.split simp: set_local_slot_def)

lemma dispatch_instruction [instructions]: "instruction dispatch"
  unfolding dispatch_def exec_opcode_def ldc_def dup_def
  by (auto intro!: instructions split: OpCode.split elim!: results_not_fuel)

lemma charge_fuel_cases:
  "fuel vm = None \<Longrightarrow> charge_fuel vm = (Inr (), vm)"
  "fuel vm = Some 0 \<Longrightarrow> charge_fuel vm = (Inl (OutOfFuel 1 0), vm)"
  "fuel vm = Some f \<Longrightarrow> f \<noteq> 0 \<Longrightarrow> charge_fuel vm = (Inr (), put_fuel (Some (f - 1)) vm)"
  by (simp_all add: charge_fuel_def meth_defs)

interpretation vm_meter: metered_loop fuel put_fuel "OutOfFuel 1 0" dispatch run_step run_loop
proof unfold_locales
  fix s t :: "'c Vm"
  show "dispatch s \<noteq> (Inl (OutOfFuel 1 0), t)"
    using dispatch_instruction by (fastforce simp: raises_def instruction_def)
  show "run_loop s = (case run_step s of
          (Inl e, t) \<Rightarrow> Some (Inl e, t)
        | (Inr (Some r), t) \<Rightarrow> Some (Inr r, t)
        | (Inr None, t) \<Rightarrow> run_loop t)"
    by (rule run_loop.simps)
qed (simp_all add: dispatch_instruction [unfolded instruction_def] run_step_def then_do_def and_then_def charge_fuel_cases)

lemma dispatch_config: "dispatch vm = (r, vm') \<Longrightarrow> same_config vm vm'"
  using dispatch_instruction keeps_D by (auto simp: instruction_def)

lemma continued_config: "continued dispatch k vm = Some u \<Longrightarrow> same_config vm u"
proof (induction k arbitrary: vm)
  case (Suc k)
  then obtain vm' where "dispatch vm = (Inr None, vm')" "continued dispatch k vm' = Some u"
    by (auto split: prod.splits sum.splits option.splits)
  with Suc.IH dispatch_config show ?case by (blast intro: config.frame_trans)
qed simp

lemma run_not_exhausted: "frame_allocation_error vm = Some l \<Longrightarrow> run vm \<noteq> Some (Inl (OutOfFuel 1 0), vm')"
  by (auto simp: run_def split: prod.splits)

lemma run_is_loop: "frame_allocation_error vm = None \<Longrightarrow> run vm = run_loop vm"
  by (simp add: run_def)

text \<open>A program of two instructions, \<open>Nop\<close> and \<open>Ret\<close>, on which the properties are instantiated.\<close>

definition nop_ret :: Program where
  "nop_ret = program_new [] [0x00, 0x01] []"

section \<open>Properties\<close>

text \<open>
  C1. Termination. A machine with fuel set always comes back from \<open>run\<close>, with the root frame
  halted or with an error, whatever the program and the host functions are.
\<close>

theorem run_metered_returns:
  assumes "fuel vm = Some f"
  shows "\<exists>result vm'. run vm = Some (result, vm')"
  using vm_meter.metered_returns [OF assms]
  by (auto simp: run_def split: option.split prod.split)

theorem run_metered_returns_witness:
  "\<exists>result vm'. run (set_fuel 3 (vm_new nop_ret)) = Some (result, vm')"
  by (rule run_metered_returns [of _ 3]) (simp add: set_fuel_def)

text \<open>
  C2. Accounting. A metered run executes some number \<open>k\<close> of instructions that do not end it. Either
  \<open>k\<close> is the whole fuel and the run reports \<open>OutOfFuel\<close> in the state after these \<open>k\<close> instructions
  with an empty meter, or a further instruction ends the run with its own result, and the
  meter has lost exactly the \<open>k + 1\<close> instructions executed.
\<close>

theorem run_fuel_accounting:
  assumes "fuel vm = Some f" and "frame_allocation_error vm = None"
    and "run vm = Some (result, vm')"
  shows "\<exists>k u. continued dispatch k vm = Some u \<and>
    ((result = Inl (OutOfFuel 1 0) \<and> k = unat f \<and> vm' = u\<lparr>fuel := Some 0\<rparr>) \<or>
     (\<exists>q v. dispatch u = (q, v) \<and> q \<noteq> Inr None \<and> result \<noteq> Inl (OutOfFuel 1 0) \<and> k < unat f \<and>
        result = map_sum id the q \<and> vm' = v\<lparr>fuel := Some (f - of_nat (Suc k))\<rparr>))"
  by (rule vm_meter.metered_accounting [OF assms(1) assms(3) [unfolded run_is_loop [OF assms(2)]]])

theorem run_fuel_accounting_witness:
  "\<exists>result vm'. run (set_fuel 5 (vm_new nop_ret)) = Some (result, vm') \<and>
     (\<exists>k u. continued dispatch k (set_fuel 5 (vm_new nop_ret)) = Some u \<and>
     ((result = Inl (OutOfFuel 1 0) \<and> k = unat (5 :: u64) \<and> vm' = u\<lparr>fuel := Some 0\<rparr>) \<or>
      (\<exists>q v. dispatch u = (q, v) \<and> q \<noteq> Inr None \<and> result \<noteq> Inl (OutOfFuel 1 0) \<and> k < unat (5 :: u64) \<and>
         result = map_sum id the q \<and> vm' = v\<lparr>fuel := Some (5 - of_nat (Suc k))\<rparr>)))"
proof -
  let ?vm = "set_fuel 5 (vm_new nop_ret)"
  have f: "fuel ?vm = Some 5" by (simp add: set_fuel_def)
  have e: "frame_allocation_error ?vm = None" by code_simp
  obtain result vm' where r: "run ?vm = Some (result, vm')"
    using vm_meter.metered_returns [OF f] run_is_loop [OF e] by auto
  show ?thesis by (rule exI, rule exI, rule conjI, rule r, rule run_fuel_accounting [OF f e r])
qed

text \<open>
  C3. Pause and resume. When a run with fuel \<open>a\<close> stops with \<open>OutOfFuel\<close>, adding \<open>b\<close> units to the
  stopped machine succeeds, and running it again gives the outcome and the machine that a single
  run with \<open>a + b\<close> units gives.
\<close>

theorem run_resume:
  assumes "run (set_fuel a vm) = Some (Inl (OutOfFuel 1 0), paused)"
    and "unat a + unat b < 2 ^ 64"
  shows "\<exists>refilled. add_fuel b paused = (Inr (), refilled) \<and> run refilled = run (set_fuel (a + b) vm)"
proof -
  have e: "frame_allocation_error vm = None"
    using assms(1) run_not_exhausted [of "set_fuel a vm"]
    by (cases "frame_allocation_error vm") (auto simp: set_fuel_def)
  have loop: "run_loop (put_fuel (Some a) vm) = Some (Inl (OutOfFuel 1 0), paused)"
    using assms(1) e by (simp add: run_def set_fuel_def)
  obtain u k where u: "continued dispatch k (put_fuel (Some a) vm) = Some u" "paused = put_fuel (Some 0) u"
    using vm_meter.metered_accounting [OF vm_meter.get_put loop] by blast
  have e': "frame_allocation_error paused = None"
    using continued_config [OF u(1)] u(2) e by (simp add: same_config_def)
  have "add_fuel b paused = (Inr (), put_fuel (Some b) paused)"
    using u(2) assms(2) by (simp add: add_fuel_def meth_defs checked_add_u64_def)
  moreover have "run (put_fuel (Some b) paused) = run (set_fuel (a + b) vm)"
    using vm_meter.resume [OF loop assms(2)] e e' by (simp add: run_def set_fuel_def)
  ultimately show ?thesis by blast
qed

theorem run_resume_witness:
  "\<exists>paused refilled. run (set_fuel 1 (vm_new nop_ret)) = Some (Inl (OutOfFuel 1 0), paused) \<and>
     add_fuel 4 paused = (Inr (), refilled) \<and> run refilled = run (set_fuel 5 (vm_new nop_ret))"
proof -
  have "map_option fst (run (set_fuel 1 (vm_new nop_ret))) = Some (Inl (OutOfFuel 1 0))"
    by code_simp
  then obtain paused where p: "run (set_fuel 1 (vm_new nop_ret)) = Some (Inl (OutOfFuel 1 0), paused)"
    by auto
  have "unat (1 :: u64) + unat (4 :: u64) < 2 ^ 64" by simp
  from run_resume [OF p this] have "\<exists>refilled. add_fuel 4 paused = (Inr (), refilled) \<and>
     run refilled = run (set_fuel 5 (vm_new nop_ret))" by simp
  with p show ?thesis by blast
qed

end
