(* ===== verification/Ownership.thy ===== *)
theory Ownership
  imports Metering
begin

text \<open>
  Ownership among capture cells. A cell owns the cells that the callables in its value capture, and
  cells are counted references, so a cycle of ownership is never freed. The interpreter refuses
  the store that would close a cycle. This theory shows that its search decides reachability and
  that no instruction closes a cycle.
\<close>

section \<open>Reachability\<close>

definition owns :: "Value list \<Rightarrow> cell_address \<Rightarrow> cell_address \<Rightarrow> bool" where
  "owns heap a b \<longleftrightarrow> a < length heap \<and> b \<in> set (value_cells (heap ! a))"

definition value_reaches :: "Value list \<Rightarrow> Value \<Rightarrow> cell_address \<Rightarrow> bool" where
  "value_reaches heap v t \<longleftrightarrow> (\<exists>c \<in> set (value_cells v). (owns heap)\<^sup>*\<^sup>* c t)"

definition acyclic_heap :: "Value list \<Rightarrow> bool" where
  "acyclic_heap heap \<longleftrightarrow> (\<forall>c. \<not> (owns heap)\<^sup>+\<^sup>+ c c)"

text \<open>
  What a search that did not find its target knows of an address: it is not the target, and it was
  visited unless it is outside the store. A search closes what it visits: everything that a newly
  visited cell owns is settled.
\<close>

definition settled :: "Value list \<Rightarrow> cell_address \<Rightarrow> cell_address list \<Rightarrow> cell_address \<Rightarrow> bool" where
  "settled heap t vis d \<longleftrightarrow> d \<noteq> t \<and> (d < length heap \<longrightarrow> d \<in> set vis)"

definition closes :: "Value list \<Rightarrow> cell_address \<Rightarrow> cell_address list \<Rightarrow> cell_address list \<Rightarrow> bool" where
  "closes heap t vis vis' \<longleftrightarrow> set vis \<subseteq> set vis' \<and>
     (\<forall>c \<in> set vis' - set vis. \<forall>d \<in> set (value_cells (heap ! c)). settled heap t vis' d)"

lemma settled_mono: "settled heap t vis d \<Longrightarrow> set vis \<subseteq> set vis' \<Longrightarrow> settled heap t vis' d"
  by (auto simp: settled_def)

lemma closes_refl [simp]: "closes heap t vis vis"
  by (simp add: closes_def)

lemma closes_trans:
  assumes "closes heap t a b" and "closes heap t b c"
  shows "closes heap t a c"
proof -
  have bc: "set b \<subseteq> set c" using assms(2) by (simp add: closes_def)
  have "settled heap t c d" if "x \<in> set c - set a" "d \<in> set (value_cells (heap ! x))" for x d
  proof (cases "x \<in> set b")
    case True
    then have "settled heap t b d" using assms(1) that by (auto simp: closes_def)
    then show ?thesis using bc by (rule settled_mono)
  qed (use assms(2) that in \<open>auto simp: closes_def\<close>)
  moreover have "set a \<subseteq> set c" using assms by (auto simp: closes_def)
  ultimately show ?thesis by (auto simp: closes_def)
qed

lemma closes_visit:
  assumes "closes heap t (vis @ [c]) vis'"
    and "\<forall>d \<in> set (value_cells (heap ! c)). settled heap t vis' d"
  shows "closes heap t vis vis'"
  using assms by (auto simp: closes_def)

lemma closes_settled: "closes heap t a b \<Longrightarrow> settled heap t a d \<Longrightarrow> settled heap t b d"
  by (auto simp: closes_def intro: settled_mono)

lemma array_cells_Cons: "set (value_cells (VArray (v # vs))) = set (value_cells v) \<union> set (value_cells (VArray vs))"
  by simp

lemma map_cells_Cons:
  "set (value_cells (VMap ((k, v) # es))) =
     set (value_cells k) \<union> set (value_cells v) \<union> set (value_cells (VMap es))"
  by (simp add: Un_assoc)

lemma references_closes:
  "references_value heap t v vis = (False, vis') \<Longrightarrow>
     closes heap t vis vis' \<and> (\<forall>d \<in> set (value_cells v). settled heap t vis' d)"
  "references_env heap t env vis = (False, vis') \<Longrightarrow>
     closes heap t vis vis' \<and> (\<forall>d \<in> set env. settled heap t vis' d)"
  "references_values heap t vs vis = (False, vis') \<Longrightarrow>
     closes heap t vis vis' \<and> (\<forall>d \<in> set (value_cells (VArray vs)). settled heap t vis' d)"
  "references_entries heap t es vis = (False, vis') \<Longrightarrow>
     closes heap t vis vis' \<and> (\<forall>d \<in> set (value_cells (VMap es)). settled heap t vis' d)"
proof (induction heap t v vis and heap t env vis and heap t vs vis and heap t es vis
    arbitrary: vis' and vis' and vis' and vis'
    rule: references_value_references_env_references_values_references_entries.induct)
  case (6 heap t cell rest visited)
  show ?case
  proof (cases "cell \<in> set visited \<or> \<not> cell < length heap")
    case True
    then have "settled heap t visited cell" and "references_env heap t rest visited = (False, vis')"
      using 6 by (auto simp: settled_def split: if_splits)
    then show ?thesis using 6 True by (auto split: if_splits intro: closes_settled)
  next
    case False
    then obtain w where "references_value heap t (heap ! cell) (visited @ [cell]) = (False, w)"
      "references_env heap t rest w = (False, vis')" and cell: "cell \<noteq> t"
      using 6 by (auto split: if_splits prod.splits)
    then have v: "closes heap t (visited @ [cell]) w" "\<forall>d \<in> set (value_cells (heap ! cell)). settled heap t w d"
      and rest: "closes heap t w vis'" "\<forall>d \<in> set rest. settled heap t vis' d"
      using 6 False by auto
    from v have "closes heap t visited w" by (rule closes_visit)
    then have "closes heap t visited vis'" using rest(1) by (rule closes_trans)
    moreover have "cell \<in> set w" using v(1) by (simp add: closes_def)
    then have "settled heap t vis' cell"
      using cell rest(1) closes_settled [of heap t w vis' cell] by (simp add: settled_def)
    ultimately show ?thesis using rest(2) by simp
  qed
next
  case (8 heap t v rest visited)
  then obtain w where w: "references_value heap t v visited = (False, w)"
      "references_values heap t rest w = (False, vis')"
    by (auto split: if_splits prod.splits)
  have v: "closes heap t visited w" "\<forall>d \<in> set (value_cells v). settled heap t w d"
    and rest: "closes heap t w vis'" "\<forall>d \<in> set (value_cells (VArray rest)). settled heap t vis' d"
    using 8(1) [OF w(1)] 8(2) [OF w(1) [symmetric] _ w(2)] by auto
  have "closes heap t visited vis'" using v(1) rest(1) by (rule closes_trans)
  then show ?case
    unfolding array_cells_Cons using v(2) rest closes_settled [OF rest(1)] by blast
next
  case (10 heap t k v rest visited)
  then obtain w x where w: "references_value heap t k visited = (False, w)"
      "references_value heap t v w = (False, x)" "references_entries heap t rest x = (False, vis')"
    by (auto split: if_splits prod.splits)
  have k: "closes heap t visited w" "\<forall>d \<in> set (value_cells k). settled heap t w d"
    and v: "closes heap t w x" "\<forall>d \<in> set (value_cells v). settled heap t x d"
    and rest: "closes heap t x vis'" "\<forall>d \<in> set (value_cells (VMap rest)). settled heap t vis' d"
    using 10(1) [OF w(1)] 10(2) [OF w(1) [symmetric] _ w(2)]
      10(3) [OF w(1) [symmetric] _ w(2) [symmetric] _ w(3)] by auto
  have wv: "closes heap t w vis'" using v(1) rest(1) by (rule closes_trans)
  with k(1) have "closes heap t visited vis'" by (rule closes_trans)
  then show ?case unfolding map_cells_Cons
    using k(2) v(2) rest closes_settled [OF rest(1)] closes_settled [OF wv] by blast
next
  case (1 heap t callable visited)
  then show ?case by (cases "callable_env callable") auto
next
  case (2 heap t vs visited)
  then show ?case by (simp del: value_cells.simps)
next
  case (3 heap t vs visited)
  then show ?case by (simp del: value_cells.simps)
qed simp_all

lemma references_sound:
  "fst (references_value heap t v vis) \<Longrightarrow> \<exists>c \<in> set (value_cells v). (owns heap)\<^sup>*\<^sup>* c t"
  "fst (references_env heap t env vis) \<Longrightarrow> \<exists>c \<in> set env. (owns heap)\<^sup>*\<^sup>* c t"
  "fst (references_values heap t vs vis) \<Longrightarrow> \<exists>c \<in> set (value_cells (VArray vs)). (owns heap)\<^sup>*\<^sup>* c t"
  "fst (references_entries heap t es vis) \<Longrightarrow> \<exists>c \<in> set (value_cells (VMap es)). (owns heap)\<^sup>*\<^sup>* c t"
proof (induction heap t v vis and heap t env vis and heap t vs vis and heap t es vis
    rule: references_value_references_env_references_values_references_entries.induct)
  case (6 heap t cell rest visited)
  have "\<exists>c\<in>set (cell # rest). (owns heap)\<^sup>*\<^sup>* c t"
    if "cell < length heap" "\<exists>c \<in> set (value_cells (heap ! cell)). (owns heap)\<^sup>*\<^sup>* c t"
    using that by (auto simp: owns_def intro!: bexI [of _ cell] intro: converse_rtranclp_into_rtranclp)
  then show ?case using 6 by (auto split: if_splits prod.splits)
next
  case (8 heap t v rest visited)
  obtain found w where v: "references_value heap t v visited = (found, w)" by fastforce
  then show ?case
    using 8(1) 8(2) [OF v [symmetric]] 8(3) by (cases found) (auto simp: array_cells_Cons simp del: value_cells.simps)
next
  case (10 heap t k v rest visited)
  obtain f w where k: "references_value heap t k visited = (f, w)" by fastforce
  obtain g x where v: "references_value heap t v w = (g, x)" by fastforce
  show ?case
    using 10(1) 10(2) [OF k [symmetric]] 10(3) [OF k [symmetric] _ v [symmetric]] 10(4) k v
    by (cases f; cases g) (auto simp: map_cells_Cons simp del: value_cells.simps)
next
  case (1 heap t callable visited)
  then show ?case by (cases "callable_env callable") auto
next
  case (2 heap t vs visited)
  then show ?case by (simp del: value_cells.simps)
next
  case (3 heap t vs visited)
  then show ?case by (simp del: value_cells.simps)
qed simp_all

lemma references_iff_reaches: "value_references_capture_cell heap v t \<longleftrightarrow> value_reaches heap v t"
proof
  assume "value_references_capture_cell heap v t"
  then show "value_reaches heap v t"
    unfolding value_references_capture_cell_def value_reaches_def by (rule references_sound(1))
next
  assume "value_reaches heap v t"
  then obtain c where c: "c \<in> set (value_cells v)" "(owns heap)\<^sup>*\<^sup>* c t" by (auto simp: value_reaches_def)
  show "value_references_capture_cell heap v t"
  proof (rule ccontr)
    assume "\<not> value_references_capture_cell heap v t"
    then obtain vis where "references_value heap t v [] = (False, vis)"
      unfolding value_references_capture_cell_def by (cases "references_value heap t v []") auto
    from references_closes(1) [OF this] have closed: "closes heap t [] vis" and roots: "settled heap t vis c"
      using c by auto
    from c(2) have "settled heap t vis t" using roots
    proof (induction rule: converse_rtranclp_induct)
      case (step x y)
      then have "x \<in> set vis" "y \<in> set (value_cells (heap ! x))" by (auto simp: owns_def settled_def)
      then have "settled heap t vis y" using closed by (auto simp: closes_def)
      then show ?case by (rule step)
    qed
    then show False by (simp add: settled_def)
  qed
qed

section \<open>Acyclic stores\<close>

lemma owns_update:
  "owns (heap[c := v]) a b \<longleftrightarrow>
     (if a = c then c < length heap \<and> b \<in> set (value_cells v) else owns heap a b)"
  by (auto simp: owns_def)

lemma path_to_updated: "(owns (heap[c := v]))\<^sup>*\<^sup>* d c \<Longrightarrow> (owns heap)\<^sup>*\<^sup>* d c"
proof (induction rule: converse_rtranclp_induct)
  case (step d e)
  then show ?case
    by (cases "d = c") (auto simp: owns_update intro: converse_rtranclp_into_rtranclp)
qed simp

lemma path_through_updated:
  "(owns (heap[c := v]))\<^sup>+\<^sup>+ x y \<Longrightarrow>
     (owns heap)\<^sup>+\<^sup>+ x y \<or> (owns (heap[c := v]))\<^sup>*\<^sup>* x c \<and> (owns (heap[c := v]))\<^sup>+\<^sup>+ c y"
proof (induction rule: tranclp_induct)
  case (base y)
  then show ?case by (cases "x = c") (auto simp: owns_update)
next
  case (step y z)
  have "owns heap y z" if "y \<noteq> c" using step.hyps(2) that by (simp add: owns_update)
  with step show ?case
    by (metis tranclp.r_into_trancl tranclp.trancl_into_trancl tranclp_into_rtranclp)
qed

lemma acyclic_update:
  assumes "acyclic_heap heap" and "\<not> value_reaches heap v c"
  shows "acyclic_heap (heap[c := v])"
  unfolding acyclic_heap_def
proof (intro allI notI)
  fix x
  let ?owns = "owns (heap[c := v])"
  assume "?owns\<^sup>+\<^sup>+ x x"
  with assms(1) have "?owns\<^sup>*\<^sup>* x c" "?owns\<^sup>+\<^sup>+ c x"
    using path_through_updated [of heap c v x x] by (auto simp: acyclic_heap_def)
  then have "?owns\<^sup>+\<^sup>+ c c" by (rule tranclp_rtranclp_tranclp [rotated])
  then obtain d where "?owns c d" "?owns\<^sup>*\<^sup>* d c" by (metis tranclpD)
  then have "d \<in> set (value_cells v)" "(owns heap)\<^sup>*\<^sup>* d c"
    by (auto simp: owns_update dest: path_to_updated)
  with assms(2) show False by (auto simp: value_reaches_def)
qed

text \<open>The cells a value mentions are among the first \<open>n\<close>.\<close>

definition confined :: "nat \<Rightarrow> Value \<Rightarrow> bool" where
  "confined n v \<longleftrightarrow> (\<forall>c \<in> set (value_cells v). c < n)"

definition store_ok :: "Store \<Rightarrow> bool" where
  "store_ok st \<longleftrightarrow> (\<forall>v \<in> set (cells st). confined (length (cells st)) v) \<and> acyclic_heap (cells st)"

lemma confined_mono: "confined n v \<Longrightarrow> n \<le> m \<Longrightarrow> confined m v"
  by (auto simp: confined_def)

lemma acyclic_append:
  assumes "\<forall>w \<in> set heap. confined (length heap) w" and "confined (length heap) v"
    and "acyclic_heap heap"
  shows "acyclic_heap (heap @ [v])"
proof -
  let ?owns = "owns (heap @ [v])"
  have old: "owns heap a b" if "?owns a b" "a < length heap" for a b
    using that by (auto simp: owns_def nth_append)
  have below: "b < length heap" if "?owns a b" for a b
    using that assms by (auto simp: owns_def nth_append confined_def split: if_splits)
  have "(owns heap)\<^sup>+\<^sup>+ a b" if "?owns\<^sup>+\<^sup>+ a b" "a < length heap" for a b
    using that
  proof (induction rule: tranclp_induct)
    case (step y z)
    then have "y < length heap" by (metis below tranclp.cases)
    with step show ?case using old by (meson tranclp.trancl_into_trancl)
  qed (auto dest: old)
  moreover have "a < length heap" if "?owns\<^sup>+\<^sup>+ a a" for a
    using that below by (metis tranclp.cases)
  ultimately show ?thesis using assms(3) by (auto simp: acyclic_heap_def)
qed

lemma store_ok_update:
  assumes "store_ok st" and "confined (length (cells st)) v" and "\<not> value_reaches (cells st) v c"
  shows "store_ok (st\<lparr>cells := (cells st)[c := v]\<rparr>)"
  using assms by (auto simp: store_ok_def acyclic_update dest: set_update_subset_insert [THEN subsetD])

lemma store_ok_append:
  assumes "store_ok st" and "confined (length (cells st)) v"
  shows "store_ok (st\<lparr>cells := cells st @ [v]\<rparr>)"
  using assms by (auto simp: store_ok_def acyclic_append intro: confined_mono)

section \<open>The machine\<close>

text \<open>
  What a host function is relied on to do with the store it is lent: cells are not freed under the
  machine, every value it leaves behind mentions existing cells, and it ties no cycle.
\<close>

definition respectful :: "'c HostFunction \<Rightarrow> bool" where
  "respectful f \<longleftrightarrow> (\<forall>ctx st arguments r ctx' st'.
     store_ok st \<longrightarrow> (\<forall>v \<in> set arguments. confined (length (cells st)) v) \<longrightarrow>
     f (ctx, st) arguments = (r, ctx', st') \<longrightarrow>
     store_ok st' \<and> length (cells st) \<le> length (cells st') \<and>
     (\<forall>v. r = Inr (Some v) \<longrightarrow> confined (length (cells st')) v))"

definition hosts_respectful :: "'c Vm \<Rightarrow> bool" where
  "hosts_respectful vm \<longleftrightarrow> (\<forall>f \<in> set (host_functions vm). respectful f) \<and>
     (\<forall>d name. host_dispatcher vm = Some d \<longrightarrow> respectful (\<lambda>ctx. d ctx name))"

definition holds :: "'c Vm \<Rightarrow> Value \<Rightarrow> bool" where
  "holds vm v \<longleftrightarrow> confined (length (cells (store vm))) v"

definition ownership_ok :: "'c Vm \<Rightarrow> bool" where
  "ownership_ok vm \<longleftrightarrow> store_ok (store vm) \<and> hosts_respectful vm \<and>
     (\<forall>v \<in> set (stack vm). holds vm v) \<and> (\<forall>v \<in> set (locals vm). holds vm v) \<and>
     (\<forall>v \<in> set (constants (program vm)). holds vm v) \<and>
     (\<forall>a c. capture_cells vm a = Some c \<longrightarrow> c < length (cells (store vm)))"

lemma holds_simps [simp]:
  "holds vm VNull" "holds vm (VInt i)" "holds vm (VFloat f)" "holds vm (VBool b)"
  "holds vm (VString s)" "holds vm (VBytes bs)" "holds vm (function_item pid k)"
  "holds vm (VArray vs) \<longleftrightarrow> (\<forall>v \<in> set vs. holds vm v)"
  "holds vm (VMap es) \<longleftrightarrow> (\<forall>(k, v) \<in> set es. holds vm k \<and> holds vm v)"
  "holds vm (VCallable c) \<longleftrightarrow> (\<forall>a \<in> set (env_cells (callable_env c)). a < length (cells (store vm)))"
  by (auto simp: holds_def confined_def function_item_def)

lemma holds_update [simp]:
  "holds (vm\<lparr>ip := i\<rparr>) = holds vm" "holds (vm\<lparr>stack := st\<rparr>) = holds vm"
  "holds (vm\<lparr>locals := ls\<rparr>) = holds vm" "holds (vm\<lparr>capture_cells := cs\<rparr>) = holds vm"
  "holds (vm\<lparr>frames := fs\<rparr>) = holds vm" "holds (vm\<lparr>fuel := f\<rparr>) = holds vm"
  "holds (set_local_slot a w vm) = holds vm" "holds (set_cell b w vm) = holds vm"
  by (simp_all add: holds_def fun_eq_iff set_local_slot_def set_cell_def)

lemma ownership_update:
  assumes "ownership_ok vm"
  shows "ownership_ok (vm\<lparr>ip := i\<rparr>)" "ownership_ok (vm\<lparr>frames := fs\<rparr>)"
    "ownership_ok (vm\<lparr>fuel := f\<rparr>)"
    "(\<And>v. v \<in> set st \<Longrightarrow> holds vm v) \<Longrightarrow> ownership_ok (vm\<lparr>stack := st\<rparr>)"
    "(\<And>v. v \<in> set ls \<Longrightarrow> holds vm v) \<Longrightarrow> ownership_ok (vm\<lparr>locals := ls\<rparr>)"
    "holds vm w \<Longrightarrow> ownership_ok (set_local_slot a w vm)"
    "(\<And>a c. cs a = Some c \<Longrightarrow> c < length (cells (store vm))) \<Longrightarrow> ownership_ok (vm\<lparr>capture_cells := cs\<rparr>)"
    "holds vm w \<Longrightarrow> \<not> value_reaches (cells (store vm)) w b \<Longrightarrow> ownership_ok (set_cell b w vm)"
  using assms store_ok_update [of "store vm" w b]
  by (auto simp: ownership_ok_def hosts_respectful_def set_local_slot_def set_cell_def holds_def
      dest: set_update_subset_insert [THEN subsetD])

lemma ownership_D:
  assumes "ownership_ok vm"
  shows "v \<in> set (stack vm) \<Longrightarrow> holds vm v" "v \<in> set (locals vm) \<Longrightarrow> holds vm v"
    "v \<in> set (constants (program vm)) \<Longrightarrow> holds vm v"
    "capture_cells vm a = Some c \<Longrightarrow> c < length (cells (store vm))"
    "c < length (cells (store vm)) \<Longrightarrow> holds vm (cell_value vm c)"
    "stack vm \<noteq> [] \<Longrightarrow> holds vm (last (stack vm))"
    "v \<in> set (butlast (stack vm)) \<Longrightarrow> holds vm v"
    "v \<in> set (take n (stack vm)) \<Longrightarrow> holds vm v" "v \<in> set (drop n (stack vm)) \<Longrightarrow> holds vm v"
    "n < length (stack vm) \<Longrightarrow> holds vm (stack vm ! n)"
    "n < length (locals vm) \<Longrightarrow> holds vm (locals vm ! n)"
    "v \<in> set (take n (locals vm)) \<Longrightarrow> holds vm v"
  using assms
  by (auto simp: ownership_ok_def cell_value_def store_ok_def holds_def
      dest: in_set_butlastD in_set_takeD in_set_dropD)

text \<open>A method that keeps the machine in order, whatever its outcome.\<close>

definition owning :: "('c, 'a) VmMethod \<Rightarrow> bool" where
  "owning m \<longleftrightarrow> (\<forall>vm. ownership_ok vm \<longrightarrow> wp m (\<lambda>_. ownership_ok) (\<lambda>_. ownership_ok) vm)"

named_theorems owning_rules "methods that keep the machine in order"

lemma owning_I: "(\<And>vm. ownership_ok vm \<Longrightarrow> wp m (\<lambda>_. ownership_ok) (\<lambda>_. ownership_ok) vm) \<Longrightarrow> owning m"
  by (simp add: owning_def)

lemma owning_intros [owning_rules]:
  "owning (ok x)" "owning (err e)" "owning (self h)" "owning (ok_or y e)" "owning (guard_err b e)"
  "owning (lift_result r)" "owning m \<Longrightarrow> (\<And>z. owning (k z)) \<Longrightarrow> owning (and_then m k)"
  "owning m \<Longrightarrow> owning n \<Longrightarrow> owning (then_do m n)"
  "(\<And>vm. ownership_ok vm \<Longrightarrow> ownership_ok (u vm)) \<Longrightarrow> owning (update u)"
  by (auto simp: owning_def wp_simps split: option.splits sum.splits intro: wp_use)

lemma owning_use: "owning m \<Longrightarrow> ownership_ok vm \<Longrightarrow> (\<And>x t. ownership_ok t \<Longrightarrow> Q x t) \<Longrightarrow>
   wp m Q (\<lambda>_. ownership_ok) vm"
  by (auto simp: owning_def intro: wp_use)

lemma owning_reads [owning_rules]:
  "owning read_u8" "owning (read_array n)" "owning read_u16" "owning read_u32" "owning (jump t)"
  unfolding read_u8_def read_array_def read_u16_def read_u32_def jump_def Let_def
  by (auto intro!: owning_rules intro: ownership_update)

lemma push_owning: "ownership_ok vm \<Longrightarrow> holds vm v \<Longrightarrow> ownership_ok (vm\<lparr>stack := stack vm @ [v]\<rparr>)"
  by (auto intro!: ownership_update dest: ownership_D)

lemma push_plain [owning_rules]:
  "owning (push VNull)" "owning (push (VInt i))" "owning (push (VFloat f))" "owning (push (VBool b))"
  by (auto simp: owning_def wp_simps intro: push_owning)

lemma pop_owning [owning_rules]: "owning pop"
  by (auto simp: owning_def wp_simps intro!: ownership_update dest: ownership_D)

lemma pops_owning [owning_rules]:
  "owning pop_numeric" "owning pop_int" "owning pop_bool"
  unfolding pop_numeric_def pop_int_def pop_bool_def
  by (auto intro!: owning_rules split: Value.split)

lemma arithmetic_owning [owning_rules]:
  "owning pop_shift" "owning neg" "owning (numeric_compare p q)" "owning (numeric_binary g h)"
  unfolding pop_shift_def neg_def numeric_binary_def numeric_compare_def
  by (auto intro!: owning_rules split: NumericValue.split)

lemma add_values_holds: "add_values v w = Some u \<Longrightarrow> holds vm v \<Longrightarrow> holds vm w \<Longrightarrow> holds vm u"
  by (auto simp: add_values_def split: Value.splits)

lemma concat_values_holds: "concat_values v w = Some u \<Longrightarrow> holds vm v \<Longrightarrow> holds vm w \<Longrightarrow> holds vm u"
  by (auto simp: concat_values_def split: Value.splits)

lemma map_set_holds:
  "holds vm (VMap es) \<Longrightarrow> holds vm k \<Longrightarrow> holds vm v \<Longrightarrow> holds vm (VMap (map_set es k v))"
  by (induction es k v rule: map_set.induct) auto

lemma add_owning [owning_rules]: "owning add"
proof (rule owning_I)
  fix vm :: "'c Vm"
  assume vm: "ownership_ok vm"
  let ?popped = "vm\<lparr>stack := butlast (butlast (stack vm))\<rparr>"
  have "ownership_ok ?popped" "ownership_ok (vm\<lparr>stack := butlast (stack vm)\<rparr>)"
    using vm by (auto intro!: ownership_update intro: ownership_D dest: in_set_butlastD)
  moreover have "holds vm (last (stack vm))" if "stack vm \<noteq> []" using vm that by (rule ownership_D)
  moreover have "holds vm (last (butlast (stack vm)))" if "butlast (stack vm) \<noteq> []"
    using vm that by (metis last_in_set ownership_D(7))
  ultimately show "wp add (\<lambda>_. ownership_ok) (\<lambda>_. ownership_ok) vm"
    using vm push_owning [of ?popped]
    by (auto simp: add_def wp_simps split: option.splits dest: add_values_holds)
qed

lemma local_owning [owning_rules]: "owning (load_local i)" "owning (stloc i)"
proof -
  show "owning (load_local i)"
    by (rule owning_I) (auto simp: load_local_def wp_simps Let_def
      intro!: push_owning intro: ownership_D split: option.split)
  show "owning (stloc i)"
  proof (rule owning_I)
    fix vm :: "'c Vm"
    assume vm: "ownership_ok vm"
    let ?popped = "vm\<lparr>stack := butlast (stack vm)\<rparr>"
    have "ownership_ok ?popped" using vm by (auto intro!: ownership_update intro: ownership_D)
    moreover have "holds ?popped (last (stack vm))" if "stack vm \<noteq> []"
      using vm that by (simp add: ownership_D)
    ultimately show "wp (stloc i) (\<lambda>_. ownership_ok) (\<lambda>_. ownership_ok) vm"
      using vm by (auto simp: stloc_def wp_simps Let_def
        references_iff_reaches intro!: ownership_update split: option.split)
  qed
qed

section \<open>Closures\<close>

text \<open>Allocation leaves what was held held, and the new address is inside the store.\<close>

lemma holds_mono:
  "holds vm v \<Longrightarrow> length (cells (store vm)) \<le> length (cells (store vm')) \<Longrightarrow> holds vm' v"
  by (auto simp: holds_def intro: confined_mono)

lemma alloc_cell_ok:
  assumes "ownership_ok vm" and "holds vm v"
  shows "wp (alloc_cell v) (\<lambda>a vm'. ownership_ok vm' \<and> (\<forall>w. holds vm w \<longrightarrow> holds vm' w) \<and>
    length (cells (store vm)) \<le> length (cells (store vm')) \<and> a < length (cells (store vm'))) E vm"
  using assms store_ok_append [of "store vm" v]
  by (auto simp: alloc_cell_def wp_simps ownership_ok_def hosts_respectful_def holds_def
    intro: confined_mono less_SucI)

lemma fresh_identity_ok: "wp fresh_identity Q E vm =
   Q (next_identity (store vm)) (vm\<lparr>store := (store vm)\<lparr>next_identity := next_identity (store vm) + 1\<rparr>\<rparr>)"
  by (simp add: fresh_identity_def wp_simps)

lemma bind_capture_ok:
  assumes "ownership_ok vm" and "holds vm v"
  shows "wp (bind_capture pid own base v source capture mode) (\<lambda>a vm'. ownership_ok vm' \<and>
     (\<forall>w. holds vm w \<longrightarrow> holds vm' w) \<and> length (cells (store vm)) \<le> length (cells (store vm')) \<and>
     a < length (cells (store vm'))) (\<lambda>_. ownership_ok) vm"
proof -
  note alloc = alloc_cell_ok [OF assms]
  have insert: "wp (capture_cell_or_insert absolute v) (\<lambda>a vm'. ownership_ok vm' \<and>
     (\<forall>w. holds vm w \<longrightarrow> holds vm' w) \<and> length (cells (store vm)) \<le> length (cells (store vm')) \<and>
     a < length (cells (store vm'))) (\<lambda>_. ownership_ok) vm" for absolute
  proof (cases "capture_cells vm absolute")
    case None
    show ?thesis unfolding capture_cell_or_insert_def
      by (simp add: wp_simps None, rule wp_use [OF alloc])
        (auto simp: wp_simps intro!: ownership_update dest: ownership_D split: if_splits)
  qed (use assms in \<open>auto simp: capture_cell_or_insert_def wp_simps dest: ownership_D\<close>)
  show ?thesis
    unfolding bind_capture_def
    by (auto simp: wp_simps assms(1) split: option.split intro!: wp_use [OF alloc] wp_use [OF insert] ownership_update
      intro: ownership_D)
qed


lemma bind_captures_ok:
  fixes vm :: "'c Vm"
  assumes "ownership_ok vm" and "\<And>v. v \<in> fst ` fst ` fst ` set cs \<Longrightarrow> holds vm v"
  shows "wp (bind_captures pid own base cs) (\<lambda>env vm'. ownership_ok vm' \<and>
     length (cells (store vm)) \<le> length (cells (store vm')) \<and>
     (\<forall>a \<in> set env. a < length (cells (store vm')))) (\<lambda>_. ownership_ok) vm"
  using assms
proof (induction cs arbitrary: vm)
  case (Cons c cs)
  obtain v source capture mode where c: "c = (((v, source), capture), mode)" by (metis surj_pair)
  have "wp (bind_capture pid own base v source capture mode) (\<lambda>a vm'. ownership_ok vm' \<and>
     (\<forall>w. holds vm w \<longrightarrow> holds vm' w) \<and> length (cells (store vm)) \<le> length (cells (store vm')) \<and>
     a < length (cells (store vm'))) (\<lambda>_. ownership_ok) vm"
    using Cons.prems c by (intro bind_capture_ok) force+
  moreover have "wp (bind_captures pid own base cs) (\<lambda>env vm'. ownership_ok vm' \<and>
       length (cells (store t)) \<le> length (cells (store vm')) \<and>
       (\<forall>a \<in> set env. a < length (cells (store vm')))) (\<lambda>_. ownership_ok) t"
    if "ownership_ok t" "\<forall>w. holds vm w \<longrightarrow> holds t w" for t :: "'c Vm"
    by (rule Cons.IH [OF that(1)]) (use Cons.prems(2) that(2) in \<open>simp add: image_iff; blast\<close>)
  ultimately show ?case
    unfolding c bind_captures.simps wp_simps
    by (elim wp_use) (force elim: wp_use simp: wp_simps)+
qed (simp add: wp_simps)

lemma bind_callable_value_ok:
  assumes "ownership_ok vm" and "\<And>v. v \<in> set captures \<Longrightarrow> holds vm v"
  shows "wp (bind_callable_value pid captures) (\<lambda>v vm'. ownership_ok vm' \<and> holds vm' v) (\<lambda>_. ownership_ok) vm"
proof -
  have fresh: "ownership_ok (vm\<lparr>store := (store vm)\<lparr>next_identity := n\<rparr>\<rparr>)" if "ownership_ok vm" for vm :: "'c Vm" and n
    using that by (auto simp: ownership_ok_def holds_def store_ok_def hosts_respectful_def)
  show ?thesis
    unfolding bind_callable_value_def
    using assms
    by (auto simp: wp_simps fresh_identity_ok fresh split: option.split
      intro!: wp_use [OF bind_captures_ok [OF assms(1)]] dest!: set_zip_leftD)
qed

section \<open>Calls\<close>

lemma builtin_step_owning [owning_rules]:
  "owning (require_builtin_arity name a b)" "owning (stack_start n)"
  unfolding require_builtin_arity_def stack_start_def by (auto intro!: owning_rules)

lemma finish_owning: "ownership_ok vm \<Longrightarrow> holds vm v \<Longrightarrow> ownership_ok (vm\<lparr>stack := take n (stack vm) @ [v]\<rparr>)"
  by (auto intro!: ownership_update intro: ownership_D)

lemma operand_holds:
  "ownership_ok vm \<Longrightarrow> n \<le> length (stack vm) \<Longrightarrow> k < n \<Longrightarrow> holds vm (stack vm ! (length (stack vm) - n + k))"
  by (rule ownership_D) auto

lemma concat_owning [owning_rules]: "owning (builtin_concat argc)"
proof (rule owning_I)
  fix vm :: "'c Vm"
  assume vm: "ownership_ok vm"
  then show "wp (builtin_concat argc) (\<lambda>_. ownership_ok) (\<lambda>_. ownership_ok) vm"
    using operand_holds [OF vm, of 2 0] operand_holds [OF vm, of 2 1]
    by (auto simp: builtin_concat_def wp_simps split: option.split intro!: finish_owning dest: concat_values_holds)
qed

lemma array_push_owning [owning_rules]: "owning (builtin_array_push argc)"
proof (rule owning_I)
  fix vm :: "'c Vm"
  assume vm: "ownership_ok vm"
  then show "wp (builtin_array_push argc) (\<lambda>_. ownership_ok) (\<lambda>_. ownership_ok) vm"
    using operand_holds [OF vm, of 2 0] operand_holds [OF vm, of 2 1]
    by (auto simp: builtin_array_push_def wp_simps split: Value.split intro!: finish_owning)
qed

lemma set_owning [owning_rules]: "owning (builtin_set argc)"
proof (rule owning_I)
  fix vm :: "'c Vm"
  assume vm: "ownership_ok vm"
  then show "wp (builtin_set argc) (\<lambda>_. ownership_ok) (\<lambda>_. ownership_ok) vm"
    using operand_holds [OF vm, of 3 0] operand_holds [OF vm, of 3 1] operand_holds [OF vm, of 3 2]
    by (auto simp: builtin_set_def wp_simps split: Value.split intro!: finish_owning map_set_holds
      simp del: holds_simps(9))
qed

lemma detach_owning [owning_rules]: "owning (builtin_detach_local argc)"
  by (rule owning_I) (auto simp: builtin_detach_local_def wp_simps Let_def
    split: Value.split option.split if_splits intro!: ownership_update intro: ownership_D)

lemma bind_callable_owning [owning_rules]: "owning (builtin_bind_callable argc)"
proof (rule owning_I)
  fix vm :: "'c Vm"
  assume vm: "ownership_ok vm"
  then show "wp (builtin_bind_callable argc) (\<lambda>_. ownership_ok) (\<lambda>_. ownership_ok) vm"
    using operand_holds [OF vm, of 2 1]
    by (auto simp: builtin_bind_callable_def wp_simps split: Value.split option.split
      intro!: finish_owning wp_use [OF bind_callable_value_ok])
qed

lemma new_owning [owning_rules]: "owning (builtin_array_new argc)" "owning (builtin_map_new argc)"
  by (auto simp: owning_def builtin_array_new_def builtin_map_new_def wp_simps intro!: push_owning)


lemma invoke_host_ok:
  assumes "ownership_ok vm" and "respectful f" and "\<And>v. v \<in> set arguments \<Longrightarrow> holds vm v"
  shows "wp (invoke_host f arguments)
    (\<lambda>r vm'. ownership_ok vm' \<and> (\<forall>v. r = Some v \<longrightarrow> holds vm' v)) (\<lambda>_. ownership_ok) vm"
proof -
  obtain r ctx st where f: "f (host_context vm, store vm) arguments = (r, ctx, st)" by (metis prod_cases3)
  have st: "store_ok st" "length (cells (store vm)) \<le> length (cells st)"
    "r = Inr (Some v) \<Longrightarrow> confined (length (cells st)) v" for v
    using assms f unfolding respectful_def ownership_ok_def holds_def by blast+
  have "c < length (cells st)" if "capture_cells vm a = Some c" for a c
    using ownership_D(4) [OF assms(1) that] st(2) by simp
  then have "ownership_ok (vm\<lparr>host_context := ctx, store := st\<rparr>)"
    using assms(1) st
    by (auto simp: ownership_ok_def holds_def hosts_respectful_def intro: confined_mono)
  then show ?thesis
    using st(3) by (auto simp: wp_def invoke_host_def f holds_def split: sum.splits)
qed

lemma resolve_respectful:
  "ownership_ok vm \<Longrightarrow> resolve_host_call vm index name = Some f \<Longrightarrow> respectful f"
  by (auto simp: ownership_ok_def hosts_respectful_def resolve_host_call_def vec_get_def
    split: option.splits if_splits)

lemma import_call_owning:
  assumes "ownership_ok vm" and "resolve_host_call vm index name = Some f"
  shows "wp (invoke_host f (drop n (stack vm))) (\<lambda>result. wp (then_do
           (update (\<lambda>vm. vm\<lparr>stack := take n (stack vm)\<rparr>))
           (case result of None \<Rightarrow> ok () | Some value \<Rightarrow> push value)) (\<lambda>_. ownership_ok) (\<lambda>_. ownership_ok))
         (\<lambda>_. ownership_ok) vm"
  by (rule wp_use [OF invoke_host_ok [OF assms(1) resolve_respectful [OF assms]]])
    (auto simp: wp_simps assms(1) ownership_D split: option.split
      intro!: finish_owning ownership_update intro: ownership_D)

lemma call_host_owning [owning_rules]: "owning (call_host index argc :: ('c, unit) VmMethod)"
proof (cases "call_core_builtin index argc :: ('c, unit) VmMethod option")
  case None
  show ?thesis
    by (rule owning_I) (auto simp: call_host_def None wp_simps split: option.split
      intro!: import_call_owning)
next
  case (Some m)
  then have "owning m"
    by (auto simp: call_core_builtin_def intro!: owning_rules split: if_splits)
  then show ?thesis by (simp add: call_host_def Some)
qed

text \<open>
  The steps of a call work on the locals, the captures and the frames; the store stays as it is.
\<close>

abbreviation framed :: "'c Vm \<Rightarrow> 'c Vm \<Rightarrow> bool" where
  "framed vm vm' \<equiv> ownership_ok vm' \<and> store vm' = store vm"

lemma framed_holds: "framed vm vm' \<Longrightarrow> holds vm' v \<longleftrightarrow> holds vm v"
  by (simp add: holds_def)

lemma inherited_callables_ok:
  assumes "ownership_ok vm"
  shows "wp inherited_callables (\<lambda>xs vm'. vm' = vm \<and> (\<forall>(slot, v) \<in> set xs. holds vm v)) (\<lambda>_. ownership_ok) vm"
proof -
  have "holds vm v" if "vec_range (locals vm) a b = Some r" "(slot, v) \<in> set (enumerate 0 r)" for a b r slot v
  proof -
    have "v \<in> set (locals vm)"
      using that by (auto simp: vec_range_def enumerate_eq_zip split: if_splits
        dest!: set_zip_rightD dest: in_set_takeD in_set_dropD)
    with assms show ?thesis by (rule ownership_D)
  qed
  then show ?thesis
    using assms by (auto simp: inherited_callables_def wp_simps split: sum.splits option.splits)
qed

lemma enter_frame_locals_ok:
  assumes vm: "ownership_ok vm" and "\<forall>(slot, v) \<in> set inherited. holds vm v"
  shows "wp (enter_frame_locals count inherited) (\<lambda>_. framed vm) (\<lambda>_. ownership_ok) vm"
proof -
  have resized: "framed vm (vm\<lparr>locals := vec_resize (locals vm) stop VNull\<rparr>)" for stop
    using vm by (auto intro!: ownership_update intro: ownership_D simp: vec_resize_def split: if_splits)
  have roots: "wp (bind_root_callable base count b) (\<lambda>_. framed vm) (\<lambda>_. ownership_ok) s"
    if "framed vm s" for base b s
    using that by (auto simp: bind_root_callable_def wp_simps Let_def split: option.split intro!: ownership_update)
  have inherit: "wp (place_inherited base count sv) (\<lambda>_. framed vm) (\<lambda>_. ownership_ok) s"
    if "framed vm s" "sv \<in> set inherited" for base sv s
    using that assms(2) framed_holds [OF that(1)]
    by (auto simp: place_inherited_def wp_simps intro!: ownership_update split: prod.split)
  show ?thesis
    unfolding enter_frame_locals_def
    by (auto simp: wp_simps vm resized split: sum.split
      intro!: wp_for_each [where I = "framed vm"] roots inherit)
qed

lemma bind_parameters_ok:
  assumes "framed vm s" and "\<And>v. v \<in> set operands \<Longrightarrow> holds vm v"
  shows "wp (for_each (zip slots operands) (bind_parameter pid base count)) (\<lambda>_. framed vm) (\<lambda>_. ownership_ok) s"
proof (rule wp_for_each [where I = "framed vm"])
  fix x t
  assume "x \<in> set (zip slots operands)" and t: "framed vm t"
  then have "holds t (snd x)" using assms(2) framed_holds [OF t] by (metis prod.collapse set_zip_rightD)
  then show "wp (bind_parameter pid base count x) (\<lambda>_. framed vm) (\<lambda>_. ownership_ok) t"
    using t by (auto simp: bind_parameter_def wp_simps intro!: ownership_update split: prod.split)
qed (use assms(1) in auto)

lemma bind_environment_ok:
  assumes "framed vm s" and "\<And>c. c \<in> set env \<Longrightarrow> c < length (cells (store vm))"
  shows "wp (for_each (zip slots env) (bind_environment_cell pid own base count))
    (\<lambda>_. framed vm) (\<lambda>_. ownership_ok) s"
proof (rule wp_for_each [where I = "framed vm"])
  fix x t
  assume "x \<in> set (zip slots env)" and t: "framed vm t"
  then have "snd x < length (cells (store t))" using assms(2) by (metis prod.collapse set_zip_rightD)
  then show "wp (bind_environment_cell pid own base count x) (\<lambda>_. framed vm) (\<lambda>_. ownership_ok) t"
    using t by (auto simp: bind_environment_cell_def wp_simps Let_def intro!: ownership_update
      intro: ownership_D dest: ownership_D(4) split: prod.split if_splits)
qed (use assms(1) in auto)

lemma push_frame_owning [owning_rules]: "owning (push_frame pid sbase base count f)"
  by (auto simp: push_frame_def owning_def wp_simps intro!: ownership_update)

lemma framed_use:
  assumes "wp m (\<lambda>_. framed vm) (\<lambda>_. ownership_ok) s" and "\<And>x t. framed vm t \<Longrightarrow> wp (k x) Q (\<lambda>_. ownership_ok) t"
  shows "wp m (\<lambda>x. wp (k x) Q (\<lambda>_. ownership_ok)) (\<lambda>_. ownership_ok) s"
  by (rule wp_use [OF assms(1)]) (auto intro: assms(2))

lemma call_script_function_ok:
  fixes vm :: "'c Vm"
  assumes vm: "ownership_ok vm" and callable: "holds vm (VCallable callable)"
    and operands: "\<And>v. v \<in> set operands \<Longrightarrow> holds vm v"
  shows "wp (call_script_function callable prototype sbase operands fid) (\<lambda>_. ownership_ok) (\<lambda>_. ownership_ok) vm"
proof -
  have env: "wp (case callable_env callable of None \<Rightarrow> ok () | Some env \<Rightarrow>
      for_each (zip (capture_slots prototype) env) (bind_environment_cell pid (self_slot prototype) base count))
      (\<lambda>_. framed vm) (\<lambda>_. ownership_ok) s" if "framed vm s" for s :: "'c Vm" and pid base count
    using that callable by (auto split: option.split simp: wp_simps intro!: bind_environment_ok)
  have own: "wp (case self_slot prototype of None \<Rightarrow> ok () | Some slot \<Rightarrow>
        then_do (guard_err (unat slot \<ge> count) (InvalidCallablePrototype pid))
          (update (set_local_slot (base + unat slot) (VCallable callable))))
      (\<lambda>_. framed vm) (\<lambda>_. ownership_ok) s" if "framed vm s" for s :: "'c Vm" and pid base count
    using that callable framed_holds [OF that] by (auto split: option.split simp: wp_simps intro!: ownership_update)
  have frame: "wp (push_frame pid sb base count f) (\<lambda>_. ownership_ok) (\<lambda>_. ownership_ok) s"
    if "framed vm s" for s :: "'c Vm" and pid sb base count f
    by (rule owning_use [OF push_frame_owning]) (use that in simp_all)
  have tail: "wp (for_each (zip (parameter_slots prototype) operands) (bind_parameter pid base count))
      (\<lambda>_. wp (case callable_env callable of None \<Rightarrow> ok () | Some env \<Rightarrow>
          for_each (zip (capture_slots prototype) env) (bind_environment_cell pid (self_slot prototype) base count))
        (\<lambda>_. wp (case self_slot prototype of None \<Rightarrow> ok () | Some slot \<Rightarrow>
            then_do (guard_err (unat slot \<ge> count) (InvalidCallablePrototype pid))
              (update (set_local_slot (base + unat slot) (VCallable callable))))
          (\<lambda>_. wp (push_frame pid sb base count f) (\<lambda>_. ownership_ok) (\<lambda>_. ownership_ok))
          (\<lambda>_. ownership_ok)) (\<lambda>_. ownership_ok)) (\<lambda>_. ownership_ok) s"
    if "framed vm s" for s :: "'c Vm" and pid base count sb f
    by (intro framed_use [where vm = vm] env own frame bind_parameters_ok [where vm = vm] that operands)
  show ?thesis
    unfolding call_script_function_def Let_def wp_simps
    by (auto simp: vm wp_ok_or split: option.split intro!: wp_use [OF inherited_callables_ok [OF vm]]
      wp_use [OF enter_frame_locals_ok [OF vm]] tail)
qed


lemma popped_ok:
  assumes "ownership_ok vm"
  shows "ownership_ok (vm\<lparr>stack := take n (stack vm)\<rparr>)" "v \<in> set (drop n (stack vm)) \<Longrightarrow> holds vm v"
  using assms by (auto intro!: ownership_update intro: ownership_D)

lemma call_value_owning [owning_rules]: "owning (call_value argc)"
proof (rule owning_I)
  fix vm :: "'c Vm"
  assume vm: "ownership_ok vm"
  have call: "wp (call_popped argc sb popped) (\<lambda>_. ownership_ok) (\<lambda>_. ownership_ok) t"
    if t: "ownership_ok t" and popped: "\<And>v. v \<in> set popped \<Longrightarrow> holds t v" for t :: "'c Vm" and popped sb
    using popped
    by (auto simp: call_popped_def wp_simps Let_def t split: list.split Value.split option.split CallableTarget.split
      intro!: call_script_function_ok owning_use [OF call_host_owning] ownership_update
      simp: ownership_D [OF t] simp del: holds_simps(10))
  show "wp (call_value argc) (\<lambda>_. ownership_ok) (\<lambda>_. ownership_ok) vm"
    unfolding call_value_def Let_def wp_simps
    by (auto simp: vm wp_simps popped_ok [OF vm] intro!: call)
qed

lemma call_script_owning [owning_rules]: "owning (call_script pid argc)"
proof (rule owning_I)
  fix vm :: "'c Vm"
  assume vm: "ownership_ok vm"
  have frame: "wp (push_frame p sb base count f) (\<lambda>_. ownership_ok) (\<lambda>_. ownership_ok) s"
    if "framed t s" for s t :: "'c Vm" and p sb base count f
    by (rule owning_use [OF push_frame_owning]) (use that in simp_all)
  have enter: "wp inherited_callables (\<lambda>inherited.
      wp (and_then (enter_frame_locals count inherited) (\<lambda>base.
        then_do (for_each (zip slots operands) (bind_parameter p base count)) (push_frame p sb base count f)))
      (\<lambda>_. ownership_ok) (\<lambda>_. ownership_ok)) (\<lambda>_. ownership_ok) t"
    if t: "ownership_ok t" and operands: "\<And>v. v \<in> set operands \<Longrightarrow> holds t v"
    for t :: "'c Vm" and count slots operands p sb f
    by (rule wp_use [OF inherited_callables_ok [OF t]])
      (auto simp: wp_simps intro!: wp_use [OF enter_frame_locals_ok [OF t]] framed_use [where vm = t]
        bind_parameters_ok operands frame)
  show "wp (call_script pid argc) (\<lambda>_. ownership_ok) (\<lambda>_. ownership_ok) vm"
    unfolding call_script_def Let_def wp_simps
    by (auto simp: vm wp_simps popped_ok [OF vm] split: option.split CallableTarget.split intro!: enter)
qed

lemma return_owning [owning_rules]: "owning return_from_frame"
proof (rule owning_I)
  fix vm :: "'c Vm"
  assume vm: "ownership_ok vm"
  have "holds vm (last (stack vm))" if "n < length (stack vm)" for n
    using that vm by (intro ownership_D(6)) auto
  then show "wp return_from_frame (\<lambda>_. ownership_ok) (\<lambda>_. ownership_ok) vm"
    using ownership_D(1,4,8,12) [OF vm]
    by (auto simp: return_from_frame_def wp_simps Let_def retain_outside_def vm
      split: sum.split if_splits intro!: ownership_update)
qed

lemma ldc_owning [owning_rules]: "owning ldc"
proof (rule owning_I)
  fix vm :: "'c Vm"
  assume vm: "ownership_ok vm"
  show "wp ldc (\<lambda>_. ownership_ok) (\<lambda>_. ownership_ok) vm"
    unfolding ldc_def wp_simps
    by (rule owning_use [OF _ vm]) (auto intro!: owning_rules push_owning ownership_D(3) simp: vec_get_def
      split: option.split if_splits)
qed

lemma dup_owning [owning_rules]: "owning dup"
  by (rule owning_I) (auto simp: dup_def wp_simps intro!: push_owning ownership_D(6))

lemma dispatch_owning [owning_rules]: "owning dispatch"
  unfolding dispatch_def exec_opcode_def
  by (auto intro!: owning_rules split: OpCode.split)

lemma run_step_owning [owning_rules]: "owning run_step"
  unfolding run_step_def charge_fuel_def
  by (auto intro!: owning_rules ownership_update split: option.split)


lemma run_owning: "run vm = Some (r, vm') \<Longrightarrow> ownership_ok vm \<Longrightarrow> ownership_ok vm'"
  by (rule run_invariant [where I = ownership_ok]) (auto intro!: owning_use [OF run_step_owning])

section \<open>The machine at the start\<close>

lemma initialize_root_callable_ownership:
  "ownership_ok vm \<Longrightarrow> ownership_ok (initialize_root_callable b vm)"
  by (auto simp: initialize_root_callable_def Let_def split: option.splits intro!: ownership_update
    dest!: set_update_subset_insert [THEN subsetD] intro: ownership_D)

lemma from_parts_ownership:
  assumes "\<forall>v \<in> set (constants p). value_cells v = []"
    and "\<forall>f \<in> set functions. respectful f" and "\<forall>d name. dispatcher = Some d \<longrightarrow> respectful (\<lambda>ctx. d ctx name)"
  shows "ownership_ok (from_parts p c functions dispatcher)"
proof -
  have fold: "ownership_ok (fold initialize_root_callable bs vm)" if "ownership_ok vm" for bs and vm :: "'a Vm"
    using that by (induction bs arbitrary: vm) (simp_all add: initialize_root_callable_ownership)
  have "acyclic_heap []" by (auto simp: acyclic_heap_def owns_def dest: tranclpD)
  then have "ownership_ok \<lparr>program = p, ip = 0, stack = [], locals = replicate n VNull,
            capture_cells = Map.empty, host_functions = functions, host_dispatcher = dispatcher,
            host_context = c, fuel = None, max_script_call_depth = DEFAULT_MAX_SCRIPT_CALL_DEPTH,
            frames = [], frame_allocation_error = e, store = \<lparr>cells = [], next_identity = 1\<rparr>\<rparr>" for n e
    using assms by (simp add: ownership_ok_def hosts_respectful_def store_ok_def holds_def confined_def)
  with fold show ?thesis
    unfolding from_parts_def initialize_root_callables_def Let_def by blast
qed

text \<open>
  A machine whose first local is captured by the callable \<open>tied\<close>.
\<close>

definition tied :: Value where
  "tied = VCallable (CallableValue 0 Closure (Some [0]) 1)"

definition captured_local :: "unit Vm" where
  "captured_local = (vm_new (with_local_count 1 (program_new [] [0x01] [])))
     \<lparr>locals := [VNull], capture_cells := [0 \<mapsto> 0], store := \<lparr>cells = [VNull], next_identity = 2\<rparr>\<rparr>"

lemma captured_local_ownership: "ownership_ok captured_local"
proof -
  have "acyclic_heap [VNull]" by (auto simp: acyclic_heap_def owns_def dest: tranclpD)
  moreover have "constants (program captured_local) = []" "stack captured_local = []" 
    "host_functions captured_local = []" "host_dispatcher captured_local = None"
    by (simp_all add: captured_local_def vm_new_def from_parts_def initialize_root_callables_def
      program_new_def with_local_count_def Let_def)
  ultimately show ?thesis
    by (simp add: ownership_ok_def hosts_respectful_def store_ok_def holds_def confined_def captured_local_def)
qed

section \<open>Properties\<close>

text \<open>
  C5. The search of \<open>value_references_capture_cell\<close> ends and decides reachability: it answers that
  a value references a cell exactly when the cell is reached from a cell in the value by
  following the environments of the callables that the cells hold.
\<close>

theorem capture_search_decides:
  "value_references_capture_cell heap v t \<longleftrightarrow>
     (\<exists>c \<in> set (value_cells v). (\<lambda>a b. a < length heap \<and> b \<in> set (value_cells (heap ! a)))\<^sup>*\<^sup>* c t)"
  using references_iff_reaches [of heap v t] by (simp add: value_reaches_def owns_def [abs_def])



text \<open>
  C6. The embedder's \<open>set_local\<close> does not check: it accepts a store through a captured local that
  the instruction \<open>Stloc\<close> refuses, and leaves a cell that owns itself.
\<close>

theorem set_local_ties_cycle:
  "\<exists>vm'. ownership_ok captured_local \<and> holds captured_local tied \<and>
     set_local 0 tied captured_local = (Inr (), vm') \<and> \<not> acyclic_heap (cells (store vm')) \<and>
     fst (stloc 0 (captured_local\<lparr>stack := [tied]\<rparr>)) =
       Inl (HostError ''callable capture ownership cycle is unsupported'')"
proof -
  have frames: "frames captured_local = []"
    by (simp add: captured_local_def vm_new_def from_parts_def initialize_root_callables_def
      program_new_def with_local_count_def Let_def)
  have base: "active_local_base captured_local = 0" "active_local_base (captured_local\<lparr>stack := [tied]\<rparr>) = 0"
    by (simp_all add: active_local_base_def frames)
  have shape: "locals captured_local = [VNull]" "capture_cells captured_local = [0 \<mapsto> 0]"
    "cells (store captured_local) = [VNull]"
    by (simp_all add: captured_local_def)
  have "set_local 0 tied captured_local = (Inr (), set_local_slot 0 tied (set_cell 0 tied captured_local))"
    by (simp add: set_local_def store_local_def absolute_local_def meth_defs checked_add_usize_def base shape)
  moreover have "value_references_capture_cell [VNull] tied 0"
    by (simp add: value_references_capture_cell_def tied_def)
  then have "fst (stloc 0 (captured_local\<lparr>stack := [tied]\<rparr>)) =
       Inl (HostError ''callable capture ownership cycle is unsupported'')"
    by (simp add: stloc_def absolute_local_def pop_def meth_defs checked_add_usize_def base shape)
  moreover have "owns [tied] 0 0" by (simp add: owns_def tied_def)
  then have "\<not> acyclic_heap [tied]" by (auto simp: acyclic_heap_def)
  moreover have "holds captured_local tied" by (simp add: tied_def captured_local_def)
  ultimately show ?thesis using captured_local_ownership shape by simp
qed

end
