(* ===== verification/WireProps.thy ===== *)
theory WireProps
  imports Wire Ownership
begin

text \<open>
  What the decoder of the freestanding runtime guarantees: it never reads past the end and never
  gives back budget, what it accepts cannot be extended or cut, and a program it accepts fits the
  limits the machine is built with.
\<close>

section \<open>Readers\<close>

text \<open>Every outcome leaves the bytes alone, moves forward inside them and spends budget.\<close>

definition advances :: "Cursor \<Rightarrow> Cursor \<Rightarrow> bool" where
  "advances c c' \<longleftrightarrow> bytes c' = bytes c \<and> offset c \<le> offset c' \<and>
     remaining_budget c' \<le> remaining_budget c \<and>
     (offset c \<le> length (bytes c) \<longrightarrow> offset c' \<le> length (bytes c))"

interpretation forward: frame_condition advances
  by unfold_locales (auto simp: advances_def)

text \<open>What a reader accepts it accepts also in front of more bytes.\<close>

definition more :: "u8 list \<Rightarrow> Cursor \<Rightarrow> Cursor" where
  "more x c = c\<lparr>bytes := bytes c @ x\<rparr>"

definition stable :: "'a Reader \<Rightarrow> bool" where
  "stable m \<longleftrightarrow> (\<forall>c y c' x. m c = (Inr y, c') \<longrightarrow> m (more x c) = (Inr y, more x c'))"

definition reader :: "'a Reader \<Rightarrow> bool" where
  "reader m \<longleftrightarrow> keeps advances m \<and> stable m"

named_theorems readers "the readers of the wire format"

lemma stable_and_then: "stable m \<Longrightarrow> (\<And>z. stable (k z)) \<Longrightarrow> stable (and_then m k)"
  unfolding stable_def and_then_Inr by blast

lemma reader_intros [readers]:
  "reader (ok x)" "reader (err e)" "reader (ok_or y e)" "reader (guard_err b e)" "reader (lift_result r)"
  "reader m \<Longrightarrow> (\<And>z. reader (k z)) \<Longrightarrow> reader (and_then m k)"
  "reader m \<Longrightarrow> reader n \<Longrightarrow> reader (then_do m n)"
  unfolding reader_def then_do_def
  by (auto intro!: forward.keeps_intros stable_and_then)
    (auto simp: stable_def meth_defs split: option.splits if_splits)

lemma reader_repeat [readers]:
  "reader m \<Longrightarrow> reader (repeat_collect n m)" "reader u \<Longrightarrow> reader (repeat_do n u)"
  by (induction n) (auto intro!: readers)

lemma reader_I:
  assumes "\<And>c y c'. m c = (y, c') \<Longrightarrow> advances c c'"
    and "\<And>c y c' x. m c = (Inr y, c') \<Longrightarrow> m (more x c) = (Inr y, more x c')"
  shows "reader m"
  using assms by (auto simp: reader_def stable_def intro: keeps_I)

lemma reader_read_u8 [readers]: "reader cursor_read_u8"
  by (rule reader_I) (auto simp: cursor_read_u8_def meth_defs vec_get_def advances_def more_def nth_append
    split: if_splits)

lemma reader_read_exact [readers]: "reader (cursor_read_exact n)"
  by (rule reader_I) (auto simp: cursor_read_exact_def meth_defs vec_range_def checked_add_usize_def
    advances_def more_def split: if_splits)

lemma reader_debit [readers]: "reader (cursor_debit_count field n)"
  by (rule reader_I) (auto simp: cursor_debit_count_def meth_defs checked_sub_usize_def advances_def more_def
    split: if_splits option.splits)

lemma reader_validate [readers]: "reader (cursor_validate_count_with_overhead field n m k)"
  by (rule reader_I) (auto simp: cursor_validate_count_with_overhead_def meth_defs checked_mul_usize_def
    checked_add_usize_def cursor_remaining_def advances_def more_def split: if_splits option.splits)

lemmas scalar_reader_defs = cursor_read_bool_def cursor_read_u16_def cursor_read_u32_def
  cursor_read_i64_def cursor_read_f64_def cursor_read_blob_def cursor_read_string_def
  cursor_skip_string_def cursor_validate_count_def cursor_read_count_with_overhead_def
  cursor_read_count_def cursor_read_limited_count_def cursor_skip_count_def read_value_type_def

lemma reader_scalars [readers]:
  "reader cursor_read_bool" "reader cursor_read_u16" "reader cursor_read_u32"
  "reader cursor_read_i64" "reader cursor_read_f64" "reader (cursor_read_blob field)"
  "reader cursor_read_string" "reader cursor_skip_string" "reader (cursor_validate_count field n m)"
  "reader (cursor_read_count_with_overhead field n m)" "reader (cursor_read_count field n)"
  "reader (cursor_read_limited_count field)" "reader (cursor_skip_count field n m)"
  "reader (read_value_type raw)"
  unfolding scalar_reader_defs Let_def by (auto intro!: readers)

lemma reader_constant [readers]: "reader (read_constant depth)"
proof (induction depth rule: read_constant.induct)
  case (1 depth)
  then show ?case by (subst read_constant.simps) (auto intro!: readers)
qed

lemma reader_schema [readers]: "reader (skip_schema depth)"
proof (induction depth rule: skip_schema.induct)
  case (1 depth)
  then show ?case
    by (subst skip_schema.simps) (auto intro!: readers simp: skip_resource_key_def)
qed

lemma reader_host_schema [readers]: "reader (skip_host_schema depth)"
proof (induction depth rule: skip_host_schema.induct)
  case (1 depth)
  then show ?case by (subst skip_host_schema.simps) (auto intro!: readers)
qed

lemma reader_distinct [readers]: "reader (read_distinct_strings n seen)"
  by (induction n seen rule: read_distinct_strings.induct) (auto intro!: readers)

lemma reader_decls [readers]: "reader (skip_named_struct_decl_list n seen)"
  by (induction n seen rule: skip_named_struct_decl_list.induct) (auto intro!: readers)

lemmas skipped_section_defs = skip_host_import_parameter_def skip_host_import_schema_def
  skip_bool_vector_def skip_value_type_def skip_optional_schema_def skip_operand_types_def
  skip_type_map_def skip_optional_u32_def skip_debug_function_def skip_debug_local_def
  skip_debug_info_def skip_named_struct_decls_def

lemma reader_sections [readers]:
  "reader skip_host_import_schema" "reader skip_type_map" "reader skip_debug_info" "reader skip_named_struct_decls"
  unfolding skipped_section_defs Let_def by (auto intro!: readers)

lemma reader_optional [readers]: "reader m \<Longrightarrow> reader (read_optional m)"
  unfolding read_optional_def by (auto intro!: readers)

lemmas metadata_reader_defs = read_script_function_def read_callable_kind_def read_callable_target_def
  read_slots_def read_capture_mode_def read_callable_prototype_def read_function_region_def
  read_root_callable_binding_def read_exported_callable_def read_callable_metadata_def

lemma reader_metadata_parts [readers]:
  "reader read_script_function" "reader read_callable_kind" "reader read_callable_target"
  "reader (read_slots field)" "reader read_capture_mode" "reader read_function_region"
  "reader read_root_callable_binding" "reader read_exported_callable"
  unfolding metadata_reader_defs by (auto intro!: readers)

lemma reader_metadata [readers]: "reader read_callable_prototype" "reader read_callable_metadata"
  unfolding read_callable_prototype_def read_callable_metadata_def by (auto intro!: readers)

lemma reader_header [readers]: "reader read_header" "reader (read_host_import b)"
  unfolding read_header_def read_host_import_def by (auto intro!: readers)

lemma reader_sections_all [readers]: "reader read_sections"
  unfolding read_sections_def by (auto intro!: readers split: prod.split)

section \<open>What readers return\<close>

definition yields :: "('a \<Rightarrow> bool) \<Rightarrow> 'a Reader \<Rightarrow> bool" where
  "yields P m \<longleftrightarrow> (\<forall>c x c'. m c = (Inr x, c') \<longrightarrow> P x)"

named_theorems yield_rules "what readers return"

lemma yields_intros [yield_rules]:
  "P x \<Longrightarrow> yields P (ok x)" "yields P (err e)" "(\<And>z. yields P (k z)) \<Longrightarrow> yields P (and_then m k)"
  "yields P n \<Longrightarrow> yields P (then_do m' n)"
  unfolding yields_def then_do_def and_then_Inr by (auto simp: meth_defs)

lemma yields_and_then: "yields R m \<Longrightarrow> (\<And>z. R z \<Longrightarrow> yields P (k z)) \<Longrightarrow> yields P (and_then m k)"
  unfolding yields_def and_then_Inr by blast

lemma yields_repeat: "yields P m \<Longrightarrow> yields (\<lambda>xs. length xs = n \<and> list_all P xs) (repeat_collect n m)"
proof (induction n)
  case (Suc n)
  then show ?case
    by (simp, intro yields_and_then [OF Suc.prems] yields_and_then [OF Suc.IH [OF Suc.prems]])
      (simp add: yield_rules)
qed (auto intro!: yield_rules)

text \<open>Nesting of constants, and how many values they hold below the top.\<close>

fun value_depth :: "Value \<Rightarrow> nat" where
  "value_depth (VArray vs) = Suc (foldr max (map value_depth vs) 0)"
| "value_depth (VMap es) = Suc (foldr max (map (\<lambda>(k, v). max (value_depth k) (value_depth v)) es) 0)"
| "value_depth _ = Suc 0"

fun value_nodes :: "Value \<Rightarrow> nat" where
  "value_nodes (VArray vs) = length vs + sum_list (map value_nodes vs)"
| "value_nodes (VMap es) = length es + sum_list (map (\<lambda>(k, v). value_nodes k + value_nodes v) es)"
| "value_nodes _ = 0"

lemma foldr_max_le: "(\<forall>x \<in> set xs. f x \<le> n) \<Longrightarrow> foldr max (map f xs) 0 \<le> (n :: nat)"
  by (induction xs) auto

lemma nested_depth_le:
  assumes "depth < bound" and "\<forall>x \<in> set xs. f x + (depth + 1) \<le> bound"
  shows "Suc (foldr max (map f xs) 0) + depth \<le> (bound :: nat)"
  using foldr_max_le [of xs f "bound - (depth + 1)"] assms by fastforce

lemma constant_yields:
  "yields (\<lambda>v. value_cells v = [] \<and> value_depth v + depth \<le> MAX_CONSTANT_DEPTH) (read_constant depth)"
proof (induction depth rule: read_constant.induct)
  case (1 depth)
  let ?P = "\<lambda>v. value_cells v = [] \<and> value_depth v + (depth + 1) \<le> MAX_CONSTANT_DEPTH"
  show ?case
  proof (cases "MAX_CONSTANT_DEPTH \<le> depth")
    case True
    then show ?thesis by (subst read_constant.simps) (simp add: yield_rules)
  next
    case False
    then have d: "depth < MAX_CONSTANT_DEPTH" by simp
    have rec: "yields ?P (read_constant (depth + 1))" using 1(1) [of 6] False by simp
    have entry: "yields (\<lambda>(k, v). ?P k \<and> ?P v)
        (and_then (read_constant (depth + 1)) (\<lambda>k. and_then (read_constant (depth + 1)) (\<lambda>v. ok (k, v))))"
      by (rule yields_and_then [OF rec], rule yields_and_then [OF rec]) (simp add: yield_rules)
    let ?Q = "\<lambda>v. value_cells v = [] \<and> value_depth v + depth \<le> MAX_CONSTANT_DEPTH"
    have arrays: "yields ?Q (and_then (repeat_collect n (read_constant (depth + 1))) (\<lambda>vs. ok (VArray vs)))" for n
      by (rule yields_and_then [OF yields_repeat [OF rec]])
        (use nested_depth_le [OF d, where f = value_depth] in \<open>auto intro!: yield_rules simp: list_all_iff\<close>)
    have max_le: "Suc (max a b + depth) \<le> m \<longleftrightarrow> Suc (a + depth) \<le> m \<and> Suc (b + depth) \<le> m" for a b m
      by auto
    have maps: "yields ?Q (and_then (repeat_collect n
        (and_then (read_constant (depth + 1)) (\<lambda>k. and_then (read_constant (depth + 1)) (\<lambda>v. ok (k, v)))))
        (\<lambda>es. ok (VMap es)))" for n
      by (rule yields_and_then [OF yields_repeat [OF entry]])
        (use nested_depth_le [OF d, where f = "\<lambda>(k, v). max (value_depth k) (value_depth v)"] in
          \<open>auto intro!: yield_rules simp: list_all_iff split_beta max_le\<close>)
    show ?thesis
      using d by (subst read_constant.simps)
        (auto intro!: yields_intros arrays [simplified] maps [simplified])
  qed
qed

lemma prototype_yields: "yields (\<lambda>p. frame_local_count p \<le> MAX_FRAME_LOCAL_COUNT) read_callable_prototype"
proof -
  have count: "yields (\<lambda>n. n \<le> MAX_FRAME_LOCAL_COUNT) (cursor_read_limited_count field)" for field
    unfolding cursor_read_limited_count_def Let_def yields_def then_do_def and_then_Inr
    by (auto simp: meth_defs split: if_splits)
  show ?thesis
    unfolding read_callable_prototype_def
    by (intro yield_rules yields_and_then [OF count]) simp
qed

lemma type_map_yields: "yields (\<lambda>n. \<forall>k. n = Some k \<longrightarrow> k \<le> MAX_FRAME_LOCAL_COUNT) skip_type_map"
proof -
  have guard: "yields P (then_do (guard_err b e) m)" if "\<not> b \<Longrightarrow> yields P m" for b e P and m :: "'a Reader"
    using that by (auto simp: yields_def then_do_def and_then_Inr meth_defs split: if_splits)
  show ?thesis
    unfolding skip_type_map_def by (auto intro!: yield_rules guard split: if_splits)
qed

section \<open>What readers spend\<close>

text \<open>\<open>costs f m\<close>: a result \<open>x\<close> has cost at least \<open>f x\<close> of the item budget.\<close>

definition costs :: "('a \<Rightarrow> nat) \<Rightarrow> 'a Reader \<Rightarrow> bool" where
  "costs f m \<longleftrightarrow> (\<forall>c x c'. m c = (Inr x, c') \<longrightarrow> f x + remaining_budget c' \<le> remaining_budget c)"

lemma costs_and_then:
  assumes "costs g m" and "\<And>x. costs (\<lambda>y. f y - g x) (k x)"
  shows "costs f (and_then m k)"
  unfolding costs_def
proof (intro allI impI)
  fix c y c'
  assume "and_then m k c = (Inr y, c')"
  then obtain x d where "m c = (Inr x, d)" "k x d = (Inr y, c')" by (auto simp: and_then_Inr)
  then have "g x + remaining_budget d \<le> remaining_budget c" "f y - g x + remaining_budget c' \<le> remaining_budget d"
    using assms unfolding costs_def by blast+
  then show "f y + remaining_budget c' \<le> remaining_budget c" by linarith
qed

lemma reader_costs: "reader m \<Longrightarrow> costs (\<lambda>_. 0) m"
  by (auto simp: reader_def costs_def advances_def dest: keeps_D)

lemma costs_after: "reader m \<Longrightarrow> (\<And>x. costs f (k x)) \<Longrightarrow> costs f (and_then m k)"
  by (rule costs_and_then [OF reader_costs]) simp_all

lemma costs_then_do: "reader m \<Longrightarrow> costs f k \<Longrightarrow> costs f (then_do m k)"
  unfolding then_do_def by (rule costs_after)

lemma costs_ok: "f x = 0 \<Longrightarrow> costs f (ok x)"
  by (simp add: costs_def ok_def)

lemma costs_err: "costs f (err e)"
  by (simp add: costs_def err_def)

lemma costs_count: "costs (\<lambda>n. n) (cursor_read_count_with_overhead field a b)"
proof -
  have debit: "costs (\<lambda>_. n) (cursor_debit_count f n)" for f n
    by (auto simp: costs_def cursor_debit_count_def meth_defs checked_sub_usize_def split: if_splits)
  show ?thesis
    unfolding cursor_read_count_with_overhead_def Let_def
    by (rule costs_after, simp add: readers, rule costs_then_do, simp add: readers,
        unfold then_do_def, rule costs_and_then [OF debit], rule costs_ok) simp
qed

lemma costs_limited_count: "costs (\<lambda>n. n) (cursor_read_limited_count field)"
proof -
  have debit: "costs (\<lambda>_. n) (cursor_debit_count f n)" for f n
    by (auto simp: costs_def cursor_debit_count_def meth_defs checked_sub_usize_def split: if_splits)
  show ?thesis
    unfolding cursor_read_limited_count_def Let_def
    by (rule costs_after, simp add: readers, rule costs_then_do, simp add: readers,
        unfold then_do_def, rule costs_and_then [OF debit], rule costs_ok) simp
qed

lemma costs_repeat: "costs g m \<Longrightarrow> costs (\<lambda>xs. sum_list (map g xs)) (repeat_collect n m)"
proof (induction n)
  case (Suc n)
  show ?case
    by (simp, rule costs_and_then [OF Suc.prems], rule costs_and_then [OF Suc.IH [OF Suc.prems]], rule costs_ok) simp
qed (simp add: costs_ok)

text \<open>A counted sequence costs its length and what its items cost.\<close>

lemma costs_counted:
  assumes "costs g m" and "\<And>xs. costs (\<lambda>y. f y - (length xs + sum_list (map g xs))) (k xs)"
  shows "costs f (and_then (cursor_read_count field b) (\<lambda>n. and_then (repeat_collect n m) k))"
  unfolding cursor_read_count_def
proof (rule costs_and_then [OF costs_count])
  fix n
  have items: "costs (\<lambda>xs. sum_list (map g xs)) (repeat_collect n m)" by (rule costs_repeat [OF assms(1)])
  show "costs (\<lambda>y. f y - n) (and_then (repeat_collect n m) k)"
    unfolding costs_def
  proof (intro allI impI)
    fix c y c'
    assume "and_then (repeat_collect n m) k c = (Inr y, c')"
    then obtain xs d where step: "repeat_collect n m c = (Inr xs, d)" "k xs d = (Inr y, c')"
      by (auto simp: and_then_Inr)
    have "length xs = n"
      using yields_repeat [of "\<lambda>_. True" m n] step(1) by (auto simp: yields_def)
    moreover have "sum_list (map g xs) + remaining_budget d \<le> remaining_budget c"
      using items step(1) unfolding costs_def by blast
    moreover have "f y - (length xs + sum_list (map g xs)) + remaining_budget c' \<le> remaining_budget d"
      using assms(2) step(2) unfolding costs_def by blast
    ultimately show "f y - n + remaining_budget c' \<le> remaining_budget c" by linarith
  qed
qed

lemma constant_costs: "costs value_nodes (read_constant depth)"
proof (induction depth rule: read_constant.induct)
  case (1 depth)
  show ?case
  proof (cases "MAX_CONSTANT_DEPTH \<le> depth")
    case True
    then show ?thesis by (subst read_constant.simps) (simp add: costs_err)
  next
    case False
    then have rec: "costs value_nodes (read_constant (depth + 1))" using 1(1) [of 6] by simp
    have entry: "costs (\<lambda>(k, v). value_nodes k + value_nodes v)
        (and_then (read_constant (depth + 1)) (\<lambda>k. and_then (read_constant (depth + 1)) (\<lambda>v. ok (k, v))))"
      by (rule costs_and_then [OF rec], rule costs_and_then [OF rec], rule costs_ok) simp
    show ?thesis
      using False
      by (subst read_constant.simps)
        (auto intro!: costs_after costs_ok costs_err costs_counted [OF rec, simplified]
          costs_counted [OF entry, simplified] simp: readers)
  qed
qed


text \<open>The items of a prototype and of a whole program.\<close>

definition prototype_items :: "CallablePrototype \<Rightarrow> nat" where
  "prototype_items p = frame_local_count p + length (parameter_slots p) + length (capture_source_slots p) +
     length (capture_slots p) + length (capture_modes p)"

definition metadata_items :: "CallableMetadata \<Rightarrow> nat" where
  "metadata_items = (\<lambda>(functions, prototypes, regions, bindings, exports).
     length functions + length prototypes + sum_list (map prototype_items prototypes) +
     length regions + length bindings + length exports)"

lemma costs_list:
  assumes "reader m" and "\<And>xs. costs (\<lambda>y. f y - length xs) (k xs)"
  shows "costs f (and_then (cursor_read_count field b) (\<lambda>n. and_then (repeat_collect n m) k))"
  by (rule costs_counted [OF reader_costs [OF assms(1)]]) (use assms(2) in simp)

lemma and_then_ok: "and_then m ok = m"
  by (auto simp: and_then_def ok_def fun_eq_iff split: prod.split sum.split)

lemma costs_slots: "costs length (read_slots field)"
  using costs_list [of cursor_read_u16 length ok field 2]
  by (simp add: read_slots_def and_then_ok readers costs_ok)

lemma costs_prototype: "costs prototype_items read_callable_prototype"
  unfolding read_callable_prototype_def
  by (rule costs_after, simp add: readers, rule costs_after, simp add: readers, rule costs_after, simp add: readers,
      rule costs_and_then [OF costs_limited_count], rule costs_and_then [OF costs_slots],
      rule costs_and_then [OF costs_slots], rule costs_and_then [OF costs_slots],
      rule costs_list, simp add: readers, rule costs_after, simp add: readers, rule costs_after,
      simp add: readers, rule costs_then_do, simp add: readers, rule costs_ok)
    (simp add: prototype_items_def)

lemma costs_metadata: "costs metadata_items read_callable_metadata"
  unfolding read_callable_metadata_def
  by (rule costs_list, simp add: readers, rule costs_counted [OF costs_prototype],
      rule costs_list, simp add: readers, rule costs_list, simp add: readers,
      rule costs_list, simp add: readers, rule costs_ok)
    (simp add: metadata_items_def)

definition section_items ::
  "Value list \<times> u8 list \<times> HostImport list \<times> nat option \<times> CallableMetadata \<Rightarrow> nat" where
  "section_items = (\<lambda>(cs, bs, imports, n, metadata).
     length cs + sum_list (map value_nodes cs) + length imports + metadata_items metadata)"

lemma costs_sections: "costs section_items read_sections"
  unfolding read_sections_def
  by (rule costs_after, simp add: readers, simp only: split_beta, rule costs_counted [OF constant_costs],
      rule costs_after, simp add: readers, rule costs_then_do, simp add: readers,
      rule costs_list, simp add: readers, rule costs_after, simp add: readers,
      rule costs_then_do, simp add: readers, rule costs_and_then [OF costs_metadata],
      rule costs_then_do, simp add: readers, rule costs_ok)
    (simp add: section_items_def)


section \<open>Accepted payloads\<close>

lemma infer_local_count_le: "infer_local_count bs \<le> 256"
proof -
  have "unat index + 1 \<le> 256" for index :: u8 using unsigned_less [of index, where 'a = nat] by simp
  then show ?thesis by (simp add: infer_local_count_def split: option.split)
qed

lemma slot_bound: "Suc (unat (slot :: u16)) \<le> 65536"
  using unsigned_less [of slot, where 'a = nat] by simp

lemma decode_Inr:
  assumes "decode_program bs = Inr p"
  obtains cs code hs n metadata c where
    "read_sections (cursor_new bs) = (Inr (cs, code, hs, n, metadata), c)"
    "offset c = length bs" "validate_call_script_operands code (fst (snd metadata)) = Inr ()"
    "p = build_program cs code hs n metadata" "length bs \<le> MAX_WIRE_PAYLOAD_BYTES"
proof -
  have len: "length bs \<le> MAX_WIRE_PAYLOAD_BYTES" using assms by (auto simp: decode_program_def split: if_splits)
  then obtain d where "read_program (cursor_new bs) = (Inr p, d)"
    using assms by (metis decode_program_def not_le prod.collapse)
  then obtain cs code hs n metadata c where s: "read_sections (cursor_new bs) = (Inr (cs, code, hs, n, metadata), c)"
    and "cursor_is_empty c" "validate_call_script_operands code (fst (snd metadata)) = Inr ()"
    "p = build_program cs code hs n metadata"
    by (auto simp: read_program_def and_then_Inr then_do_def meth_defs split: if_splits sum.splits prod.splits)
  moreover have "bytes c = bs"
    using keeps_D [of advances read_sections] reader_sections_all s
    by (fastforce simp: reader_def advances_def cursor_new_def)
  ultimately show thesis using that len by (simp add: cursor_is_empty_def)
qed

lemma decode_metadata:
  assumes "decode_program bs = Inr p"
  shows "list_all (\<lambda>v. value_cells v = [] \<and> value_depth v \<le> MAX_CONSTANT_DEPTH) (constants p)"
    and "list_all (\<lambda>q. frame_local_count q \<le> MAX_FRAME_LOCAL_COUNT) (callable_prototypes p)"
    and "local_count p \<le> MAX_FRAME_LOCAL_COUNT"
proof -
  let ?constant = "\<lambda>v. value_cells v = [] \<and> value_depth v \<le> MAX_CONSTANT_DEPTH"
  let ?prototype = "\<lambda>q. frame_local_count q \<le> MAX_FRAME_LOCAL_COUNT"
  let ?sections = "\<lambda>(cs, code, hs, n, metadata). list_all ?constant cs \<and>
     list_all ?prototype (fst (snd metadata)) \<and> (\<forall>k. n = Some k \<longrightarrow> k \<le> MAX_FRAME_LOCAL_COUNT)"
  have metadata: "yields (\<lambda>m. list_all ?prototype (fst (snd m))) read_callable_metadata"
    unfolding read_callable_metadata_def
    by (intro yields_intros yields_and_then [OF yields_repeat [OF prototype_yields]]) simp
  have "yields ?sections read_sections"
    unfolding read_sections_def
    by (rule yields_intros(3), simp only: split_beta, rule yields_intros(3),
        rule yields_and_then [OF yields_repeat [OF constant_yields]], rule yields_intros(3),
        rule yields_intros(4), rule yields_intros(3), rule yields_intros(3),
        rule yields_and_then [OF type_map_yields], rule yields_intros(4),
        rule yields_and_then [OF metadata], rule yields_intros(4), rule yields_intros(1)) auto
  then have sections: "?sections (cs, code, hs, n, metadata)"
    if "read_sections (cursor_new bs) = (Inr (cs, code, hs, n, metadata), c)" for cs code hs n metadata c
    using that unfolding yields_def by blast
  obtain cs code hs n metadata c where r: "read_sections (cursor_new bs) = (Inr (cs, code, hs, n, metadata), c)"
    and p: "p = build_program cs code hs n metadata"
    using decode_Inr [OF assms] by metis
  note facts = sections [OF r] p
  show "list_all ?constant (constants p)" "list_all ?prototype (callable_prototypes p)"
    using facts by (auto simp: build_program_def Let_def with_callable_metadata_def with_local_count_def
      program_new_def split: prod.splits option.splits)
  show "local_count p \<le> MAX_FRAME_LOCAL_COUNT"
    using facts infer_local_count_le [of code]
    by (auto simp: build_program_def Let_def with_callable_metadata_def with_local_count_def
      program_new_def MAX_FRAME_LOCAL_COUNT_def split: prod.splits option.splits intro!: foldr_max_le
      slot_bound [THEN order.trans])
qed

lemma decode_items:
  assumes "decode_program bs = Inr p"
  shows "length (constants p) + sum_list (map value_nodes (constants p)) + length (host_imports p) +
    metadata_items (script_functions p, callable_prototypes p, function_regions p,
      root_callable_bindings p, exported_callables p) \<le> MAX_WIRE_AGGREGATE_ITEMS"
proof -
  obtain cs code hs n metadata c where r: "read_sections (cursor_new bs) = (Inr (cs, code, hs, n, metadata), c)"
    and p: "p = build_program cs code hs n metadata"
    using decode_Inr [OF assms] by metis
  have "section_items (cs, code, hs, n, metadata) \<le> MAX_WIRE_AGGREGATE_ITEMS"
    using costs_sections r unfolding costs_def by (fastforce simp: cursor_new_def)
  then show ?thesis
    unfolding p by (auto simp: build_program_def Let_def with_callable_metadata_def with_local_count_def
      program_new_def section_items_def split: prod.splits option.splits)
qed

lemma decode_extension:
  assumes "decode_program bs = Inr p" and "x \<noteq> []"
  shows "decode_program (bs @ x) =
    Inl (if length (bs @ x) > MAX_WIRE_PAYLOAD_BYTES then LengthTooLarge ''payload'' (length (bs @ x)) else TrailingBytes)"
proof (cases "length (bs @ x) > MAX_WIRE_PAYLOAD_BYTES")
  case False
  obtain cs code hs n metadata c where r: "read_sections (cursor_new bs) = (Inr (cs, code, hs, n, metadata), c)"
    and c: "offset c = length bs"
    using decode_Inr [OF assms(1)] by metis
  have "bytes c = bs"
    using keeps_D [of advances read_sections] reader_sections_all r
    by (fastforce simp: reader_def advances_def cursor_new_def)
  then have "\<not> cursor_is_empty (more x c)" using c assms(2) by (simp add: cursor_is_empty_def more_def)
  moreover have "cursor_new (bs @ x) = more x (cursor_new bs)" by (simp add: cursor_new_def more_def)
  moreover have "read_sections (more x (cursor_new bs)) = (Inr (cs, code, hs, n, metadata), more x c)"
    using reader_sections_all r unfolding reader_def stable_def by blast
  ultimately show ?thesis
    using False by (simp add: decode_program_def read_program_def meth_defs)
qed (simp add: decode_program_def)

section \<open>Instruction boundaries\<close>

text \<open>
  The offsets that a walk over the code reaches from its start: behind each instruction and its
  operands, and behind each byte that is no opcode.
\<close>

inductive instruction_at :: "u8 list \<Rightarrow> nat \<Rightarrow> bool" for bs where
  instruction_start: "instruction_at bs 0"
| instruction_next: "instruction_at bs i \<Longrightarrow> i < length bs \<Longrightarrow> opcode_try_from (bs ! i) = Some opcode \<Longrightarrow>
    instruction_at bs (i + 1 + operand_len opcode)"
| instruction_skip: "instruction_at bs i \<Longrightarrow> i < length bs \<Longrightarrow> opcode_try_from (bs ! i) = None \<Longrightarrow>
    instruction_at bs (i + 1)"

lemma validated_at:
  assumes "instruction_at bs i" and "validate_call_script_operands bs prototypes = Inr ()"
  shows "validate_call_script_operands_from bs prototypes i = Inr ()"
  using assms
proof induction
  case instruction_start
  then show ?case by (simp add: validate_call_script_operands_def)
next
  case (instruction_next i opcode)
  then have "validate_call_script_operands_from bs prototypes i = Inr ()" by blast
  with instruction_next.hyps show ?case
    by (subst (asm) validate_call_script_operands_from.simps)
      (auto simp: Let_def checked_add_usize_def split: option.splits if_splits sum.splits)
next
  case (instruction_skip i)
  then have "validate_call_script_operands_from bs prototypes i = Inr ()" by blast
  with instruction_skip.hyps show ?case
    by (subst (asm) validate_call_script_operands_from.simps) simp
qed

lemma validated_call_script:
  assumes "instruction_at bs i" and "validate_call_script_operands bs prototypes = Inr ()"
    and "i < length bs" and "opcode_try_from (bs ! i) = Some OpCallScript"
  shows "i + 6 \<le> length bs \<and> (\<exists>prototype f.
     vec_get prototypes (unat (from_le_bytes (take 4 (drop (i + 1) bs)) :: u32)) = Some prototype \<and>
     target prototype = ScriptFunctionTarget f \<and> arity prototype = bs ! (i + 5))"
  using validated_at [OF assms(1,2)] assms(3,4)
  by (subst (asm) validate_call_script_operands_from.simps)
    (auto simp: Let_def checked_add_usize_def check_call_script_def add.commute
      split: option.splits if_splits sum.splits CallableTarget.splits)

section \<open>Properties\<close>

text \<open>
  A payload of version 13: a script function without parameters, its prototype, and the code
  \<open>CallScript 0 0; Ret\<close>.
\<close>

definition sample_payload :: "u8 list" where
  "sample_payload = [0x56, 0x4D, 0x42, 0x43, 13, 0, 0, 0,
     0, 0, 0, 0,
     7, 0, 0, 0,  0x1A, 0, 0, 0, 0, 0,  0x01,
     0, 0, 0, 0,  0,  0,
     1, 0, 0, 0,  0, 0, 0, 0,  7, 0, 0, 0,
     1, 0, 0, 0,  0,  0, 0, 0, 0, 0,  0,  0, 0, 0, 0,  0, 0, 0, 0,  0, 0, 0, 0,  0, 0, 0, 0,  0, 0, 0, 0,  0,  0,
     0, 0, 0, 0,  0, 0, 0, 0,  0, 0, 0, 0,  0, 0, 0, 0]"

definition sample_code :: "u8 list" where
  "sample_code = [0x1A, 0, 0, 0, 0, 0,  0x01]"

lemma sample_decodes: "\<exists>p. decode_program sample_payload = Inr p \<and> code p = sample_code"
proof -
  have "map_sum id code (decode_program sample_payload) = Inr sample_code" by code_simp
  then show ?thesis by (cases "decode_program sample_payload") auto
qed

text \<open>
  C7. An accepted payload ends where it ends: followed by any further byte it is refused, as
  trailing bytes or as too long, and so no proper prefix of an accepted payload is accepted.
\<close>

theorem decode_prefix_free:
  assumes "decode_program bs = Inr p" and "x \<noteq> []"
  shows "decode_program (bs @ x) = Inl TrailingBytes \<or>
    decode_program (bs @ x) = Inl (LengthTooLarge ''payload'' (length (bs @ x)))"
  using decode_extension [OF assms] by auto

theorem decode_prefix_free_witness:
  "decode_program (sample_payload @ [0]) = Inl TrailingBytes \<or>
    decode_program (sample_payload @ [0]) = Inl (LengthTooLarge ''payload'' (length (sample_payload @ [0])))"
proof -
  obtain p where p: "decode_program sample_payload = Inr p" using sample_decodes by blast
  show ?thesis by (rule decode_prefix_free [OF p]) simp
qed

text \<open>
  C10. A program the decoder accepts fits the frame limits: the machine is built, with the number
  of locals the program asks for, and \<open>run\<close> does not refuse it.
\<close>

theorem decode_fits_limits:
  assumes "decode_program bs = Inr p"
  shows "vm_try_new p = Inr (vm_new p) \<and> frame_allocation_error (vm_new p) = None \<and>
    run (vm_new p) = run_loop (vm_new p)"
proof -
  have find: "find_frame_allocation_error p = None"
    using decode_metadata [OF assms]
    by (auto simp: find_frame_allocation_error_def find_None_iff list_all_iff not_less)
  have same: "frame_allocation_error (fold initialize_root_callable bindings vm) = frame_allocation_error vm"
    for bindings and vm :: "unit Vm"
    by (induction bindings arbitrary: vm)
      (auto simp: initialize_root_callable_def Let_def split: option.splits)
  have "frame_allocation_error (vm_new p) = None"
    by (simp add: vm_new_def from_parts_def initialize_root_callables_def find same)
  with find show ?thesis
    by (simp add: vm_try_new_def validate_frame_allocation_limits_def run_def)
qed

theorem decode_fits_limits_witness:
  "\<exists>p. decode_program sample_payload = Inr p \<and> vm_try_new p = Inr (vm_new p) \<and>
     frame_allocation_error (vm_new p) = None \<and> run (vm_new p) = run_loop (vm_new p)"
  using sample_decodes decode_fits_limits by blast



text \<open>
  C8. In a decoded program every \<open>CallScript\<close> at an instruction boundary has all its operand bytes,
  names an existing prototype that targets a script function, and passes as many arguments as the
  prototype takes.
\<close>

theorem decode_call_script_sound:
  assumes "decode_program bs = Inr p" and "instruction_at (code p) i" and "i < length (code p)"
    and "opcode_try_from (code p ! i) = Some OpCallScript"
  shows "i + 6 \<le> length (code p) \<and> (\<exists>prototype f.
     vec_get (callable_prototypes p) (unat (from_le_bytes (take 4 (drop (i + 1) (code p))) :: u32)) = Some prototype \<and>
     target prototype = ScriptFunctionTarget f \<and> arity prototype = code p ! (i + 5))"
proof -
  obtain cs bs' hs n metadata where v: "validate_call_script_operands bs' (fst (snd metadata)) = Inr ()"
    and p: "p = build_program cs bs' hs n metadata"
    using decode_Inr [OF assms(1)] by metis
  have "code p = bs'" "callable_prototypes p = fst (snd metadata)"
    unfolding p by (auto simp: build_program_def Let_def with_callable_metadata_def with_local_count_def
      program_new_def split: prod.splits option.splits)
  with v assms(2-4) show ?thesis by (metis validated_call_script)
qed

theorem decode_call_script_sound_witness:
  "\<exists>p prototype f. decode_program sample_payload = Inr p \<and> vec_get (callable_prototypes p) 0 = Some prototype \<and>
     target prototype = ScriptFunctionTarget f \<and> arity prototype = 0"
proof -
  obtain p where p: "decode_program sample_payload = Inr p" "code p = sample_code" using sample_decodes by blast
  have "\<exists>prototype f. vec_get (callable_prototypes p)
       (unat (from_le_bytes (take 4 (drop (0 + 1) (code p))) :: u32)) = Some prototype \<and>
     target prototype = ScriptFunctionTarget f \<and> arity prototype = code p ! (0 + 5)"
    by (rule decode_call_script_sound [OF p(1), THEN conjunct2])
      (simp_all add: p(2) instruction_start sample_code_def opcode_try_from_def)
  then show ?thesis using p by (auto simp: sample_code_def from_le_bytes_def)
qed

text \<open>
  C11. From the wire to the end of a run: a decoded program, run on a machine without host functions
  under any fuel, ends with an acyclic store of capture cells.
\<close>

theorem decoded_run_acyclic:
  assumes "decode_program bs = Inr p" and "run (set_fuel f (vm_new p)) = Some (result, vm')"
  shows "acyclic_heap (cells (store vm'))"
proof -
  have "ownership_ok (set_fuel f (vm_new p))"
    unfolding vm_new_def set_fuel_def
    by (rule ownership_update(3), rule from_parts_ownership)
      (use decode_metadata(1) [OF assms(1)] in \<open>auto simp: list_all_iff\<close>)
  then have "ownership_ok vm'" using assms(2) run_owning by blast
  then show ?thesis by (simp add: ownership_ok_def store_ok_def)
qed

theorem decoded_run_acyclic_witness:
  "\<exists>p result vm'. decode_program sample_payload = Inr p \<and>
     run (set_fuel 5 (vm_new p)) = Some (result, vm') \<and> acyclic_heap (cells (store vm'))"
proof -
  obtain p where p: "decode_program sample_payload = Inr p" using sample_decodes by blast
  have "\<exists>r vm'. run (set_fuel 5 (vm_new p)) = Some (r, vm')"
    using vm_meter.metered_returns [of "set_fuel 5 (vm_new p)" 5]
    by (auto simp: run_def set_fuel_def split: option.split prod.split)
  with p decoded_run_acyclic [OF p] show ?thesis by blast
qed

end
