(* ===== verification/Tokens.thy ===== *)
theory Tokens
  imports Prelude
begin

text \<open>
  Packed identifiers: a positive 63-bit token made of an owner identity, a one-based slot identity
  and a generation. \<open>vm/resource/handle.rs\<close> and \<open>vm/operation/id.rs\<close> both build such tokens, with
  different widths; the table and the registry rely on the same laws of them, which are the locale
  below. The second locale is the argument by which a generation makes a stale token recognisable
  for ever: every slot has a clock that no operation turns back.
\<close>

section \<open>The fields of a word\<close>

lemma one_shifted: "push_bit n 1 - 1 = (mask n :: 'a::len word)"
  by (simp add: mask_eq_exp_minus_1 push_bit_eq_mult)

lemma unat_mask_word: "unat (mask k :: 'a::len word) = mask (min LENGTH('a) k)"
  by (subst of_nat_mask_eq [symmetric]) (simp add: unsigned_of_nat)

lemma le_mask_iff: "w \<le> mask k \<longleftrightarrow> take_bit k w = w" for w :: "'a::len word"
proof -
  have "w \<le> mask k \<longleftrightarrow> unat w < 2 ^ min LENGTH('a) k"
    unfolding word_le_nat_alt unat_mask_word by (simp add: mask_eq_exp_minus_1 le_diff_conv2 Suc_le_eq)
  also have "\<dots> \<longleftrightarrow> unat w < 2 ^ k"
    using unsigned_less [of w, where 'a = nat] by (cases "k \<le> LENGTH('a)") (auto simp: min_def
        intro: less_le_trans [of _ "2 ^ LENGTH('a)"] power_increasing)
  also have "\<dots> \<longleftrightarrow> take_bit k (unat w) = unat w"
    by (rule take_bit_nat_eq_self_iff [symmetric])
  also have "\<dots> \<longleftrightarrow> take_bit k w = w"
    by (metis unsigned_take_bit_eq unsigned_word_eqI)
  finally show ?thesis .
qed

lemma bit_below_mask: "w \<le> mask k \<Longrightarrow> bit w n \<Longrightarrow> n < k" for w :: "'a::len word"
  by (metis bit_take_bit_iff le_mask_iff)

lemma high_field:
  fixes a s g :: u64
  assumes "a \<le> mask wa" and "s \<le> mask ws" and "g \<le> mask wg" and "wa + ws + wg \<le> 64"
  shows "drop_bit (ws + wg) (push_bit (ws + wg) a OR push_bit wg s OR g) AND mask wa = a"
  using assms by (auto simp: bit_eq_iff bit_simps dest: bit_below_mask)

lemma middle_field:
  fixes a s g :: u64
  assumes "a \<le> mask wa" and "s \<le> mask ws" and "g \<le> mask wg" and "wa + ws + wg \<le> 64"
  shows "drop_bit wg (push_bit (ws + wg) a OR push_bit wg s OR g) AND mask ws = s"
  using assms by (auto simp: bit_eq_iff bit_simps dest: bit_below_mask)

lemma low_field:
  fixes a s g :: u64
  assumes "a \<le> mask wa" and "s \<le> mask ws" and "g \<le> mask wg" and "wa + ws + wg \<le> 64"
  shows "(push_bit (ws + wg) a OR push_bit wg s OR g) AND mask wg = g"
  using assms by (auto simp: bit_eq_iff bit_simps dest: bit_below_mask)

lemma fields_together:
  fixes w :: u64
  assumes "w \<le> mask (wa + ws + wg)"
  shows "push_bit (ws + wg) (drop_bit (ws + wg) w AND mask wa) OR
         push_bit wg (drop_bit wg w AND mask ws) OR (w AND mask wg) = w"
  using assms by (auto simp: bit_eq_iff bit_simps dest: bit_below_mask)

lemma packed_below:
  fixes a s g :: u64
  assumes "a \<le> mask wa" and "s \<le> mask ws" and "g \<le> mask wg" and "wa + ws + wg \<le> 64"
  shows "push_bit (ws + wg) a OR push_bit wg s OR g \<le> mask (wa + ws + wg)"
  unfolding le_mask_iff
  using assms by (auto simp: bit_eq_iff bit_simps dest: bit_below_mask)

section \<open>Panics\<close>

text \<open>
  What a method of the scope layer can fail with: an error value of its own, or a panic, which is
  an \<open>expect\<close> on \<open>None\<close>, an index out of range, or an integer operation that overflows.
\<close>

datatype 'e fault = Panicked | Raised 'e

definition expect :: "'a option \<Rightarrow> ('s, 'e fault, 'a) meth" where
  "expect x = ok_or x Panicked"

definition throw :: "'e \<Rightarrow> ('s, 'e fault, 'a) meth" where
  "throw e = err (Raised e)"

lemma wp_expect [wp_simps]: "wp (expect x) Q E s = (case x of None \<Rightarrow> E Panicked s | Some y \<Rightarrow> Q y s)"
  by (simp add: expect_def wp_ok_or)

lemma wp_throw [wp_simps]: "wp (throw e) Q E s = E (Raised e) s"
  by (simp add: throw_def wp_err)

text \<open>
  A method of the scope layer runs on the value that owns it and on what lies outside, which host
  code it calls may read and change.
\<close>

definition own :: "('t \<Rightarrow> 'a) \<Rightarrow> ('t \<times> 'w, 'e, 'a) meth" where
  "own f = self (\<lambda>(t, w). f t)"

definition set_own :: "('t \<Rightarrow> 't) \<Rightarrow> ('t \<times> 'w, 'e, unit) meth" where
  "set_own f = update (\<lambda>(t, w). (f t, w))"

definition outside :: "('w \<Rightarrow> 'a \<times> 'w) \<Rightarrow> ('t \<times> 'w, 'e, 'a) meth" where
  "outside f = (\<lambda>(t, w). case f w of (x, w') \<Rightarrow> (Inr x, (t, w')))"

lemma wp_own [wp_simps]: "wp (own f) Q E (t, w) = Q (f t) (t, w)"
  by (simp add: own_def wp_self)

lemma wp_set_own [wp_simps]: "wp (set_own f) Q E (t, w) = Q () (f t, w)"
  by (simp add: set_own_def wp_update)

lemma wp_outside [wp_simps]: "wp (outside f) Q E (t, w) = (case f w of (x, w') \<Rightarrow> Q x (t, w'))"
  by (simp add: outside_def wp_def split: prod.splits)

text \<open>A call whose error the caller inspects or discards; a panic goes through.\<close>

definition attempt :: "('s, 'e fault, 'a) meth \<Rightarrow> ('s, 'e fault, 'e + 'a) meth" where
  "attempt m s = (case m s of
       (Inl Panicked, t) \<Rightarrow> (Inl Panicked, t)
     | (Inl (Raised e), t) \<Rightarrow> (Inr (Inl e), t)
     | (Inr x, t) \<Rightarrow> (Inr (Inr x), t))"

lemma wp_attempt [wp_simps]:
  "wp (attempt m) Q E s =
     wp m (\<lambda>x. Q (Inr x)) (\<lambda>e t. case e of Panicked \<Rightarrow> E Panicked t | Raised e \<Rightarrow> Q (Inl e) t) s"
  by (auto simp: attempt_def wp_def split: prod.splits sum.splits fault.splits)

text \<open>
  A loop over a list that carries local variables, and one that collects what its body returns.
\<close>

fun fold_each :: "'a list \<Rightarrow> ('a \<Rightarrow> 'b \<Rightarrow> ('s, 'e, 'b) meth) \<Rightarrow> 'b \<Rightarrow> ('s, 'e, 'b) meth" where
  "fold_each [] f y = ok y"
| "fold_each (x # xs) f y = and_then (f x y) (fold_each xs f)"

fun collect_each :: "'a list \<Rightarrow> ('a \<Rightarrow> ('s, 'e, 'b) meth) \<Rightarrow> ('s, 'e, 'b list) meth" where
  "collect_each [] f = ok []"
| "collect_each (x # xs) f = and_then (f x) (\<lambda>y. and_then (collect_each xs f) (\<lambda>ys. ok (y # ys)))"

lemma wp_fold_each:
  assumes "I y s" and "\<And>x y s. x \<in> set xs \<Longrightarrow> I y s \<Longrightarrow> wp (f x y) I E s"
    and "\<And>y t. I y t \<Longrightarrow> Q y t"
  shows "wp (fold_each xs f y) Q E s"
  using assms
proof (induction xs arbitrary: y s)
  case (Cons x xs)
  then show ?case by (simp add: wp_and_then) (rule wp_use [of "f x y" I]; auto)
qed (simp add: wp_ok)

lemma wp_collect_each:
  assumes "\<And>x. x \<in> set xs \<Longrightarrow> f x s = (Inr (g x), s)" and "Q (map g xs) s"
  shows "wp (collect_each xs f) Q E s"
proof -
  have "collect_each xs f s = (Inr (map g xs), s)"
    using assms(1) by (induction xs) (auto simp: ok_def and_then_def)
  with assms(2) show ?thesis by (simp add: wp_def)
qed

text \<open>A call as the pair of its result and the state it leaves.\<close>

lemma wp_returns: "wp m (\<lambda>x t. x = y \<and> t = u) (\<lambda>_ _. False) s \<Longrightarrow> m s = (Inr y, u)"
  by (auto simp: wp_def split: prod.splits sum.splits)

lemma wp_fails: "wp m (\<lambda>_ _. False) (\<lambda>e t. e = f \<and> t = u) s \<Longrightarrow> m s = (Inl f, u)"
  by (auto simp: wp_def split: prod.splits sum.splits)

lemma fst_pair_unit: "fst p = x \<Longrightarrow> p = (x, (fst (snd p), ()))" for p :: "'a \<times> 'b \<times> unit"
  by (cases p) auto

text \<open>\<open>std::task::Poll\<close>. \<open>Poll<Result<T, E>>\<close> is a method that fails or returns a \<open>T Poll\<close>.\<close>

datatype 'a Poll = Ready 'a | Pending

text \<open>The decimal digits of \<open>Display\<close> for an unsigned integer.\<close>

fun decimal :: "nat \<Rightarrow> string" where
  "decimal n =
     (if n < 10 then [char_of (48 + n)] else decimal (n div 10) @ [char_of (48 + n mod 10)])"

declare decimal.simps [simp del]

definition u64_try_from :: "nat \<Rightarrow> u64 option" where
  "u64_try_from n = (if n < 2 ^ 64 then Some (of_nat n) else None)"

definition slot_identity_of :: "nat \<Rightarrow> u64 option" where
  "slot_identity_of slot_index = Option.bind (u64_try_from slot_index) (\<lambda>i. checked_add_u64 i 1)"

lemma unat_u64: "n < 2 ^ 64 \<Longrightarrow> unat (of_nat n :: u64) = n"
  by (simp add: unsigned_of_nat take_bit_nat_eq_self)

lemma slot_identity_of_eq:
  "slot_identity_of i = (if Suc i < 2 ^ 64 then Some (of_nat (Suc i)) else None)"
proof (cases "i < 2 ^ 64")
  case True
  then have "unat (of_nat i :: u64) = i"
    by (rule unat_u64)
  with True show ?thesis
    by (simp add: slot_identity_of_def u64_try_from_def checked_add_u64_def add.commute)
qed (simp add: slot_identity_of_def u64_try_from_def)

section \<open>The laws of a packed identifier\<close>

text \<open>
  An identifier is determined by its three fields, and exactly the triples within the field widths
  have one; zero is no field value of an owner or a generation.
\<close>

locale packed_id =
  fixes encode :: "u64 \<Rightarrow> nat \<Rightarrow> u64 \<Rightarrow> 'h option"
    and valid :: "'h \<Rightarrow> bool"
    and owner :: "'h \<Rightarrow> u64"
    and slot :: "'h \<Rightarrow> nat"
    and gen :: "'h \<Rightarrow> u64"
    and max_owner max_slots max_gen :: nat
  assumes encode_Some: "encode a i g = Some h \<longleftrightarrow> valid h \<and> owner h = a \<and> slot h = i \<and> gen h = g"
    and encode_None: "encode a i g = None \<longleftrightarrow>
      \<not> (0 < unat a \<and> unat a \<le> max_owner \<and> i < max_slots \<and> 0 < unat g \<and> unat g \<le> max_gen)"
begin

lemma encodable:
  assumes "0 < unat a" "unat a \<le> max_owner" "i < max_slots" "0 < unat g" "unat g \<le> max_gen"
  obtains h where "encode a i g = Some h" "valid h" "owner h = a" "slot h = i" "gen h = g"
  using assms encode_None [of a i g] encode_Some [of a i g] by (cases "encode a i g") auto

lemma encode_fields: "valid h \<Longrightarrow> encode (owner h) (slot h) (gen h) = Some h"
  by (simp add: encode_Some)

lemma valid_eqI:
  "valid h \<Longrightarrow> valid k \<Longrightarrow> owner h = owner k \<Longrightarrow> slot h = slot k \<Longrightarrow> gen h = gen k \<Longrightarrow> h = k"
  by (metis encode_fields option.inject)

lemma encode_injective:
  "encode a i g = Some h \<Longrightarrow> encode b j k = Some h \<Longrightarrow> a = b \<and> i = j \<and> g = k"
  by (simp add: encode_Some)

lemma valid_ranges:
  assumes "valid h"
  shows "0 < unat (owner h)" and "unat (owner h) \<le> max_owner" and "slot h < max_slots"
    and "0 < unat (gen h)" and "unat (gen h) \<le> max_gen"
  using encode_fields [OF assms] encode_None [of "owner h" "slot h" "gen h"] by auto

end

text \<open>
  The bit layout behind such an identifier: three adjacent fields of 63 bits in all, checked
  against their widths when they are packed and against zero when they are unpacked.
\<close>

locale packing =
  fixes encode :: "u64 \<Rightarrow> nat \<Rightarrow> u64 \<Rightarrow> 'h option"
    and valid :: "'h \<Rightarrow> bool"
    and owner :: "'h \<Rightarrow> u64"
    and slot :: "'h \<Rightarrow> nat"
    and gen :: "'h \<Rightarrow> u64"
    and raw :: "'h \<Rightarrow> u64"
    and make :: "u64 \<Rightarrow> 'h"
    and wa ws wg :: nat
  assumes widths: "wa + ws + wg = 63"
    and make_raw: "make (raw h) = h" and raw_make: "raw (make w) = w"
    and owner_eq: "owner h = drop_bit (ws + wg) (raw h) AND mask wa"
    and slot_eq: "slot h = unat (drop_bit wg (raw h) AND mask ws) - 1"
    and gen_eq: "gen h = raw h AND mask wg"
    and valid_iff: "valid h \<longleftrightarrow> raw h \<le> mask 63 \<and> owner h \<noteq> 0 \<and> drop_bit wg (raw h) AND mask ws \<noteq> 0 \<and> gen h \<noteq> 0"
    and encode_eq: "encode a i g =
      (if a \<noteq> 0 \<and> a \<le> mask wa \<and> i < 2 ^ ws - 1 \<and> g \<noteq> 0 \<and> g \<le> mask wg
       then Some (make (push_bit (ws + wg) a OR push_bit wg (of_nat (Suc i)) OR g)) else None)"
begin

lemma below_width: "k \<le> 63 \<Longrightarrow> (w :: u64) \<le> mask k \<longleftrightarrow> unat w \<le> 2 ^ k - 1"
  unfolding word_le_nat_alt unat_mask_word by (simp add: mask_eq_exp_minus_1)

lemma encoded:
  assumes "encode a i g = Some h"
  shows "valid h" and "owner h = a" and "slot h = i" and "gen h = g"
proof -
  define s :: u64 where "s = of_nat (Suc i)"
  have range: "a \<noteq> 0" "a \<le> mask wa" "i < 2 ^ ws - 1" "g \<noteq> 0" "g \<le> mask wg"
    and raw: "raw h = push_bit (ws + wg) a OR push_bit wg s OR g"
    using assms by (auto simp: encode_eq raw_make s_def simp del: of_nat_Suc split: if_splits)
  have "(2 :: nat) ^ ws \<le> 2 ^ 63" using widths by (intro power_increasing) auto
  then have sid: "unat s = Suc i"
    unfolding s_def by (intro unat_u64) (use range(3) in simp)
  then have "s \<le> mask ws"
    using range(3) widths by (subst below_width) auto
  note bounds = range(2) this range(5)
  have fits: "wa + ws + wg \<le> 64" using widths by simp
  show owner: "owner h = a"
    unfolding owner_eq raw by (rule high_field [OF bounds fits])
  have slot: "drop_bit wg (raw h) AND mask ws = s"
    unfolding raw by (rule middle_field [OF bounds fits])
  show gen: "gen h = g"
    unfolding gen_eq raw by (rule low_field [OF bounds fits])
  show "slot h = i"
    by (simp add: slot_eq slot sid)
  have "raw h \<le> mask 63"
    using packed_below [OF bounds fits] by (simp add: raw widths)
  then show "valid h"
    using range sid by (auto simp: valid_iff owner slot gen)
qed

lemma encoding_of:
  assumes "valid h"
  shows "encode (owner h) (slot h) (gen h) = Some h"
proof -
  let ?s = "drop_bit wg (raw h) AND mask ws"
  have below: "raw h \<le> mask (wa + ws + wg)" using assms by (simp add: valid_iff widths)
  have mask_le: "w AND mask k \<le> mask k" for w :: u64 and k
    by (simp add: le_mask_iff take_bit_eq_mask and.assoc)
  have sid: "unat ?s \<noteq> 0" using assms by (simp add: valid_iff unat_eq_0)
  then have "of_nat (Suc (slot h)) = ?s"
    by (simp add: slot_eq flip: of_nat_Suc)
  moreover have "slot h < 2 ^ ws - 1"
    using mask_le [of "drop_bit wg (raw h)" ws] sid widths by (subst (asm) below_width) (auto simp: slot_eq)
  moreover have "push_bit (ws + wg) (owner h) OR push_bit wg ?s OR gen h = raw h"
    unfolding owner_eq gen_eq by (rule fields_together [OF below])
  ultimately show ?thesis
    using assms by (auto simp: encode_eq valid_iff owner_eq gen_eq mask_le make_raw simp del: of_nat_Suc)
qed

end

sublocale packing \<subseteq> packed_id encode valid owner slot gen "2 ^ wa - 1" "2 ^ ws - 1" "2 ^ wg - 1"
proof
  fix a g i h
  show "encode a i g = Some h \<longleftrightarrow> valid h \<and> owner h = a \<and> slot h = i \<and> gen h = g"
    using encoded encoding_of by metis
  show "encode a i g = None \<longleftrightarrow> \<not> (0 < unat a \<and> unat a \<le> 2 ^ wa - 1 \<and> i < 2 ^ ws - 1 \<and> 0 < unat g \<and> unat g \<le> 2 ^ wg - 1)"
    using widths by (simp add: encode_eq below_width unat_gt_0)
qed

section \<open>Slot clocks\<close>

text \<open>
  A slot's clock reads twice the generation while an occupant of that generation is live. An
  operation \<open>ages\<close> the arena when it keeps the owner identity and turns no clock back; then an
  occupant that is gone stays gone, and a new occupant is none of the earlier ones.
\<close>

definition ages :: "('s \<Rightarrow> 'o) \<Rightarrow> ('s \<Rightarrow> nat \<Rightarrow> nat) \<Rightarrow> 's \<Rightarrow> 's \<Rightarrow> bool" where
  "ages owned clock s t \<longleftrightarrow> owned t = owned s \<and> (\<forall>i. clock s i \<le> clock t i)"

lemma ages_refl: "ages owned clock s s"
  by (simp add: ages_def)

lemma ages_trans: "ages owned clock s t \<Longrightarrow> ages owned clock t u \<Longrightarrow> ages owned clock s u"
  by (auto simp: ages_def intro: order_trans)

locale generations =
  fixes owned :: "'s \<Rightarrow> 'o"
    and clock :: "'s \<Rightarrow> nat \<Rightarrow> nat"
    and live :: "'s \<Rightarrow> 'h \<Rightarrow> bool"
    and owner :: "'h \<Rightarrow> 'o"
    and slot gen :: "'h \<Rightarrow> nat"
  assumes live_iff: "live s h \<longleftrightarrow> owned s = owner h \<and> clock s (slot h) = 2 * gen h"
begin

lemma stale_for_good:
  assumes "live s h" and "ages owned clock s t" and "\<not> live t h" and "ages owned clock t u"
  shows "\<not> live u h"
proof -
  have "clock t (slot h) > 2 * gen h"
    using assms(1-3) by (auto simp: live_iff ages_def order_less_le dest: spec [of _ "slot h"])
  moreover have "clock t (slot h) \<le> clock u (slot h)"
    using assms(4) by (simp add: ages_def)
  ultimately show ?thesis by (simp add: live_iff)
qed

lemma not_yet_live:
  assumes "clock t (slot h) < 2 * gen h" and "ages owned clock s t"
  shows "\<not> live s h"
proof -
  have "clock s (slot h) \<le> clock t (slot h)" using assms(2) by (simp add: ages_def)
  with assms(1) show ?thesis by (simp add: live_iff)
qed

end

end
