(* ===== verification/Handles.thy ===== *)
theory Handles
  imports Tokens
begin

text \<open>
  The vocabulary of the resource layer: \<open>vm/resource/handle.rs\<close>, \<open>close.rs\<close>, \<open>error.rs\<close> and
  \<open>reason.rs\<close>. A handle packs 20 bits of arena identity, 18 of slot identity and 25 of generation.
\<close>

section \<open>Close reasons\<close>

datatype ResourceCloseReason = Requested | Deadline | VmReset | Parent | ResourceClosed | VmDrop

definition close_reason_as_str :: "ResourceCloseReason \<Rightarrow> string" where
  "close_reason_as_str reason = (case reason of
       Requested \<Rightarrow> ''requested''
     | Deadline \<Rightarrow> ''deadline''
     | VmReset \<Rightarrow> ''vm_reset''
     | Parent \<Rightarrow> ''parent''
     | ResourceClosed \<Rightarrow> ''resource_closed''
     | VmDrop \<Rightarrow> ''vm_drop'')"

definition close_reason_from_raw :: "u8 \<Rightarrow> ResourceCloseReason option" where
  "close_reason_from_raw raw =
     (if raw = 1 then Some Requested
      else if raw = 2 then Some Deadline
      else if raw = 3 then Some VmReset
      else if raw = 4 then Some Parent
      else if raw = 5 then Some ResourceClosed
      else if raw = 6 then Some VmDrop
      else None)"

definition close_reason_raw :: "ResourceCloseReason \<Rightarrow> u8" where
  "close_reason_raw reason = (case reason of
     Requested \<Rightarrow> 1 | Deadline \<Rightarrow> 2 | VmReset \<Rightarrow> 3 | Parent \<Rightarrow> 4 | ResourceClosed \<Rightarrow> 5 | VmDrop \<Rightarrow> 6)"

section \<open>Errors\<close>

datatype ResourceErrorCode =
    InvalidConfiguration
  | ResourceLimitExceeded
  | InvalidResourceHandle
  | ResourceHandleWrongTable
  | ResourceTypeMismatch
  | ResourceTypeKeyMismatch
  | ResourceStale
  | ResourceAlreadyClosed
  | ResourceIdExhausted
  | ResourceAccessConflict
  | ResourceTableArenaExhausted
  | ResourceCleanupFailed
  | ResourceNotClosing
  | ResourceCloseInProgress
  | ResourceClosePending

definition resource_code_as_str :: "ResourceErrorCode \<Rightarrow> string" where
  "resource_code_as_str c = (case c of
       InvalidConfiguration \<Rightarrow> ''invalid_configuration''
     | ResourceLimitExceeded \<Rightarrow> ''resource_limit_exceeded''
     | InvalidResourceHandle \<Rightarrow> ''invalid_resource_handle''
     | ResourceHandleWrongTable \<Rightarrow> ''resource_handle_wrong_table''
     | ResourceTypeMismatch \<Rightarrow> ''resource_type_mismatch''
     | ResourceTypeKeyMismatch \<Rightarrow> ''resource_type_key_mismatch''
     | ResourceStale \<Rightarrow> ''resource_stale''
     | ResourceAlreadyClosed \<Rightarrow> ''resource_already_closed''
     | ResourceIdExhausted \<Rightarrow> ''resource_id_exhausted''
     | ResourceAccessConflict \<Rightarrow> ''resource_access_conflict''
     | ResourceTableArenaExhausted \<Rightarrow> ''resource_arena_id_exhausted''
     | ResourceCleanupFailed \<Rightarrow> ''resource_cleanup_failed''
     | ResourceNotClosing \<Rightarrow> ''resource_not_closing''
     | ResourceCloseInProgress \<Rightarrow> ''resource_close_in_progress''
     | ResourceClosePending \<Rightarrow> ''resource_close_pending'')"

record ResourceError =
  res_code :: ResourceErrorCode
  res_operation :: string
  res_message :: string
  res_limit :: "nat option"
  res_value :: "u64 option"

definition resource_error :: "ResourceErrorCode \<Rightarrow> string \<Rightarrow> string \<Rightarrow> ResourceError" where
  "resource_error c scope msg =
     \<lparr>res_code = c, res_operation = scope, res_message = msg, res_limit = None, res_value = None\<rparr>"

definition res_with_limit :: "nat \<Rightarrow> ResourceError \<Rightarrow> ResourceError" where
  "res_with_limit n e = e\<lparr>res_limit := Some n\<rparr>"

definition res_with_value :: "u64 \<Rightarrow> ResourceError \<Rightarrow> ResourceError" where
  "res_with_value v e = e\<lparr>res_value := Some v\<rparr>"

definition resource_error_display :: "ResourceError \<Rightarrow> string" where
  "resource_error_display e =
     ''resource error ['' @ resource_code_as_str (res_code e) @ ''] in '' @ res_operation e @ '': '' @ res_message e @
     (case res_limit e of None \<Rightarrow> [] | Some limit \<Rightarrow> '' (limit: '' @ decimal limit @ '')'') @
     (case res_value e of None \<Rightarrow> [] | Some value \<Rightarrow> '' (value: '' @ decimal (unat value) @ '')'')"

section \<open>Handles\<close>

definition DEFAULT_MAX_RESOURCES :: nat where
  "DEFAULT_MAX_RESOURCES = 1024"

definition HANDLE_GENERATION_BITS :: nat where "HANDLE_GENERATION_BITS = 25"
definition HANDLE_SLOT_BITS :: nat where "HANDLE_SLOT_BITS = 18"
definition HANDLE_ARENA_BITS :: nat where
  "HANDLE_ARENA_BITS = 63 - HANDLE_GENERATION_BITS - HANDLE_SLOT_BITS"

definition HANDLE_GENERATION_SHIFT :: nat where "HANDLE_GENERATION_SHIFT = 0"
definition HANDLE_SLOT_SHIFT :: nat where
  "HANDLE_SLOT_SHIFT = HANDLE_GENERATION_SHIFT + HANDLE_GENERATION_BITS"
definition HANDLE_ARENA_SHIFT :: nat where
  "HANDLE_ARENA_SHIFT = HANDLE_SLOT_SHIFT + HANDLE_SLOT_BITS"

definition HANDLE_GENERATION_MASK :: u64 where
  "HANDLE_GENERATION_MASK = push_bit HANDLE_GENERATION_BITS 1 - 1"
definition HANDLE_SLOT_MASK :: u64 where
  "HANDLE_SLOT_MASK = push_bit HANDLE_SLOT_BITS 1 - 1"
definition HANDLE_ARENA_MASK :: u64 where
  "HANDLE_ARENA_MASK = push_bit HANDLE_ARENA_BITS 1 - 1"

definition MAX_RESOURCE_SLOTS :: nat where "MAX_RESOURCE_SLOTS = unat HANDLE_SLOT_MASK"
definition MAX_HANDLE_ARENA_ID :: u64 where "MAX_HANDLE_ARENA_ID = HANDLE_ARENA_MASK"
definition MAX_HANDLE_GENERATION :: u64 where "MAX_HANDLE_GENERATION = HANDLE_GENERATION_MASK"

datatype ResourceHandle = ResourceHandle (handle_raw: u64)

definition handle_arena_id :: "ResourceHandle \<Rightarrow> u64" where
  "handle_arena_id h = drop_bit HANDLE_ARENA_SHIFT (handle_raw h) AND HANDLE_ARENA_MASK"

definition handle_generation :: "ResourceHandle \<Rightarrow> u64" where
  "handle_generation h = drop_bit HANDLE_GENERATION_SHIFT (handle_raw h) AND HANDLE_GENERATION_MASK"

definition handle_slot_identity :: "ResourceHandle \<Rightarrow> u64" where
  "handle_slot_identity h = drop_bit HANDLE_SLOT_SHIFT (handle_raw h) AND HANDLE_SLOT_MASK"

definition invalid_handle :: "string \<Rightarrow> ResourceError" where
  "invalid_handle msg = resource_error InvalidResourceHandle ''resource::handle'' msg"

text \<open>
  \<open>slot_index\<close> subtracts one from the slot identity, an overflow when the identity is zero. On a
  64-bit target the conversion to \<open>usize\<close> cannot fail.
\<close>

definition handle_slot_index :: "ResourceHandle \<Rightarrow> nat option" where
  "handle_slot_index h =
     (if handle_slot_identity h = 0 then None else Some (unat (handle_slot_identity h - 1)))"

definition handle_from_raw :: "u64 \<Rightarrow> ResourceError + ResourceHandle" where
  "handle_from_raw raw =
     (if raw = 0 \<or> raw > 2 ^ 63 - 1
      then Inl (invalid_handle ''resource handle token must be a positive signed integer'')
      else let handle = ResourceHandle raw in
        if handle_arena_id handle = 0 \<or> handle_slot_identity handle = 0 \<or> handle_generation handle = 0
        then Inl (invalid_handle ''resource handle token has an invalid encoding'')
        else Inr handle)"

definition handle_encode :: "u64 \<Rightarrow> nat \<Rightarrow> u64 \<Rightarrow> ResourceHandle option" where
  "handle_encode arena_id slot_index generation =
     (case slot_identity_of slot_index of
        None \<Rightarrow> None
      | Some slot_identity \<Rightarrow>
          if arena_id = 0 \<or> arena_id > HANDLE_ARENA_MASK
            \<or> slot_identity = 0 \<or> slot_identity > HANDLE_SLOT_MASK
            \<or> generation = 0 \<or> generation > HANDLE_GENERATION_MASK
          then None
          else Some (ResourceHandle
            (push_bit HANDLE_ARENA_SHIFT arena_id OR push_bit HANDLE_SLOT_SHIFT slot_identity
             OR push_bit HANDLE_GENERATION_SHIFT generation)))"

section \<open>The close contract of a resource\<close>

datatype CloseProgress = CloseReady | ClosePending

text \<open>
  A boxed resource carries its concrete type, as the \<open>Box<dyn HostResource>\<close> does in its vtable.
  A \<open>TypeId\<close> is its printed form: the code compares type identities and prints them. The close
  methods are host code: functions of the concrete type, of the resource and of whatever lies
  outside the table, which they may change.
\<close>

type_synonym TypeId = string
type_synonym ResourceTypeKey = string

record 'r BoxedResource =
  vtable :: TypeId
  content :: 'r

record ('r, 'w) HostResource =
  resource_type_key_fn :: "TypeId \<Rightarrow> ResourceTypeKey option"
  begin_close_fn :: "TypeId \<Rightarrow> ResourceCloseReason \<Rightarrow> 'r \<Rightarrow> 'w \<Rightarrow> (ResourceError + CloseProgress) \<times> 'r \<times> 'w"
  poll_close_fn :: "TypeId \<Rightarrow> 'r \<Rightarrow> 'w \<Rightarrow> (ResourceError + unit) Poll \<times> 'r \<times> 'w"

text \<open>The default method bodies of the trait.\<close>

definition default_begin_close ::
  "TypeId \<Rightarrow> ResourceCloseReason \<Rightarrow> 'r \<Rightarrow> 'w \<Rightarrow> (ResourceError + CloseProgress) \<times> 'r \<times> 'w" where
  "default_begin_close tid reason r w = (Inr CloseReady, r, w)"

definition default_poll_close :: "TypeId \<Rightarrow> 'r \<Rightarrow> 'w \<Rightarrow> (ResourceError + unit) Poll \<times> 'r \<times> 'w" where
  "default_poll_close tid r w = (Ready (Inr ()), r, w)"

text \<open>The handles that exist: every constructor outside the module goes through \<open>from_raw\<close> or \<open>encode\<close>.\<close>

definition handle_valid :: "ResourceHandle \<Rightarrow> bool" where
  "handle_valid h \<longleftrightarrow> handle_from_raw (handle_raw h) = Inr h"

definition handle_slot :: "ResourceHandle \<Rightarrow> nat" where
  "handle_slot h = unat (handle_slot_identity h) - 1"

section \<open>The handle laws\<close>

lemmas handle_layout =
  HANDLE_GENERATION_BITS_def HANDLE_SLOT_BITS_def HANDLE_ARENA_BITS_def HANDLE_GENERATION_SHIFT_def
  HANDLE_SLOT_SHIFT_def HANDLE_ARENA_SHIFT_def HANDLE_GENERATION_MASK_def HANDLE_SLOT_MASK_def
  HANDLE_ARENA_MASK_def MAX_RESOURCE_SLOTS_def MAX_HANDLE_ARENA_ID_def MAX_HANDLE_GENERATION_def

lemma handle_masks:
  "HANDLE_GENERATION_MASK = mask 25" "HANDLE_SLOT_MASK = mask 18" "HANDLE_ARENA_MASK = mask 20"
  by (simp_all add: HANDLE_GENERATION_MASK_def HANDLE_SLOT_MASK_def HANDLE_ARENA_MASK_def
      HANDLE_GENERATION_BITS_def HANDLE_SLOT_BITS_def HANDLE_ARENA_BITS_def one_shifted
      del: push_bit_numeral push_bit_of_1)

lemma handle_shifts:
  "HANDLE_GENERATION_SHIFT = 0" "HANDLE_SLOT_SHIFT = 25" "HANDLE_ARENA_SHIFT = 18 + 25"
  by (simp_all add: handle_layout)

lemma handle_limits:
  "MAX_RESOURCE_SLOTS = 2 ^ 18 - 1" "unat MAX_HANDLE_ARENA_ID = 2 ^ 20 - 1"
  "unat MAX_HANDLE_GENERATION = 2 ^ 25 - 1"
  by (simp_all add: handle_layout)

lemma handle_fields:
  "handle_arena_id h = drop_bit (18 + 25) (handle_raw h) AND mask 20"
  "handle_slot_identity h = drop_bit 25 (handle_raw h) AND mask 18"
  "handle_generation h = handle_raw h AND mask 25"
  by (simp_all add: handle_arena_id_def handle_slot_identity_def handle_generation_def handle_masks
      handle_shifts)

lemma handle_encode_eq:
  "handle_encode a i g =
     (if a \<noteq> 0 \<and> a \<le> mask 20 \<and> i < 2 ^ 18 - 1 \<and> g \<noteq> 0 \<and> g \<le> mask 25
      then Some (ResourceHandle (push_bit (18 + 25) a OR push_bit 25 (of_nat (Suc i)) OR g))
      else None)"
proof (cases "Suc i < 2 ^ 64")
  case True
  then have id: "slot_identity_of i = Some (of_nat (Suc i))"
    by (simp only: slot_identity_of_eq if_True)
  have sid: "unat (of_nat (Suc i) :: u64) = Suc i"
    using True by (rule unat_u64)
  have "(of_nat (Suc i) :: u64) \<noteq> 0"
    using sid by (metis Zero_not_Suc unsigned_0)
  moreover have "\<not> mask 18 < (of_nat (Suc i) :: u64) \<longleftrightarrow> i < 2 ^ 18 - 1"
    unfolding not_less word_le_nat_alt sid by (auto simp: mask_eq_exp_minus_1)
  ultimately show ?thesis
    unfolding handle_encode_def id option.case handle_masks handle_shifts by auto
next
  case False
  then have "slot_identity_of i = None" by (simp only: slot_identity_of_eq if_False)
  with False show ?thesis by (simp add: handle_encode_def)
qed


lemma handle_valid_iff:
  "handle_valid h \<longleftrightarrow> handle_raw h \<le> mask 63 \<and>
     handle_arena_id h \<noteq> 0 \<and> handle_slot_identity h \<noteq> 0 \<and> handle_generation h \<noteq> 0"
proof -
  have "(2 ^ 63 - 1 :: u64) = mask 63" by (simp only: mask_eq_exp_minus_1)
  moreover have "handle_arena_id h \<noteq> 0 \<Longrightarrow> handle_raw h \<noteq> 0"
    by (auto simp: handle_fields)
  ultimately show ?thesis
    unfolding handle_valid_def handle_from_raw_def by (auto simp: Let_def not_less)
qed

interpretation handle_bits: packing handle_encode handle_valid handle_arena_id handle_slot
  handle_generation handle_raw ResourceHandle 20 18 25
  by unfold_locales (simp_all add: handle_fields handle_slot_def handle_valid_iff handle_encode_eq)

interpretation handle: packed_id handle_encode handle_valid handle_arena_id handle_slot
  handle_generation "unat MAX_HANDLE_ARENA_ID" MAX_RESOURCE_SLOTS "unat MAX_HANDLE_GENERATION"
  unfolding handle_limits by (rule handle_bits.packed_id_axioms)

end
