(* ===== verification/Resources.thy ===== *)
theory Resources
  imports Handles
begin

text \<open>
  The resource table of an execution scope, \<open>vm/resource/table.rs\<close>: the single owner of every
  erased host resource of the scope. A method runs on the table and on what lies outside it,
  which the close code of a resource may change.

  The guards \<open>get\<close> and \<open>get_mut\<close> hand out borrow the table itself, so no other method runs while
  a mutable one lives: a \<open>try_borrow\<close> of a slot always succeeds and has no branch here. A use of
  a mutable guard is the function the caller applies to the resource.
\<close>

section \<open>State\<close>

datatype 'r SlotState = Vacant | Open "'r BoxedResource" | Closing "'r BoxedResource"

record 'r ResourceSlot =
  generation :: u32
  type_id :: TypeId
  resource_type_key :: "ResourceTypeKey option"
  slot_state :: "'r SlotState"

record CloseAllReport =
  closed :: nat
  failed :: nat
  first_error :: "ResourceError option"

text \<open>The totals of a sweep that persist between polls are those of its report.\<close>

record CloseAllState =
  sweep_reason :: ResourceCloseReason
  totals :: CloseAllReport

text \<open>An erased entry of the scope state, \<open>Box<dyn Any>\<close>: the value with the identity of its type.\<close>

record 's BoxedState =
  state_type :: TypeId
  state_value :: 's

record ('r, 's) ResourceTable =
  arena_id :: u64
  max_entries :: nat
  slots :: "'r ResourceSlot list"
  vacant_slots :: "nat list"
  active_entries :: nat
  close_all_state :: "CloseAllState option"
  scope_states :: "TypeId \<rightharpoonup> 's BoxedState"

type_synonym ('r, 's, 'w, 'a) TableMethod =
  "(('r, 's) ResourceTable \<times> 'w, ResourceError fault, 'a) meth"

section \<open>Errors\<close>

definition wrong_arena_error :: "ResourceHandle \<Rightarrow> ResourceError" where
  "wrong_arena_error handle = res_with_value (handle_raw handle)
     (resource_error ResourceHandleWrongTable ''resource::table''
        ''resource handle does not belong to this table's arena'')"

definition stale_handle_error :: "ResourceHandle \<Rightarrow> ResourceError" where
  "stale_handle_error handle = res_with_value (handle_raw handle)
     (resource_error ResourceStale ''resource::table''
        ''resource handle refers to a stale slot generation'')"

definition already_closed_error :: "ResourceHandle \<Rightarrow> ResourceError" where
  "already_closed_error handle = res_with_value (handle_raw handle)
     (resource_error ResourceAlreadyClosed ''resource::table''
        ''resource is already closed or closing'')"

definition type_mismatch :: "ResourceHandle \<Rightarrow> TypeId \<Rightarrow> ResourceError" where
  "type_mismatch handle expected = res_with_value (handle_raw handle)
     (resource_error ResourceTypeMismatch ''resource::table''
        (''resource type does not match expected type '' @ expected))"

definition resource_type_key_mismatch ::
  "ResourceHandle option \<Rightarrow> ResourceTypeKey option \<Rightarrow> ResourceTypeKey \<Rightarrow> ResourceError" where
  "resource_type_key_mismatch handle actual expected =
     (let shown = (case actual of None \<Rightarrow> ''<none>'' | Some key \<Rightarrow> key);
          error = resource_error ResourceTypeKeyMismatch ''resource::table''
            (''resource type key does not match expected key '' @ [CHR 0x27] @ expected @ [CHR 0x27] @
             ''; actual key is '' @ [CHR 0x27] @ shown @ [CHR 0x27])
      in case handle of None \<Rightarrow> error | Some h \<Rightarrow> res_with_value (handle_raw h) error)"

definition not_closing_error :: "ResourceHandle \<Rightarrow> ResourceError" where
  "not_closing_error handle = res_with_value (handle_raw handle)
     (resource_error ResourceNotClosing ''resource::table''
        ''resource is not in the closing state'')"

definition close_in_progress_error ::
  "ResourceCloseReason \<Rightarrow> ResourceCloseReason \<Rightarrow> ResourceError" where
  "close_in_progress_error reason in_progress =
     resource_error ResourceCloseInProgress ''resource::poll_close_all''
       (''a close-all sweep is already in progress with reason `'' @ close_reason_as_str in_progress @
        ''`; requested reason `'' @ close_reason_as_str reason @ ''` was rejected'')"

section \<open>Construction\<close>

text \<open>\<open>NEXT_ARENA_ID\<close>, the process-wide counter, is the receiver of the constructors.\<close>

definition allocate_arena_id :: "(u64, ResourceError fault, u64) meth" where
  "allocate_arena_id =
     and_then (self id) (\<lambda>next.
     if next \<le> MAX_HANDLE_ARENA_ID then then_do (update (\<lambda>n. n + 1)) (ok next)
     else throw (resource_error ResourceTableArenaExhausted ''resource::table''
       ''resource table arena identity space is exhausted''))"

definition table_with_limit :: "nat \<Rightarrow> (u64, ResourceError fault, ('r, 's) ResourceTable) meth" where
  "table_with_limit limit =
     (if limit = 0 \<or> limit > MAX_RESOURCE_SLOTS
      then throw (res_with_limit MAX_RESOURCE_SLOTS
        (resource_error InvalidConfiguration ''resource::table''
          (''resource table capacity must be between 1 and '' @ decimal MAX_RESOURCE_SLOTS)))
      else
        and_then allocate_arena_id (\<lambda>arena.
        ok \<lparr>arena_id = arena, max_entries = limit, slots = [], vacant_slots = [],
            active_entries = 0, close_all_state = None, scope_states = Map.empty\<rparr>))"

definition table_new :: "(u64, ResourceError fault, ('r, 's) ResourceTable) meth" where
  "table_new = table_with_limit DEFAULT_MAX_RESOURCES"

definition table_len :: "('r, 's) ResourceTable \<Rightarrow> nat" where
  "table_len t = active_entries t"

definition table_is_empty :: "('r, 's) ResourceTable \<Rightarrow> bool" where
  "table_is_empty t \<longleftrightarrow> active_entries t = 0"

definition table_is_clean :: "('r, 's) ResourceTable \<Rightarrow> bool" where
  "table_is_clean t \<longleftrightarrow> table_is_empty t \<and> scope_states t = Map.empty"

section \<open>Slots\<close>

definition slot_at :: "nat \<Rightarrow> ('r, 's, 'w, 'r ResourceSlot) TableMethod" where
  "slot_at slot_index = and_then (own slots) (\<lambda>ss. expect (vec_get ss slot_index))"

definition set_slot :: "nat \<Rightarrow> 'r ResourceSlot \<Rightarrow> ('r, 's, 'w, unit) TableMethod" where
  "set_slot slot_index s = set_own (\<lambda>t. t\<lparr>slots := (slots t)[slot_index := s]\<rparr>)"

definition replace_slot_state :: "nat \<Rightarrow> 'r SlotState \<Rightarrow> ('r, 's, 'w, 'r SlotState) TableMethod" where
  "replace_slot_state slot_index st =
     and_then (slot_at slot_index) (\<lambda>s.
     then_do (set_slot slot_index (s\<lparr>slot_state := st\<rparr>)) (ok (slot_state s)))"

definition put_slot_state :: "nat \<Rightarrow> 'r SlotState \<Rightarrow> ('r, 's, 'w, unit) TableMethod" where
  "put_slot_state slot_index st =
     and_then (slot_at slot_index) (\<lambda>s. set_slot slot_index (s\<lparr>slot_state := st\<rparr>))"

definition reclaim :: "nat \<Rightarrow> ('r, 's, 'w, unit) TableMethod" where
  "reclaim slot_index =
     then_do (put_slot_state slot_index Vacant)
     (and_then (slot_at slot_index) (\<lambda>s.
     then_do (if ucast (generation s) < MAX_HANDLE_GENERATION
              then set_own (\<lambda>t. t\<lparr>vacant_slots := vacant_slots t @ [slot_index]\<rparr>)
              else ok ())
     (and_then (own active_entries) (\<lambda>n.
      and_then (expect (checked_sub_usize n 1)) (\<lambda>m.
      set_own (\<lambda>t. t\<lparr>active_entries := m\<rparr>))))))"

fun is_open :: "'r SlotState \<Rightarrow> bool" where
  "is_open (Open r) = True"
| "is_open _ = False"

fun is_closing :: "'r SlotState \<Rightarrow> bool" where
  "is_closing (Closing r) = True"
| "is_closing _ = False"

fun is_vacant :: "'r SlotState \<Rightarrow> bool" where
  "is_vacant Vacant = True"
| "is_vacant _ = False"

definition indices_where :: "('r SlotState \<Rightarrow> bool) \<Rightarrow> 'r ResourceSlot list \<Rightarrow> nat list" where
  "indices_where P ss = filter (\<lambda>i. P (slot_state (ss ! i))) [0..<length ss]"

definition open_indices :: "('r, 's, 'w, nat list) TableMethod" where
  "open_indices = own (\<lambda>t. indices_where is_open (slots t))"

definition closing_indices :: "('r, 's, 'w, nat list) TableMethod" where
  "closing_indices = own (\<lambda>t. indices_where is_closing (slots t))"

definition live_indices :: "('r, 's, 'w, nat list) TableMethod" where
  "live_indices = own (\<lambda>t. indices_where (\<lambda>st. \<not> is_vacant st) (slots t))"

section \<open>Allocation\<close>

definition checked_add_u32 :: "u32 \<Rightarrow> u32 \<Rightarrow> u32 option" where
  "checked_add_u32 a b = (if unat a + unat b < 2 ^ 32 then Some (a + b) else None)"

definition next_generation :: "u32 \<Rightarrow> u32 option" where
  "next_generation g =
     Option.bind (checked_add_u32 g 1) (\<lambda>n. if ucast n \<le> MAX_HANDLE_GENERATION then Some n else None)"

definition allocate ::
  "('r, 'w) HostResource \<Rightarrow> TypeId \<Rightarrow> 'r \<Rightarrow> ('r, 's, 'w, ResourceHandle) TableMethod" where
  "allocate H tid v =
     and_then (own active_entries) (\<lambda>active.
     and_then (own max_entries) (\<lambda>capacity.
     then_do (guard_err (active \<ge> capacity)
       (Raised (res_with_limit capacity
         (resource_error ResourceLimitExceeded ''resource::push''
           ''resource table capacity has been reached''))))
     (let key = resource_type_key_fn H tid; boxed = \<lparr>vtable = tid, content = v\<rparr> in
      and_then (own vacant_slots) (\<lambda>vacant.
      and_then
        (if vacant \<noteq> [] then
           let slot_index = last vacant in
           then_do (set_own (\<lambda>t. t\<lparr>vacant_slots := butlast (vacant_slots t)\<rparr>))
           (and_then (slot_at slot_index) (\<lambda>s.
            and_then (expect (next_generation (generation s))) (\<lambda>g.
            then_do (set_slot slot_index
              (s\<lparr>generation := g, type_id := tid, resource_type_key := key, slot_state := Open boxed\<rparr>))
            (ok (slot_index, g)))))
         else
           and_then (own slots) (\<lambda>ss.
           if length ss \<ge> MAX_RESOURCE_SLOTS
           then throw (resource_error ResourceIdExhausted ''resource::push''
                  ''resource table slot space is exhausted'')
           else then_do (set_own (\<lambda>t. t\<lparr>slots := slots t @
                  [\<lparr>generation = 1, type_id = tid, resource_type_key = key, slot_state = Open boxed\<rparr>]\<rparr>))
                (ok (length ss, 1))))
      (\<lambda>(slot_index, g).
        and_then (expect (checked_add_usize active 1)) (\<lambda>n.
        then_do (set_own (\<lambda>t. t\<lparr>active_entries := n\<rparr>))
        (and_then (own arena_id) (\<lambda>arena.
         ok_or (handle_encode arena slot_index (ucast g))
           (Raised (resource_error ResourceIdExhausted ''resource::push''
             ''resource handle encoding overflowed''))))))))))"

text \<open>A \<open>Resource<T>\<close> is its handle; the type argument of a method is the type identity it passes.\<close>

definition push ::
  "('r, 'w) HostResource \<Rightarrow> TypeId \<Rightarrow> 'r \<Rightarrow> ('r, 's, 'w, ResourceHandle) TableMethod" where
  "push H tid v = allocate H tid v"

section \<open>Validation\<close>

definition check_generation :: "nat \<Rightarrow> ResourceHandle \<Rightarrow> ('r, 's, 'w, unit) TableMethod" where
  "check_generation slot_index handle =
     and_then (slot_at slot_index) (\<lambda>s.
     guard_err (ucast (generation s) \<noteq> handle_generation handle) (Raised (stale_handle_error handle)))"

definition resolve_index :: "ResourceHandle \<Rightarrow> ('r, 's, 'w, nat) TableMethod" where
  "resolve_index handle =
     and_then (own arena_id) (\<lambda>arena.
     then_do (guard_err (handle_arena_id handle \<noteq> arena) (Raised (wrong_arena_error handle)))
     (and_then (expect (handle_slot_index handle)) (\<lambda>slot_index.
      and_then (own slots) (\<lambda>ss.
      then_do (guard_err (slot_index \<ge> length ss) (Raised (stale_handle_error handle)))
      (then_do (check_generation slot_index handle) (ok slot_index))))))"

definition check_type :: "TypeId \<Rightarrow> nat \<Rightarrow> ResourceHandle \<Rightarrow> ('r, 's, 'w, unit) TableMethod" where
  "check_type tid slot_index handle =
     and_then (slot_at slot_index) (\<lambda>s.
     guard_err (type_id s \<noteq> tid) (Raised (type_mismatch handle tid)))"

definition validate_active :: "TypeId \<Rightarrow> ResourceHandle \<Rightarrow> ('r, 's, 'w, nat) TableMethod" where
  "validate_active tid handle =
     and_then (resolve_index handle) (\<lambda>slot_index.
     then_do (check_type tid slot_index handle)
     (and_then (slot_at slot_index) (\<lambda>s.
      then_do (guard_err (\<not> is_open (slot_state s)) (Raised (already_closed_error handle)))
      (ok slot_index))))"

definition typed :: "TypeId \<Rightarrow> ResourceHandle \<Rightarrow> ('r, 's, 'w, ResourceHandle) TableMethod" where
  "typed tid handle = then_do (validate_active tid handle) (ok handle)"

definition validate_resource_type_key ::
  "ResourceHandle \<Rightarrow> ResourceTypeKey \<Rightarrow> ('r, 's, 'w, unit) TableMethod" where
  "validate_resource_type_key handle expected =
     and_then (resolve_index handle) (\<lambda>slot_index.
     and_then (slot_at slot_index) (\<lambda>s.
     then_do (guard_err (\<not> is_open (slot_state s)) (Raised (already_closed_error handle)))
     (guard_err (resource_type_key s \<noteq> Some expected)
       (Raised (resource_type_key_mismatch (Some handle) (resource_type_key s) expected)))))"

definition validate_concrete_resource_type_key ::
  "('r, 'w) HostResource \<Rightarrow> TypeId \<Rightarrow> ResourceTypeKey \<Rightarrow> ResourceError + unit" where
  "validate_concrete_resource_type_key H tid expected =
     (if resource_type_key_fn H tid = Some expected then Inr ()
      else Inl (resource_type_key_mismatch None (resource_type_key_fn H tid) expected))"

section \<open>Borrowing and taking\<close>

definition borrow_open :: "nat \<Rightarrow> ('r, 's, 'w, 'r BoxedResource) TableMethod" where
  "borrow_open slot_index =
     and_then (slot_at slot_index) (\<lambda>s.
     case slot_state s of Open boxed \<Rightarrow> ok boxed | _ \<Rightarrow> err Panicked)"

definition downcast :: "TypeId \<Rightarrow> 'r BoxedResource \<Rightarrow> 'r option" where
  "downcast tid boxed = (if vtable boxed = tid then Some (content boxed) else None)"

definition get :: "TypeId \<Rightarrow> ResourceHandle \<Rightarrow> ('r, 's, 'w, 'r) TableMethod" where
  "get tid handle =
     and_then (validate_active tid handle) (\<lambda>slot_index.
     and_then (borrow_open slot_index) (\<lambda>boxed. expect (downcast tid boxed)))"

definition get_mut ::
  "TypeId \<Rightarrow> ResourceHandle \<Rightarrow> ('r \<Rightarrow> 'r) \<Rightarrow> ('r, 's, 'w, unit) TableMethod" where
  "get_mut tid handle f =
     and_then (validate_active tid handle) (\<lambda>slot_index.
     and_then (borrow_open slot_index) (\<lambda>boxed.
     and_then (expect (downcast tid boxed)) (\<lambda>r.
     put_slot_state slot_index (Open (boxed\<lparr>content := f r\<rparr>)))))"

definition table_take :: "TypeId \<Rightarrow> ResourceHandle \<Rightarrow> ('r, 's, 'w, 'r) TableMethod" where
  "table_take tid handle =
     and_then (resolve_index handle) (\<lambda>slot_index.
     then_do (check_type tid slot_index handle)
     (and_then (replace_slot_state slot_index Vacant) (\<lambda>st.
      case st of
        Open boxed \<Rightarrow>
          then_do (reclaim slot_index)
          (ok_or (downcast tid boxed) (Raised (type_mismatch handle tid)))
      | Closing boxed \<Rightarrow>
          then_do (put_slot_state slot_index (Closing boxed)) (throw (already_closed_error handle))
      | Vacant \<Rightarrow> throw (already_closed_error handle))))"

section \<open>Closing one resource\<close>

definition resource_begin_close ::
  "('r, 'w) HostResource \<Rightarrow> ResourceCloseReason \<Rightarrow> 'r BoxedResource \<Rightarrow>
     ('r, 's, 'w, (ResourceError + CloseProgress) \<times> 'r BoxedResource) TableMethod" where
  "resource_begin_close H reason boxed =
     outside (\<lambda>w. case begin_close_fn H (vtable boxed) reason (content boxed) w of
       (result, r, w') \<Rightarrow> ((result, boxed\<lparr>content := r\<rparr>), w'))"

definition resource_poll_close ::
  "('r, 'w) HostResource \<Rightarrow> 'r BoxedResource \<Rightarrow>
     ('r, 's, 'w, (ResourceError + unit) Poll \<times> 'r BoxedResource) TableMethod" where
  "resource_poll_close H boxed =
     outside (\<lambda>w. case poll_close_fn H (vtable boxed) (content boxed) w of
       (result, r, w') \<Rightarrow> ((result, boxed\<lparr>content := r\<rparr>), w'))"

definition close_open_slot ::
  "('r, 'w) HostResource \<Rightarrow> nat \<Rightarrow> ResourceHandle \<Rightarrow> ResourceCloseReason \<Rightarrow>
     ('r, 's, 'w, CloseProgress) TableMethod" where
  "close_open_slot H slot_index handle reason =
     and_then (replace_slot_state slot_index Vacant) (\<lambda>st.
     case st of
       Open boxed \<Rightarrow>
         and_then (resource_begin_close H reason boxed) (\<lambda>(result, boxed').
         case result of
           Inr CloseReady \<Rightarrow> then_do (reclaim slot_index) (ok CloseReady)
         | Inr ClosePending \<Rightarrow>
             then_do (put_slot_state slot_index (Closing boxed')) (ok ClosePending)
         | Inl error \<Rightarrow> then_do (put_slot_state slot_index (Open boxed')) (throw error))
     | Closing boxed \<Rightarrow>
         then_do (put_slot_state slot_index (Closing boxed)) (ok ClosePending)
     | Vacant \<Rightarrow> throw (already_closed_error handle))"

definition begin_close ::
  "('r, 'w) HostResource \<Rightarrow> TypeId \<Rightarrow> ResourceHandle \<Rightarrow> ResourceCloseReason \<Rightarrow>
     ('r, 's, 'w, CloseProgress) TableMethod" where
  "begin_close H tid handle reason =
     and_then (resolve_index handle) (\<lambda>slot_index.
     then_do (check_type tid slot_index handle)
     (close_open_slot H slot_index handle reason))"

definition poll_close ::
  "('r, 'w) HostResource \<Rightarrow> TypeId \<Rightarrow> ResourceHandle \<Rightarrow> ('r, 's, 'w, unit Poll) TableMethod" where
  "poll_close H tid handle =
     and_then (resolve_index handle) (\<lambda>slot_index.
     then_do (check_type tid slot_index handle)
     (and_then (replace_slot_state slot_index Vacant) (\<lambda>st.
      case st of
        Closing boxed \<Rightarrow>
          and_then (resource_poll_close H boxed) (\<lambda>(result, boxed').
          case result of
            Ready r \<Rightarrow>
              then_do (reclaim slot_index)
              (case r of Inr _ \<Rightarrow> ok (Ready ()) | Inl error \<Rightarrow> throw error)
          | Pending \<Rightarrow>
              then_do (put_slot_state slot_index (Closing boxed')) (ok Pending))
      | Open boxed \<Rightarrow>
          then_do (put_slot_state slot_index (Open boxed)) (throw (not_closing_error handle))
      | Vacant \<Rightarrow> throw (already_closed_error handle))))"

section \<open>Closing all resources\<close>

text \<open>
  The sweep counts what it closes in three variables it passes by reference; here they go in and
  out as a record. \<open>get_or_insert\<close> keeps the first error.
\<close>

definition get_or_insert :: "'a option \<Rightarrow> 'a \<Rightarrow> 'a option" where
  "get_or_insert slot v = (case slot of None \<Rightarrow> Some v | Some u \<Rightarrow> Some u)"

definition count_closed :: "CloseAllReport \<Rightarrow> CloseAllReport" where
  "count_closed y = y\<lparr>closed := closed y + 1\<rparr>"

definition count_failed :: "ResourceError \<Rightarrow> CloseAllReport \<Rightarrow> CloseAllReport" where
  "count_failed error y =
     y\<lparr>failed := failed y + 1, first_error := get_or_insert (first_error y) error\<rparr>"

definition try_begin_close ::
  "('r, 'w) HostResource \<Rightarrow> nat \<Rightarrow> ResourceCloseReason \<Rightarrow> CloseAllReport \<Rightarrow>
     ('r, 's, 'w, bool \<times> CloseAllReport) TableMethod" where
  "try_begin_close H slot_index reason y =
     and_then (replace_slot_state slot_index Vacant) (\<lambda>st.
     case st of
       Open boxed \<Rightarrow>
         and_then (resource_begin_close H reason boxed) (\<lambda>(result, boxed').
         case result of
           Inr CloseReady \<Rightarrow> then_do (reclaim slot_index) (ok (True, count_closed y))
         | Inr ClosePending \<Rightarrow> then_do (put_slot_state slot_index (Closing boxed')) (ok (True, y))
         | Inl error \<Rightarrow>
             then_do (reclaim slot_index) (ok (True, count_failed error (count_closed y))))
     | _ \<Rightarrow> then_do (put_slot_state slot_index st) (ok (False, y)))"

definition try_poll_close ::
  "('r, 'w) HostResource \<Rightarrow> nat \<Rightarrow> CloseAllReport \<Rightarrow>
     ('r, 's, 'w, bool \<times> CloseAllReport) TableMethod" where
  "try_poll_close H slot_index y =
     and_then (replace_slot_state slot_index Vacant) (\<lambda>st.
     case st of
       Closing boxed \<Rightarrow>
         and_then (resource_poll_close H boxed) (\<lambda>(result, boxed').
         case result of
           Ready r \<Rightarrow>
             then_do (reclaim slot_index)
             (ok (True, case r of Inr _ \<Rightarrow> count_closed y | Inl error \<Rightarrow> count_failed error (count_closed y)))
         | Pending \<Rightarrow> then_do (put_slot_state slot_index (Closing boxed')) (ok (False, y)))
     | _ \<Rightarrow> then_do (put_slot_state slot_index st) (ok (False, y)))"

definition or_progress ::
  "(nat \<Rightarrow> CloseAllReport \<Rightarrow> ('r, 's, 'w, bool \<times> CloseAllReport) TableMethod) \<Rightarrow>
     nat \<Rightarrow> bool \<times> CloseAllReport \<Rightarrow> ('r, 's, 'w, bool \<times> CloseAllReport) TableMethod" where
  "or_progress m slot_index acc = (case acc of (progressed, y) \<Rightarrow>
     and_then (m slot_index y) (\<lambda>(p, y'). ok (progressed \<or> p, y')))"

definition sweep_pass ::
  "('r, 'w) HostResource \<Rightarrow> ResourceCloseReason \<Rightarrow> CloseAllReport \<Rightarrow>
     ('r, 's, 'w, bool \<times> CloseAllReport) TableMethod" where
  "sweep_pass H reason y =
     and_then open_indices (\<lambda>opens.
     and_then (fold_each opens (or_progress (\<lambda>slot_index. try_begin_close H slot_index reason)) (False, y))
       (\<lambda>begun.
     and_then closing_indices (\<lambda>closings.
     fold_each closings (or_progress (try_poll_close H)) begun)))"

text \<open>
  The effects of the slot operations, by which the methods above run symbolically. A pass that
  reports progress has moved a slot towards vacancy, which bounds the sweep.
\<close>

definition with_state :: "nat \<Rightarrow> 'r SlotState \<Rightarrow> ('r, 's) ResourceTable \<Rightarrow> ('r, 's) ResourceTable" where
  "with_state i st t = t\<lparr>slots := (slots t)[i := (slots t ! i)\<lparr>slot_state := st\<rparr>]\<rparr>"

definition retire :: "nat \<Rightarrow> ('r, 's) ResourceTable \<Rightarrow> ('r, 's) ResourceTable" where
  "retire i t =
     (if ucast (generation (slots t ! i)) < MAX_HANDLE_GENERATION
      then (with_state i Vacant t)\<lparr>vacant_slots := vacant_slots t @ [i]\<rparr>
      else with_state i Vacant t)"

definition vacate :: "nat \<Rightarrow> ('r, 's) ResourceTable \<Rightarrow> ('r, 's) ResourceTable" where
  "vacate i t = (retire i t)\<lparr>active_entries := active_entries t - 1\<rparr>"

fun close_work :: "'r SlotState \<Rightarrow> nat" where
  "close_work Vacant = 0"
| "close_work (Closing r) = 1"
| "close_work (Open r) = 2"

definition table_work :: "('r, 's) ResourceTable \<Rightarrow> nat" where
  "table_work t = (\<Sum>s\<leftarrow>slots t. close_work (slot_state s))"

lemma wp_slot_at [wp_simps]:
  "wp (slot_at i) Q E (t, w) =
     (if i < length (slots t) then Q (slots t ! i) (t, w) else E Panicked (t, w))"
  by (simp add: slot_at_def wp_simps vec_get_def)

lemma wp_replace_slot_state [wp_simps]:
  "wp (replace_slot_state i st) Q E (t, w) =
     (if i < length (slots t) then Q (slot_state (slots t ! i)) (with_state i st t, w)
      else E Panicked (t, w))"
  by (simp add: replace_slot_state_def set_slot_def wp_simps with_state_def)

lemma wp_put_slot_state [wp_simps]:
  "wp (put_slot_state i st) Q E (t, w) =
     (if i < length (slots t) then Q () (with_state i st t, w) else E Panicked (t, w))"
  by (simp add: put_slot_state_def set_slot_def wp_simps with_state_def)

lemma with_state_simps [simp]:
  "length (slots (with_state i st t)) = length (slots t)"
  "arena_id (with_state i st t) = arena_id t"
  "max_entries (with_state i st t) = max_entries t"
  "vacant_slots (with_state i st t) = vacant_slots t"
  "active_entries (with_state i st t) = active_entries t"
  "close_all_state (with_state i st t) = close_all_state t"
  "scope_states (with_state i st t) = scope_states t"
  "i < length (slots t) \<Longrightarrow> slots (with_state i st t) ! i = (slots t ! i)\<lparr>slot_state := st\<rparr>"
  "i < length (slots t) \<Longrightarrow> with_state i st (with_state i st' t) = with_state i st t"
  by (simp_all add: with_state_def)

lemma with_state_same [simp]:
  "slot_state (slots t ! i) = st \<Longrightarrow> with_state i st t = t"
  by (auto simp: with_state_def)

lemma retire_with_state [simp]: "i < length (slots t) \<Longrightarrow> retire i (with_state i st t) = retire i t"
  by (simp add: retire_def)

lemma vacate_with_state [simp]: "i < length (slots t) \<Longrightarrow> vacate i (with_state i st t) = vacate i t"
  by (simp add: vacate_def)

lemma wp_reclaim [wp_simps]:
  "wp (reclaim i) Q E (t, w) =
     (if i < length (slots t)
      then (if 0 < active_entries t then Q () (vacate i t, w) else E Panicked (retire i t, w))
      else E Panicked (t, w))"
  by (simp add: reclaim_def wp_simps retire_def vacate_def checked_sub_usize_def)

lemma sum_list_update_nat:
  "i < length xs \<Longrightarrow> (\<Sum>s\<leftarrow>xs[i := x]. f s) + f (xs ! i) = (\<Sum>s\<leftarrow>xs. f s) + f x" for f :: "'b \<Rightarrow> nat"
  by (induction xs arbitrary: i) (auto split: nat.splits)

lemma close_work_update:
  "i < length (slots t) \<Longrightarrow>
   table_work (with_state i st t) + close_work (slot_state (slots t ! i)) = table_work t + close_work st"
  using sum_list_update_nat [of i "slots t" "\<lambda>s. close_work (slot_state s)"]
  by (simp add: table_work_def with_state_def)

lemma table_work_vacate:
  "i < length (slots t) \<Longrightarrow> table_work (vacate i t) + close_work (slot_state (slots t ! i)) = table_work t"
  using close_work_update [of i t Vacant] by (simp add: vacate_def retire_def table_work_def)

lemma table_work_moves:
  assumes "i < length (slots t)"
  shows "slot_state (slots t ! i) = Open b \<Longrightarrow> table_work (with_state i (Closing c) t) < table_work t"
    and "slot_state (slots t ! i) = Closing b \<Longrightarrow> table_work (with_state i (Closing c) t) = table_work t"
    and "slot_state (slots t ! i) = Open b \<Longrightarrow> table_work (vacate i t) < table_work t"
    and "slot_state (slots t ! i) = Closing b \<Longrightarrow> table_work (vacate i t) < table_work t"
  using close_work_update [OF assms, of "Closing c"] table_work_vacate [OF assms] by auto

text \<open>What a method that works on one occupied slot may do to the table.\<close>

inductive slot_move :: "nat \<Rightarrow> ('r, 's) ResourceTable \<Rightarrow> ('r, 's) ResourceTable \<Rightarrow> bool" for i where
  stays: "slot_move i t t"
| touched: "i < length (slots t) \<Longrightarrow> slot_state (slots t ! i) = Open b \<Longrightarrow>
     slot_move i t (with_state i (Open (b\<lparr>content := r\<rparr>)) t)"
| closing: "i < length (slots t) \<Longrightarrow>
     slot_state (slots t ! i) = Open b \<or> slot_state (slots t ! i) = Closing b \<Longrightarrow>
     slot_move i t (with_state i (Closing (b\<lparr>content := r\<rparr>)) t)"
| vacated: "i < length (slots t) \<Longrightarrow> slot_state (slots t ! i) \<noteq> Vacant \<Longrightarrow> slot_move i t (vacate i t)"

lemma wp_try_begin_close:
  "wp (try_begin_close H i reason y)
     (\<lambda>(p, y') (u, w'). slot_move i t u \<and>
        (if p then table_work u < table_work t else table_work u = table_work t))
     (\<lambda>e s. e = Panicked \<and>
        (length (slots t) \<le> i \<or> active_entries t = 0 \<and> slot_state (slots t ! i) \<noteq> Vacant)) (t, w)"
  unfolding try_begin_close_def resource_begin_close_def
  by (auto simp: wp_simps slot_move.intros table_work_moves
      split: SlotState.splits sum.splits CloseProgress.splits prod.splits)

lemma wp_try_poll_close:
  "wp (try_poll_close H i y)
     (\<lambda>(p, y') (u, w'). slot_move i t u \<and>
        (if p then table_work u < table_work t else table_work u = table_work t))
     (\<lambda>e s. e = Panicked \<and>
        (length (slots t) \<le> i \<or> active_entries t = 0 \<and> slot_state (slots t ! i) \<noteq> Vacant)) (t, w)"
  unfolding try_poll_close_def resource_poll_close_def
  by (auto simp: wp_simps slot_move.intros table_work_moves
      split: SlotState.splits sum.splits Poll.splits prod.splits)

text \<open>The loops of a pass, for a count \<open>f\<close> that drops with every progress and an invariant \<open>J\<close>.\<close>

lemma wp_fold_progress:
  fixes f :: "('r, 's) ResourceTable \<times> 'w \<Rightarrow> nat"
  assumes "if p then f s < n else f s = n" and "J y s"
    and "\<And>x y s. x \<in> set xs \<Longrightarrow> J y s \<Longrightarrow>
      wp (m x y) (\<lambda>(p, y') u. J y' u \<and> (if p then f u < f s else f u = f s)) E s"
    and "\<And>p y u. J y u \<Longrightarrow> (if p then f u < n else f u = n) \<Longrightarrow> Q (p, y) u"
  shows "wp (fold_each xs (or_progress m) (p, y)) Q E s"
proof (rule wp_fold_each [of "\<lambda>(p, y) s. J y s \<and> (if p then f s < n else f s = n)"])
  fix x py t
  assume x: "x \<in> set xs" and "(case py of (p, y) \<Rightarrow> \<lambda>s. J y s \<and> (if p then f s < n else f s = n)) t"
  then show "wp (or_progress m x py) (\<lambda>(p, y) s. J y s \<and> (if p then f s < n else f s = n)) E t"
    using assms(3) [OF x, of "snd py" t]
    by (auto simp: or_progress_def wp_simps split: prod.splits if_splits elim!: wp_use)
qed (use assms in auto)

lemma sweep_pass_progress:
  "wp (sweep_pass H reason y) (\<lambda>(p, y') s. p \<longrightarrow> table_work (fst s) < table_work (fst s0)) (\<lambda>_ _. True) s0"
proof -
  have begins: "wp (try_begin_close H x reason y) (\<lambda>(p, y') u. True \<and>
      (if p then table_work (fst u) < table_work (fst s) else table_work (fst u) = table_work (fst s)))
      (\<lambda>_ _. True) s" for x y s
    using wp_try_begin_close [of H x reason y "fst s" "snd s"] by (auto elim!: wp_use)
  have polls: "wp (try_poll_close H x y) (\<lambda>(p, y') u. True \<and>
      (if p then table_work (fst u) < table_work (fst s) else table_work (fst u) = table_work (fst s)))
      (\<lambda>_ _. True) s" for x y s
    using wp_try_poll_close [of H x y "fst s" "snd s"] by (auto elim!: wp_use)
  show ?thesis
    unfolding sweep_pass_def wp_simps open_indices_def closing_indices_def
    by (cases s0) (auto simp: wp_simps intro!: begins polls
      wp_fold_progress [where f = "\<lambda>s. table_work (fst s)" and J = "\<lambda>_ _. True" and n = "table_work (fst s0)"])
qed

function sweep ::
  "('r, 'w) HostResource \<Rightarrow> ResourceCloseReason \<Rightarrow> CloseAllReport \<Rightarrow>
     ('r, 's, 'w, CloseAllReport) TableMethod" where
  "sweep H reason y s =
     (case sweep_pass H reason y s of
        (Inl e, s') \<Rightarrow> (Inl e, s')
      | (Inr (progressed, y'), s') \<Rightarrow> if progressed then sweep H reason y' s' else (Inr y', s'))"
  by pat_completeness auto

termination sweep
proof (relation "measure (\<lambda>(H, reason, y, s). table_work (fst s))")
  fix H :: "('r, 'w) HostResource" and reason y and s :: "('r, 's) ResourceTable \<times> 'w" and r s' x p y'
  assume "(r, s') = sweep_pass H reason y s" "r = Inr x" "(p, y') = x" "p"
  then show "((H, reason, y', s'), H, reason, y, s) \<in> measure (\<lambda>(H, reason, y, s). table_work (fst s))"
    using sweep_pass_progress [of H reason y s] by (auto simp: wp_def split: prod.splits)
qed simp

declare sweep.simps [simp del]

definition clear_scope_states :: "('r, 's, 'w, unit) TableMethod" where
  "clear_scope_states = set_own (\<lambda>t. t\<lparr>scope_states := Map.empty\<rparr>)"

definition poll_close_all_report ::
  "('r, 'w) HostResource \<Rightarrow> ResourceCloseReason \<Rightarrow> ('r, 's, 'w, CloseAllReport Poll) TableMethod" where
  "poll_close_all_report H reason =
     and_then (own close_all_state) (\<lambda>running.
     then_do (case running of
         None \<Rightarrow> set_own (\<lambda>t. t\<lparr>close_all_state :=
           Some \<lparr>sweep_reason = reason, totals = \<lparr>closed = 0, failed = 0, first_error = None\<rparr>\<rparr>\<rparr>)
       | Some state \<Rightarrow> guard_err (sweep_reason state \<noteq> reason)
           (Raised (close_in_progress_error reason (sweep_reason state))))
     (and_then (own close_all_state) (\<lambda>running.
      and_then (expect running) (\<lambda>state.
      and_then (sweep H (sweep_reason state) (totals state)) (\<lambda>y.
      then_do (set_own (\<lambda>t. t\<lparr>close_all_state := map_option (totals_update (\<lambda>_. y)) (close_all_state t)\<rparr>))
      (and_then (own table_is_empty) (\<lambda>quiescent.
       if quiescent then
         then_do (set_own (\<lambda>t. t\<lparr>close_all_state := None\<rparr>))
         (then_do clear_scope_states (ok (Ready y)))
       else ok Pending)))))))"

definition poll_close_all ::
  "('r, 'w) HostResource \<Rightarrow> ResourceCloseReason \<Rightarrow> ('r, 's, 'w, nat Poll) TableMethod" where
  "poll_close_all H reason =
     and_then (poll_close_all_report H reason) (\<lambda>result.
     case result of
       Pending \<Rightarrow> ok Pending
     | Ready report \<Rightarrow> (case first_error report of
           Some error \<Rightarrow> throw error
         | None \<Rightarrow> ok (Ready (closed report))))"

definition close_all ::
  "('r, 'w) HostResource \<Rightarrow> ResourceCloseReason \<Rightarrow> ('r, 's, 'w, nat) TableMethod" where
  "close_all H reason =
     and_then (poll_close_all H reason) (\<lambda>result.
     case result of
       Ready n \<Rightarrow> ok n
     | Pending \<Rightarrow> throw (resource_error ResourceClosePending ''resource::close_all''
         ''synchronous close-all cannot drive pending resources to quiescence''))"

definition begin_drop_close ::
  "('r, 'w) HostResource \<Rightarrow> ResourceCloseReason \<Rightarrow> nat \<Rightarrow> ResourceError option \<Rightarrow>
     ('r, 's, 'w, ResourceError option) TableMethod" where
  "begin_drop_close H reason slot_index first =
     and_then (replace_slot_state slot_index Vacant) (\<lambda>st.
     case st of
       Open boxed \<Rightarrow>
         and_then (resource_begin_close H reason boxed) (\<lambda>(result, boxed').
         case result of
           Inr CloseReady \<Rightarrow> then_do (reclaim slot_index) (ok first)
         | Inr ClosePending \<Rightarrow> then_do (put_slot_state slot_index (Closing boxed')) (ok first)
         | Inl error \<Rightarrow>
             then_do (put_slot_state slot_index (Open boxed')) (ok (get_or_insert first error)))
     | _ \<Rightarrow> then_do (put_slot_state slot_index st) (ok first))"

definition begin_close_remaining_for_drop ::
  "('r, 'w) HostResource \<Rightarrow> ResourceCloseReason \<Rightarrow> ('r, 's, 'w, unit) TableMethod" where
  "begin_close_remaining_for_drop H reason =
     and_then live_indices (\<lambda>indices.
     and_then (fold_each indices (begin_drop_close H reason) None) (\<lambda>first.
     case first of Some error \<Rightarrow> throw error | None \<Rightarrow> ok ()))"

definition drop_table :: "('r, 'w) HostResource \<Rightarrow> ('r, 's, 'w, unit) TableMethod" where
  "drop_table H = then_do (attempt (close_all H VmReset)) (ok ())"

section \<open>Resources added since a snapshot\<close>

definition handle_at :: "nat \<Rightarrow> ('r, 's, 'w, ResourceHandle option) TableMethod" where
  "handle_at index =
     and_then (slot_at index) (\<lambda>s.
     own (\<lambda>t. handle_encode (arena_id t) index (ucast (generation s))))"

definition live_handles :: "('r, 's, 'w, ResourceHandle set) TableMethod" where
  "live_handles =
     and_then live_indices (\<lambda>indices.
     and_then (collect_each indices (\<lambda>index.
        and_then (handle_at index) (\<lambda>h. ok_or h
          (Raised (resource_error ResourceIdExhausted ''resource::snapshot''
            ''live resource handle cannot be encoded'')))))
     (\<lambda>handles. ok (set handles)))"

definition close_added ::
  "('r, 'w) HostResource \<Rightarrow> ResourceHandle set \<Rightarrow> nat \<Rightarrow> CloseAllReport \<Rightarrow>
     ('r, 's, 'w, CloseAllReport) TableMethod" where
  "close_added H before index y =
     and_then (handle_at index) (\<lambda>h.
     and_then (expect h) (\<lambda>handle.
     if handle \<in> before then ok y
     else
       and_then (try_begin_close H index Requested y) (\<lambda>(_, y).
       and_then (try_poll_close H index y) (\<lambda>(_, y). ok y))))"

text \<open>The slot for the cleanup error is passed by reference: it goes in and comes out.\<close>

definition poll_close_added ::
  "('r, 'w) HostResource \<Rightarrow> ResourceHandle set \<Rightarrow> ResourceError option \<Rightarrow>
     ('r, 's, 'w, (ResourceError + unit) Poll \<times> ResourceError option) TableMethod" where
  "poll_close_added H before cleanup_error =
     and_then live_indices (\<lambda>indices.
     and_then (fold_each indices (close_added H before) \<lparr>closed = 0, failed = 0, first_error = None\<rparr>) (\<lambda>y.
     let cleanup_error = (case first_error y of
           Some error \<Rightarrow> get_or_insert cleanup_error error | None \<Rightarrow> cleanup_error) in
     and_then live_handles (\<lambda>handles.
     if handles \<subseteq> before
     then ok (Ready (case cleanup_error of None \<Rightarrow> Inr () | Some error \<Rightarrow> Inl error), cleanup_error)
     else ok (Pending, cleanup_error))))"

section \<open>Typed scope state\<close>

text \<open>A reference into the map is the function its holder applies to the entry.\<close>

definition downcast_state :: "TypeId \<Rightarrow> 's BoxedState \<Rightarrow> 's option" where
  "downcast_state tid erased = (if state_type erased = tid then Some (state_value erased) else None)"

definition put_scope_state :: "TypeId \<Rightarrow> 's BoxedState option \<Rightarrow> ('r, 's, 'w, unit) TableMethod" where
  "put_scope_state tid entry = set_own (\<lambda>t. t\<lparr>scope_states := (scope_states t)(tid := entry)\<rparr>)"

definition scope_state_or_insert_with ::
  "TypeId \<Rightarrow> 's \<Rightarrow> ('s \<Rightarrow> 's) \<Rightarrow> ('r, 's, 'w, 's) TableMethod" where
  "scope_state_or_insert_with tid init f =
     and_then (own (\<lambda>t. scope_states t tid)) (\<lambda>entry.
     let erased = (case entry of Some b \<Rightarrow> b | None \<Rightarrow> \<lparr>state_type = tid, state_value = init\<rparr>) in
     then_do (put_scope_state tid (Some erased))
     (and_then (expect (downcast_state tid erased)) (\<lambda>v.
      then_do (put_scope_state tid (Some (erased\<lparr>state_value := f v\<rparr>))) (ok (f v)))))"

definition scope_state :: "TypeId \<Rightarrow> ('r, 's, 'w, 's option) TableMethod" where
  "scope_state tid = own (\<lambda>t. Option.bind (scope_states t tid) (downcast_state tid))"

definition scope_state_mut :: "TypeId \<Rightarrow> ('s \<Rightarrow> 's) \<Rightarrow> ('r, 's, 'w, 's option) TableMethod" where
  "scope_state_mut tid f =
     and_then (own (\<lambda>t. scope_states t tid)) (\<lambda>entry. case entry of
       None \<Rightarrow> ok None
     | Some erased \<Rightarrow> (case downcast_state tid erased of
         None \<Rightarrow> ok None
       | Some v \<Rightarrow> then_do (put_scope_state tid (Some (erased\<lparr>state_value := f v\<rparr>))) (ok (Some (f v)))))"

definition take_scope_state :: "TypeId \<Rightarrow> ('r, 's, 'w, 's option) TableMethod" where
  "take_scope_state tid =
     and_then (own (\<lambda>t. scope_states t tid)) (\<lambda>entry.
     then_do (put_scope_state tid None) (ok (Option.bind entry (downcast_state tid))))"

end
