(* ===== verification/OperationIds.thy ===== *)
theory OperationIds
  imports Tokens
begin

text \<open>
  The vocabulary of the operation layer: \<open>vm/operation/reason.rs\<close>, \<open>error.rs\<close>, \<open>id.rs\<close> and
  \<open>driver.rs\<close>. An operation id packs 20 bits of registry tag, 21 of slot identity and 22 of generation.
\<close>

section \<open>Cancellation reasons\<close>

datatype OperationCancelReason =
    CancelRequested | CancelDeadline | CancelVmReset | CancelParent | CancelResourceClosed | CancelVmDrop

definition cancel_reason_raw :: "OperationCancelReason \<Rightarrow> u8" where
  "cancel_reason_raw reason = (case reason of
       CancelRequested \<Rightarrow> 1 | CancelDeadline \<Rightarrow> 2 | CancelVmReset \<Rightarrow> 3
     | CancelParent \<Rightarrow> 4 | CancelResourceClosed \<Rightarrow> 5 | CancelVmDrop \<Rightarrow> 6)"

definition cancel_reason_from_raw :: "u8 \<Rightarrow> OperationCancelReason option" where
  "cancel_reason_from_raw value =
     (if value = 1 then Some CancelRequested
      else if value = 2 then Some CancelDeadline
      else if value = 3 then Some CancelVmReset
      else if value = 4 then Some CancelParent
      else if value = 5 then Some CancelResourceClosed
      else if value = 6 then Some CancelVmDrop
      else None)"

definition cancel_reason_as_str :: "OperationCancelReason \<Rightarrow> string" where
  "cancel_reason_as_str reason = (case reason of
       CancelRequested \<Rightarrow> ''requested''
     | CancelDeadline \<Rightarrow> ''deadline''
     | CancelVmReset \<Rightarrow> ''vm_reset''
     | CancelParent \<Rightarrow> ''parent''
     | CancelResourceClosed \<Rightarrow> ''resource_closed''
     | CancelVmDrop \<Rightarrow> ''vm_drop'')"

section \<open>Errors\<close>

datatype OperationErrorCode =
    OperationInvalidConfiguration
  | OperationLimitExceeded
  | InvalidOperationId
  | OperationWrongRegistry
  | OperationStale
  | OperationNotFound
  | OperationPending
  | OperationNotPending
  | OperationIdExhausted
  | OperationRegistryTagExhausted
  | OperationCleanupFailed
  | OperationRegistrySealed
  | OperationDriverFailed

definition operation_code_as_str :: "OperationErrorCode \<Rightarrow> string" where
  "operation_code_as_str c = (case c of
       OperationInvalidConfiguration \<Rightarrow> ''invalid_configuration''
     | OperationLimitExceeded \<Rightarrow> ''operation_limit_exceeded''
     | InvalidOperationId \<Rightarrow> ''invalid_operation_id''
     | OperationWrongRegistry \<Rightarrow> ''operation_wrong_registry''
     | OperationStale \<Rightarrow> ''operation_stale''
     | OperationNotFound \<Rightarrow> ''operation_not_found''
     | OperationPending \<Rightarrow> ''operation_pending''
     | OperationNotPending \<Rightarrow> ''operation_not_pending''
     | OperationIdExhausted \<Rightarrow> ''operation_id_exhausted''
     | OperationRegistryTagExhausted \<Rightarrow> ''operation_registry_tag_exhausted''
     | OperationCleanupFailed \<Rightarrow> ''operation_cleanup_failed''
     | OperationRegistrySealed \<Rightarrow> ''operation_registry_sealed''
     | OperationDriverFailed \<Rightarrow> ''operation_driver_failed'')"

record OperationError =
  op_code :: OperationErrorCode
  op_operation :: string
  op_message :: string
  op_limit :: "u64 option"
  op_value :: "u64 option"

definition operation_error :: "OperationErrorCode \<Rightarrow> string \<Rightarrow> OperationError" where
  "operation_error c msg =
     \<lparr>op_code = c, op_operation = ''vm::operation'', op_message = msg, op_limit = None, op_value = None\<rparr>"

definition op_with_limit :: "u64 \<Rightarrow> OperationError \<Rightarrow> OperationError" where
  "op_with_limit n e = e\<lparr>op_limit := Some n\<rparr>"

definition op_with_value :: "u64 \<Rightarrow> OperationError \<Rightarrow> OperationError" where
  "op_with_value v e = e\<lparr>op_value := Some v\<rparr>"

definition operation_error_display :: "OperationError \<Rightarrow> string" where
  "operation_error_display e =
     ''operation error ['' @ operation_code_as_str (op_code e) @ ''] in '' @ op_operation e @ '': '' @ op_message e @
     (case op_limit e of None \<Rightarrow> [] | Some limit \<Rightarrow> '' (limit: '' @ decimal (unat limit) @ '')'') @
     (case op_value e of None \<Rightarrow> [] | Some value \<Rightarrow> '' (value: '' @ decimal (unat value) @ '')'')"

section \<open>Ids\<close>

definition REG_TAG_BITS :: nat where "REG_TAG_BITS = 20"
definition SLOT_BITS :: nat where "SLOT_BITS = 21"
definition GEN_BITS :: nat where "GEN_BITS = 22"

definition REG_TAG_SHIFT :: nat where "REG_TAG_SHIFT = SLOT_BITS + GEN_BITS"
definition SLOT_SHIFT :: nat where "SLOT_SHIFT = GEN_BITS"
definition GEN_SHIFT :: nat where "GEN_SHIFT = 0"

definition SIGN_MASK :: u64 where "SIGN_MASK = push_bit 63 1"
definition REG_TAG_MASK :: u64 where "REG_TAG_MASK = push_bit REG_TAG_SHIFT (push_bit REG_TAG_BITS 1 - 1)"
definition SLOT_MASK :: u64 where "SLOT_MASK = push_bit SLOT_SHIFT (push_bit SLOT_BITS 1 - 1)"
definition GEN_MASK :: u64 where "GEN_MASK = push_bit GEN_SHIFT (push_bit GEN_BITS 1 - 1)"

definition MAX_REGISTRY_TAG :: u64 where "MAX_REGISTRY_TAG = push_bit REG_TAG_BITS 1 - 1"
definition MAX_SLOT_IDENTITY :: u64 where "MAX_SLOT_IDENTITY = push_bit SLOT_BITS 1 - 1"
definition MAX_GENERATION :: u64 where "MAX_GENERATION = push_bit GEN_BITS 1 - 1"

datatype OperationId = OperationId (id_raw: u64)

definition id_registry_tag :: "OperationId \<Rightarrow> u64" where
  "id_registry_tag op = drop_bit REG_TAG_SHIFT (id_raw op AND REG_TAG_MASK)"

text \<open>The subtraction overflows on a slot identity of zero, which \<open>from_raw\<close> and \<open>encode\<close> refuse.\<close>

definition id_slot_index :: "OperationId \<Rightarrow> nat option" where
  "id_slot_index op =
     (let slot_identity = drop_bit SLOT_SHIFT (id_raw op AND SLOT_MASK)
      in if slot_identity = 0 then None else Some (unat (slot_identity - 1)))"

definition id_generation :: "OperationId \<Rightarrow> u64" where
  "id_generation op = drop_bit GEN_SHIFT (id_raw op AND GEN_MASK)"

definition id_from_raw :: "u64 \<Rightarrow> OperationError + OperationId" where
  "id_from_raw raw =
     (let invalid = op_with_value raw (operation_error InvalidOperationId ''invalid packed operation id'')
      in if raw = 0 \<or> raw AND SIGN_MASK \<noteq> 0 then Inl invalid
         else let tag = drop_bit REG_TAG_SHIFT (raw AND REG_TAG_MASK);
                  slot_identity = drop_bit SLOT_SHIFT (raw AND SLOT_MASK);
                  generation = drop_bit GEN_SHIFT (raw AND GEN_MASK)
              in if tag = 0 \<or> tag > MAX_REGISTRY_TAG then Inl invalid
                 else if slot_identity = 0 \<or> slot_identity > MAX_SLOT_IDENTITY then Inl invalid
                 else if generation = 0 \<or> generation > MAX_GENERATION then Inl invalid
                 else Inr (OperationId raw))"

definition id_encode :: "u64 \<Rightarrow> nat \<Rightarrow> u64 \<Rightarrow> OperationId option" where
  "id_encode registry_tag slot_index generation =
     (case slot_identity_of slot_index of
        None \<Rightarrow> None
      | Some slot_identity \<Rightarrow>
          if registry_tag = 0 \<or> registry_tag > MAX_REGISTRY_TAG then None
          else if slot_identity > MAX_SLOT_IDENTITY then None
          else if generation = 0 \<or> generation > MAX_GENERATION then None
          else Some (OperationId
            (push_bit REG_TAG_SHIFT registry_tag OR push_bit SLOT_SHIFT slot_identity OR generation)))"

text \<open>The process-wide counter of tags is the state of the call.\<close>

definition allocate_registry_tag :: "(u64, OperationError fault, u64) meth" where
  "allocate_registry_tag =
     and_then (self (\<lambda>current. current)) (\<lambda>current.
     if current \<le> MAX_REGISTRY_TAG then then_do (update (\<lambda>_. current + 1)) (ok current)
     else throw (op_with_value current (op_with_limit MAX_REGISTRY_TAG
       (operation_error OperationRegistryTagExhausted ''operation registry tag identity space is exhausted''))))"

section \<open>The driver contract\<close>

datatype OperationOutcome = Completed | Failed OperationError | Cancelled OperationCancelReason

text \<open>
  Drivers and cleanups are host code: functions of the driver's state and of whatever lies outside
  the registry. A cleanup closure is a value the host's \<open>run_cleanup_fn\<close> can run. The clock that
  \<open>Instant::now\<close> reads is outside as well.
\<close>

type_synonym Instant = nat

record ('d, 'k, 'w) HostOperation =
  poll_fn :: "'d \<Rightarrow> 'w \<Rightarrow> (OperationError + unit) Poll \<times> 'd \<times> 'w"
  cancel_fn :: "OperationCancelReason \<Rightarrow> 'd \<Rightarrow> 'w \<Rightarrow> (OperationError + unit) \<times> 'd \<times> 'w"
  is_quiescent_fn :: "'d \<Rightarrow> 'w \<Rightarrow> bool \<times> 'w"
  poll_quiescent_fn :: "'d \<Rightarrow> 'w \<Rightarrow> unit Poll \<times> 'd \<times> 'w"
  cancel_and_wait_fn :: "OperationCancelReason \<Rightarrow> 'd \<Rightarrow> 'w \<Rightarrow> (OperationError + unit) \<times> 'd \<times> 'w"
  run_cleanup_fn :: "'k \<Rightarrow> OperationOutcome \<Rightarrow> 'w \<Rightarrow> (OperationError + unit) \<times> 'w"
  now_fn :: "'w \<Rightarrow> Instant \<times> 'w"

text \<open>The default method bodies of the trait.\<close>

definition default_is_quiescent :: "'d \<Rightarrow> 'w \<Rightarrow> bool \<times> 'w" where
  "default_is_quiescent d w = (False, w)"

definition default_register_quiescence_waker :: "'d \<Rightarrow> 'w \<Rightarrow> 'd \<times> 'w" where
  "default_register_quiescence_waker d w = (d, w)"

definition default_poll_quiescent ::
  "('d \<Rightarrow> 'w \<Rightarrow> bool \<times> 'w) \<Rightarrow> ('d \<Rightarrow> 'w \<Rightarrow> 'd \<times> 'w) \<Rightarrow> 'd \<Rightarrow> 'w \<Rightarrow> unit Poll \<times> 'd \<times> 'w" where
  "default_poll_quiescent is_quiescent register_quiescence_waker d w =
     (case is_quiescent d w of (quiescent, w) \<Rightarrow>
        if quiescent then (Ready (), d, w)
        else case register_quiescence_waker d w of (d, w) \<Rightarrow>
          case is_quiescent d w of (quiescent, w) \<Rightarrow>
            ((if quiescent then Ready () else Pending), d, w))"

definition default_cancel_and_wait ::
  "(OperationCancelReason \<Rightarrow> 'd \<Rightarrow> 'w \<Rightarrow> (OperationError + unit) \<times> 'd \<times> 'w) \<Rightarrow>
     OperationCancelReason \<Rightarrow> 'd \<Rightarrow> 'w \<Rightarrow> (OperationError + unit) \<times> 'd \<times> 'w" where
  "default_cancel_and_wait cancel reason d w = cancel reason d w"

record ('d, 'k) OperationSpec =
  spec_deadline :: "Instant option"
  spec_driver :: 'd
  spec_cleanup :: "'k option"

definition spec_new :: "'d \<Rightarrow> ('d, 'k) OperationSpec" where
  "spec_new d = \<lparr>spec_deadline = None, spec_driver = d, spec_cleanup = None\<rparr>"

definition spec_with_deadline :: "Instant \<Rightarrow> ('d, 'k) OperationSpec \<Rightarrow> ('d, 'k) OperationSpec" where
  "spec_with_deadline at spec = spec\<lparr>spec_deadline := Some at\<rparr>"

definition spec_with_cleanup :: "'k \<Rightarrow> ('d, 'k) OperationSpec \<Rightarrow> ('d, 'k) OperationSpec" where
  "spec_with_cleanup k spec = spec\<lparr>spec_cleanup := Some k\<rparr>"

section \<open>The id laws\<close>

definition id_valid :: "OperationId \<Rightarrow> bool" where
  "id_valid op \<longleftrightarrow> id_from_raw (id_raw op) = Inr op"

definition id_slot :: "OperationId \<Rightarrow> nat" where
  "id_slot op = unat (drop_bit SLOT_SHIFT (id_raw op AND SLOT_MASK)) - 1"

lemmas id_layout =
  REG_TAG_BITS_def SLOT_BITS_def GEN_BITS_def REG_TAG_SHIFT_def SLOT_SHIFT_def GEN_SHIFT_def
  REG_TAG_MASK_def SLOT_MASK_def GEN_MASK_def MAX_REGISTRY_TAG_def MAX_SLOT_IDENTITY_def MAX_GENERATION_def

lemma id_maxima:
  "MAX_REGISTRY_TAG = mask 20" "MAX_SLOT_IDENTITY = mask 21" "MAX_GENERATION = mask 22"
  by (simp_all add: id_layout one_shifted del: push_bit_numeral push_bit_of_1)

lemma id_limits:
  "unat MAX_REGISTRY_TAG = 2 ^ 20 - 1" "unat MAX_SLOT_IDENTITY = 2 ^ 21 - 1" "unat MAX_GENERATION = 2 ^ 22 - 1"
  by (simp_all add: id_layout)

lemma field_of_mask: "drop_bit k (w AND push_bit k (mask n)) = drop_bit k w AND mask n"
  if "k + n \<le> 64" for w :: u64
  using that by (auto simp: bit_eq_iff bit_simps)

lemma id_fields:
  "drop_bit REG_TAG_SHIFT (w AND REG_TAG_MASK) = drop_bit (21 + 22) w AND mask 20"
  "drop_bit SLOT_SHIFT (w AND SLOT_MASK) = drop_bit 22 w AND mask 21"
  "drop_bit GEN_SHIFT (w AND GEN_MASK) = w AND mask 22"
  using field_of_mask [of 43 20 w] field_of_mask [of 22 21 w]
  by (simp_all add: id_layout one_shifted del: push_bit_numeral push_bit_of_1)

lemma id_field_eqs:
  "id_registry_tag op = drop_bit (21 + 22) (id_raw op) AND mask 20"
  "id_slot op = unat (drop_bit 22 (id_raw op) AND mask 21) - 1"
  "id_generation op = id_raw op AND mask 22"
  by (simp_all only: id_registry_tag_def id_slot_def id_generation_def id_fields)

lemma no_sign: "w AND SIGN_MASK = 0 \<longleftrightarrow> w \<le> mask 63"
proof -
  have last: "n < 64 \<Longrightarrow> 63 \<le> n \<longleftrightarrow> n = 63" for n :: nat by linarith
  have "w AND SIGN_MASK = 0 \<longleftrightarrow> \<not> bit w 63"
    by (subst bit_eq_iff) (auto simp: SIGN_MASK_def bit_simps last simp del: push_bit_of_1 dest!: spec [of _ 63])
  also have "\<dots> \<longleftrightarrow> w \<le> mask 63"
    unfolding le_mask_iff by (subst bit_eq_iff) (auto simp: bit_simps dest!: spec [of _ 63], metis last not_less)
  finally show ?thesis .
qed

lemma id_valid_iff:
  "id_valid op \<longleftrightarrow> id_raw op \<le> mask 63 \<and> id_registry_tag op \<noteq> 0 \<and>
     drop_bit 22 (id_raw op) AND mask 21 \<noteq> 0 \<and> id_generation op \<noteq> 0"
proof -
  have mask_le: "\<not> w AND mask k > mask k" for w :: u64 and k
    by (simp add: not_less le_mask_iff take_bit_eq_mask and.assoc)
  have "id_registry_tag op \<noteq> 0 \<Longrightarrow> id_raw op \<noteq> 0" by (auto simp: id_registry_tag_def)
  then show ?thesis
    unfolding id_valid_def id_from_raw_def Let_def no_sign id_fields id_maxima id_field_eqs
    by (simp add: mask_le)
qed

lemma id_encode_eq:
  "id_encode a i g =
     (if a \<noteq> 0 \<and> a \<le> mask 20 \<and> i < 2 ^ 21 - 1 \<and> g \<noteq> 0 \<and> g \<le> mask 22
      then Some (OperationId (push_bit (21 + 22) a OR push_bit 22 (of_nat (Suc i)) OR g))
      else None)"
proof (cases "Suc i < 2 ^ 64")
  case True
  then have sid: "slot_identity_of i = Some (of_nat (Suc i))"
    by (simp only: slot_identity_of_eq if_True)
  have "\<not> mask 21 < (of_nat (Suc i) :: u64) \<longleftrightarrow> i < 2 ^ 21 - 1"
    unfolding not_less word_le_nat_alt unat_u64 [OF True] by (auto simp: mask_eq_exp_minus_1)
  moreover have "REG_TAG_SHIFT = 21 + 22" "SLOT_SHIFT = 22" by (simp_all add: id_layout)
  ultimately show ?thesis
    unfolding id_encode_def sid option.case id_maxima by auto
next
  case False
  then have "slot_identity_of i = None" by (simp only: slot_identity_of_eq if_False)
  with False show ?thesis by (simp add: id_encode_def)
qed

interpretation id_bits: packing id_encode id_valid id_registry_tag id_slot id_generation id_raw OperationId 20 21 22
  by unfold_locales
     (simp_all add: id_field_eqs id_valid_iff id_encode_eq)

interpretation op_id: packed_id id_encode id_valid id_registry_tag id_slot id_generation
  "unat MAX_REGISTRY_TAG" "unat MAX_SLOT_IDENTITY" "unat MAX_GENERATION"
  unfolding id_limits by (rule id_bits.packed_id_axioms)

lemma id_slot_index_valid: "id_valid op \<Longrightarrow> id_slot_index op = Some (id_slot op)"
  unfolding id_slot_index_def id_field_eqs(2) id_valid_iff id_fields Let_def by (simp add: unat_minus_one)

end
