(* ===== verification/Operations.thy ===== *)
theory Operations
  imports OperationIds
begin

text \<open>
  The operation registry, \<open>vm/operation/registry.rs\<close>: a bounded arena of generational slots whose
  occupants are in-flight host operations. A method runs on the registry and on what lies outside
  it, which drivers, cleanups and the clock belong to.
\<close>

section \<open>State\<close>

definition DEFAULT_MAX_PENDING_OPERATIONS :: nat where
  "DEFAULT_MAX_PENDING_OPERATIONS = 64"

datatype OperationStatus =
    StatusPending | StatusCompleted | StatusCancelled OperationCancelReason | StatusFailed OperationError

fun is_terminal :: "OperationStatus \<Rightarrow> bool" where
  "is_terminal StatusPending = False"
| "is_terminal _ = True"

fun terminal_outcome :: "OperationStatus \<Rightarrow> OperationOutcome option" where
  "terminal_outcome StatusPending = None"
| "terminal_outcome StatusCompleted = Some Completed"
| "terminal_outcome (StatusCancelled reason) = Some (Cancelled reason)"
| "terminal_outcome (StatusFailed error) = Some (Failed error)"

record ('d, 'k) Operation =
  driver :: 'd
  deadline :: "Instant option"
  cleanup :: "'k option"
  status :: OperationStatus

record ('d, 'k) OperationSlot =
  op_generation :: u64
  operation :: "('d, 'k) Operation option"

record ('d, 'k) OperationRegistry =
  max_pending :: nat
  tag :: u64
  sealed :: bool
  op_slots :: "('d, 'k) OperationSlot list"
  free :: "nat list"

record OperationCancelSummary =
  matched :: nat
  cancelled :: nat
  cancel_failed :: nat
  cancel_first_error :: "OperationError option"

type_synonym ('d, 'k, 'w, 'a) RegistryMethod =
  "(('d, 'k) OperationRegistry \<times> 'w, OperationError fault, 'a) meth"

section \<open>Errors\<close>

definition operation_not_found :: "OperationId \<Rightarrow> OperationError" where
  "operation_not_found op = op_with_value (id_raw op)
     (operation_error OperationNotFound (''operation '' @ decimal (unat (id_raw op)) @ '' is not registered''))"

definition operation_wrong_registry :: "OperationId \<Rightarrow> OperationError" where
  "operation_wrong_registry op = op_with_value (id_raw op)
     (operation_error OperationWrongRegistry
       (''operation '' @ decimal (unat (id_raw op)) @ '' belongs to a different registry''))"

definition operation_stale :: "OperationId \<Rightarrow> OperationError" where
  "operation_stale op = op_with_value (id_raw op)
     (operation_error OperationStale
       (''operation '' @ decimal (unat (id_raw op)) @ '' refers to a stale slot generation''))"

definition pending_outcome :: "OperationId \<Rightarrow> OperationError" where
  "pending_outcome op = op_with_value (id_raw op)
     (operation_error OperationPending
       (''operation '' @ decimal (unat (id_raw op)) @ '' is still pending and has no terminal outcome''))"

definition driver_failure :: "OperationError \<Rightarrow> OperationError" where
  "driver_failure error = operation_error OperationDriverFailed (operation_error_display error)"

section \<open>Construction and counts\<close>

definition registry_with_limit :: "nat \<Rightarrow> (u64, OperationError fault, ('d, 'k) OperationRegistry) meth" where
  "registry_with_limit limit =
     then_do (guard_err (limit = 0)
       (Raised (operation_error OperationInvalidConfiguration ''operation registry capacity must be positive'')))
     (and_then allocate_registry_tag (\<lambda>t.
      ok \<lparr>max_pending = limit, tag = t, sealed = False, op_slots = [], free = []\<rparr>))"

definition registry_new :: "(u64, OperationError fault, ('d, 'k) OperationRegistry) meth" where
  "registry_new = registry_with_limit DEFAULT_MAX_PENDING_OPERATIONS"

definition seal :: "('d, 'k, 'w, unit) RegistryMethod" where
  "seal = set_own (\<lambda>r. r\<lparr>sealed := True\<rparr>)"

fun is_pending :: "('d, 'k) Operation option \<Rightarrow> bool" where
  "is_pending None = False"
| "is_pending (Some op) = (\<not> is_terminal (status op))"

definition active_count :: "('d, 'k) OperationRegistry \<Rightarrow> nat" where
  "active_count r = length (filter (\<lambda>s. is_pending (operation s)) (op_slots r))"

definition registry_len :: "('d, 'k) OperationRegistry \<Rightarrow> nat" where
  "registry_len r = length (filter (\<lambda>s. operation s \<noteq> None) (op_slots r))"

definition registry_is_empty :: "('d, 'k) OperationRegistry \<Rightarrow> bool" where
  "registry_is_empty r \<longleftrightarrow> \<not> list_ex (\<lambda>s. operation s \<noteq> None) (op_slots r)"

section \<open>Slots\<close>

definition op_slot_at :: "nat \<Rightarrow> ('d, 'k, 'w, ('d, 'k) OperationSlot) RegistryMethod" where
  "op_slot_at slot = and_then (own op_slots) (\<lambda>ss. expect (vec_get ss slot))"

definition occupant :: "nat \<Rightarrow> ('d, 'k, 'w, ('d, 'k) Operation option) RegistryMethod" where
  "occupant slot = and_then (op_slot_at slot) (\<lambda>s. ok (operation s))"

definition with_operation ::
  "nat \<Rightarrow> ('d, 'k) Operation option \<Rightarrow> ('d, 'k) OperationRegistry \<Rightarrow> ('d, 'k) OperationRegistry" where
  "with_operation slot o' r = r\<lparr>op_slots := (op_slots r)[slot := (op_slots r ! slot)\<lparr>operation := o'\<rparr>]\<rparr>"

definition set_operation :: "nat \<Rightarrow> ('d, 'k) Operation option \<Rightarrow> ('d, 'k, 'w, unit) RegistryMethod" where
  "set_operation slot o' = then_do (op_slot_at slot) (set_own (with_operation slot o'))"

definition location :: "OperationId \<Rightarrow> ('d, 'k, 'w, nat) RegistryMethod" where
  "location op =
     and_then (own tag) (\<lambda>t.
     then_do (guard_err (id_registry_tag op \<noteq> t) (Raised (operation_wrong_registry op)))
     (and_then (expect (id_slot_index op)) (\<lambda>slot_index.
      and_then (own op_slots) (\<lambda>ss.
      then_do (guard_err (slot_index \<ge> length ss) (Raised (operation_not_found op)))
      (and_then (op_slot_at slot_index) (\<lambda>s.
       then_do (guard_err (id_generation op > op_generation s) (Raised (operation_not_found op)))
       (then_do (guard_err (id_generation op < op_generation s \<or> operation s = None) (Raised (operation_stale op)))
       (ok slot_index))))))))"

definition id_at :: "nat \<Rightarrow> u64 \<Rightarrow> ('d, 'k, 'w, OperationId) RegistryMethod" where
  "id_at slot_index generation = and_then (own tag) (\<lambda>t. expect (id_encode t slot_index generation))"

definition occupied_indices :: "('d, 'k) OperationSlot list \<Rightarrow> nat list" where
  "occupied_indices ss = filter (\<lambda>i. operation (ss ! i) \<noteq> None) [0..<length ss]"

definition occupied_ids :: "('d, 'k, 'w, OperationId list) RegistryMethod" where
  "occupied_ids =
     and_then (own op_slots) (\<lambda>ss.
     collect_each (occupied_indices ss) (\<lambda>i. id_at i (op_generation (ss ! i))))"

definition acquire_slot :: "('d, 'k, 'w, nat) RegistryMethod" where
  "acquire_slot =
     and_then (own free) (\<lambda>available.
     if available \<noteq> [] then
       then_do (set_own (\<lambda>r. r\<lparr>free := butlast (free r)\<rparr>)) (ok (last available))
     else
       and_then (own op_slots) (\<lambda>ss.
       if length ss \<ge> unat MAX_SLOT_IDENTITY
       then throw (operation_error OperationIdExhausted ''operation slot identity space exhausted'')
       else then_do (set_own (\<lambda>r. r\<lparr>op_slots := op_slots r @ [\<lparr>op_generation = 1, operation = None\<rparr>]\<rparr>))
         (ok (length ss))))"

definition released :: "nat \<Rightarrow> ('d, 'k) OperationRegistry \<Rightarrow> ('d, 'k) OperationRegistry" where
  "released slot r =
     (let s = op_slots r ! slot
      in if op_generation s < MAX_GENERATION
         then r\<lparr>op_slots := (op_slots r)[slot := \<lparr>op_generation = op_generation s + 1, operation = None\<rparr>],
                free := free r @ [slot]\<rparr>
         else r\<lparr>op_slots := (op_slots r)[slot := s\<lparr>operation := None\<rparr>]\<rparr>)"

definition release_slot :: "nat \<Rightarrow> ('d, 'k, 'w, unit) RegistryMethod" where
  "release_slot index = then_do (op_slot_at index) (set_own (released index))"

section \<open>Starting and observing\<close>

definition start :: "('d, 'k) OperationSpec \<Rightarrow> ('d, 'k, 'w, OperationId) RegistryMethod" where
  "start spec =
     and_then (own sealed) (\<lambda>closed.
     then_do (guard_err closed (Raised
       (operation_error OperationRegistrySealed ''operation registry is sealed and rejects new operations'')))
     (and_then (own active_count) (\<lambda>active.
      and_then (own max_pending) (\<lambda>limit.
      then_do (guard_err (active \<ge> limit) (Raised (op_with_limit (of_nat limit)
        (operation_error OperationLimitExceeded ''pending operation capacity has been reached''))))
      (and_then acquire_slot (\<lambda>slot_index.
       and_then (op_slot_at slot_index) (\<lambda>s.
       and_then (own tag) (\<lambda>t.
       and_then (expect (id_encode t slot_index (op_generation s))) (\<lambda>op.
       then_do (set_operation slot_index (Some \<lparr>driver = spec_driver spec, deadline = spec_deadline spec,
         cleanup = spec_cleanup spec, status = StatusPending\<rparr>))
       (ok op))))))))))"

definition operation_status :: "OperationId \<Rightarrow> ('d, 'k, 'w, OperationStatus) RegistryMethod" where
  "operation_status op =
     and_then (location op) (\<lambda>slot.
     and_then (occupant slot) (\<lambda>o'.
     and_then (ok_or o' (Raised (operation_stale op))) (\<lambda>p. ok (status p))))"

definition take_outcome ::
  "('d, 'k, 'w) HostOperation \<Rightarrow> OperationId \<Rightarrow> ('d, 'k, 'w, OperationOutcome) RegistryMethod" where
  "take_outcome H op =
     and_then (location op) (\<lambda>slot.
     and_then (occupant slot) (\<lambda>o'.
     and_then (ok_or o' (Raised (operation_stale op))) (\<lambda>p.
     and_then (outside (is_quiescent_fn H (driver p))) (\<lambda>quiescent.
     then_do (guard_err (\<not> quiescent) (Raised (pending_outcome op)))
     (and_then (ok_or (terminal_outcome (status p)) (Raised (pending_outcome op))) (\<lambda>outcome.
      then_do (release_slot slot) (ok outcome)))))))"

definition take_outcome_after_cancel_and_wait ::
  "OperationId \<Rightarrow> ('d, 'k, 'w, OperationOutcome) RegistryMethod" where
  "take_outcome_after_cancel_and_wait op =
     and_then (location op) (\<lambda>slot.
     and_then (occupant slot) (\<lambda>o'.
     and_then (ok_or (Option.bind o' (\<lambda>p. terminal_outcome (status p))) (Raised (pending_outcome op))) (\<lambda>outcome.
     then_do (release_slot slot) (ok outcome))))"

section \<open>Driving\<close>

definition call_driver :: "nat \<Rightarrow> ('d \<Rightarrow> 'w \<Rightarrow> 'a \<times> 'd \<times> 'w) \<Rightarrow> ('d, 'k, 'w, 'a) RegistryMethod" where
  "call_driver slot f =
     and_then (occupant slot) (\<lambda>o'.
     and_then (expect o') (\<lambda>p.
     and_then (outside (\<lambda>w. case f (driver p) w of (x, d, w') \<Rightarrow> ((x, d), w'))) (\<lambda>(x, d).
     then_do (set_operation slot (Some (p\<lparr>driver := d\<rparr>))) (ok x))))"

definition run_cleanup ::
  "('d, 'k, 'w) HostOperation \<Rightarrow> nat \<Rightarrow> 'k \<Rightarrow> OperationOutcome \<Rightarrow> ('d, 'k, 'w, unit) RegistryMethod" where
  "run_cleanup H slot k outcome =
     and_then (outside (run_cleanup_fn H k outcome)) (\<lambda>result.
     case result of
       Inr _ \<Rightarrow> ok ()
     | Inl error \<Rightarrow>
         (let wrapped = operation_error OperationCleanupFailed (operation_error_display error)
          in and_then (occupant slot) (\<lambda>o'.
             then_do (case o' of
                 Some p \<Rightarrow> set_operation slot (Some (p\<lparr>status := StatusFailed wrapped\<rparr>))
               | None \<Rightarrow> ok ())
             (throw wrapped))))"

definition finish_terminal ::
  "('d, 'k, 'w) HostOperation \<Rightarrow> OperationId \<Rightarrow> OperationStatus \<Rightarrow> OperationOutcome \<Rightarrow>
     ('d, 'k, 'w, bool) RegistryMethod" where
  "finish_terminal H op st outcome =
     and_then (location op) (\<lambda>slot.
     and_then (occupant slot) (\<lambda>o'. case o' of
       None \<Rightarrow> ok False
     | Some p \<Rightarrow>
         if is_terminal (status p) then ok False
         else then_do (set_operation slot (Some (p\<lparr>status := st, cleanup := None\<rparr>)))
           (then_do (case cleanup p of None \<Rightarrow> ok () | Some k \<Rightarrow> run_cleanup H slot k outcome)
           (ok True))))"

definition consume_terminal :: "nat \<Rightarrow> ('d, 'k, 'w, OperationOutcome) RegistryMethod" where
  "consume_terminal slot =
     and_then (occupant slot) (\<lambda>o'.
     and_then (expect o') (\<lambda>p.
     and_then (expect (terminal_outcome (status p))) (\<lambda>outcome.
     then_do (release_slot slot) (ok outcome))))"

definition poll_terminal ::
  "('d, 'k, 'w) HostOperation \<Rightarrow> nat \<Rightarrow> ('d, 'k, 'w, OperationOutcome Poll) RegistryMethod" where
  "poll_terminal H slot =
     and_then (call_driver slot (poll_quiescent_fn H)) (\<lambda>quiescent.
     case quiescent of
       Ready _ \<Rightarrow> and_then (consume_terminal slot) (\<lambda>outcome. ok (Ready outcome))
     | Pending \<Rightarrow> ok Pending)"

definition cancel_with_wait ::
  "('d, 'k, 'w) HostOperation \<Rightarrow> OperationId \<Rightarrow> OperationCancelReason \<Rightarrow> bool \<Rightarrow> ('d, 'k, 'w, bool) RegistryMethod" where
  "cancel_with_wait H op reason wait_for_worker =
     and_then (location op) (\<lambda>slot.
     and_then (occupant slot) (\<lambda>o'.
     if \<not> is_pending o' then ok False
     else and_then (call_driver slot (if wait_for_worker then cancel_and_wait_fn H reason else cancel_fn H reason))
       (\<lambda>driver_result. case driver_result of
          Inr _ \<Rightarrow> and_then (finish_terminal H op (StatusCancelled reason) (Cancelled reason)) (\<lambda>_. ok True)
        | Inl error \<Rightarrow>
            (let first = driver_failure error
             in and_then (occupant slot) (\<lambda>o'.
                and_then (expect o') (\<lambda>p.
                then_do (set_operation slot (Some (p\<lparr>status := StatusFailed first, cleanup := None\<rparr>)))
                (then_do (case cleanup p of
                     None \<Rightarrow> ok ()
                   | Some k \<Rightarrow> then_do (outside (run_cleanup_fn H k (Failed first))) (ok ()))
                (throw first))))))))"

definition cancel ::
  "('d, 'k, 'w) HostOperation \<Rightarrow> OperationId \<Rightarrow> OperationCancelReason \<Rightarrow> ('d, 'k, 'w, bool) RegistryMethod" where
  "cancel H op reason = cancel_with_wait H op reason False"

text \<open>\<open>Instant::now\<close> is read only for an operation that has a deadline.\<close>

definition deadline_elapsed ::
  "('d, 'k, 'w) HostOperation \<Rightarrow> Instant option \<Rightarrow> ('d, 'k, 'w, bool) RegistryMethod" where
  "deadline_elapsed H limit =
     (case limit of None \<Rightarrow> ok False | Some at \<Rightarrow> and_then (outside (now_fn H)) (\<lambda>now. ok (now \<ge> at)))"

definition poll_after_deadline ::
  "('d, 'k, 'w) HostOperation \<Rightarrow> OperationId \<Rightarrow> ('d, 'k, 'w, OperationOutcome Poll) RegistryMethod" where
  "poll_after_deadline H op =
     then_do (attempt (cancel H op CancelDeadline))
     (and_then (location op) (\<lambda>slot.
      and_then (occupant slot) (\<lambda>o'.
      and_then (case o' of None \<Rightarrow> ok (Ready ()) | Some _ \<Rightarrow> call_driver slot (poll_quiescent_fn H)) (\<lambda>quiescent.
      case quiescent of
        Pending \<Rightarrow> ok Pending
      | Ready _ \<Rightarrow> and_then (consume_terminal slot) (\<lambda>outcome. ok (Ready outcome))))))"

definition registry_poll ::
  "('d, 'k, 'w) HostOperation \<Rightarrow> OperationId \<Rightarrow> ('d, 'k, 'w, OperationOutcome Poll) RegistryMethod" where
  "registry_poll H op =
     and_then (location op) (\<lambda>slot.
     and_then (occupant slot) (\<lambda>o'.
     if (case o' of Some p \<Rightarrow> is_terminal (status p) | None \<Rightarrow> False) then poll_terminal H slot
     else and_then (call_driver slot (poll_fn H)) (\<lambda>driver_result. case driver_result of
         Pending \<Rightarrow>
           and_then (occupant slot) (\<lambda>o'.
           and_then (deadline_elapsed H (Option.bind o' deadline)) (\<lambda>elapsed.
           if \<not> elapsed then ok Pending else poll_after_deadline H op))
       | Ready (Inr _) \<Rightarrow>
           then_do (attempt (finish_terminal H op StatusCompleted Completed))
           (and_then (location op) (poll_terminal H))
       | Ready (Inl error) \<Rightarrow>
           then_do (attempt (finish_terminal H op (StatusFailed error) (Failed error)))
           (and_then (location op) (poll_terminal H)))))"

definition registry_poll_quiescent ::
  "('d, 'k, 'w) HostOperation \<Rightarrow> OperationId \<Rightarrow> ('d, 'k, 'w, OperationOutcome Poll) RegistryMethod" where
  "registry_poll_quiescent H op =
     and_then (location op) (\<lambda>slot.
     and_then (occupant slot) (\<lambda>o'.
     if \<not> (case o' of Some p \<Rightarrow> is_terminal (status p) | None \<Rightarrow> False) then ok Pending
     else poll_terminal H slot))"

section \<open>Cancelling, completing and removing\<close>

definition abort ::
  "('d, 'k, 'w) HostOperation \<Rightarrow> OperationId \<Rightarrow> OperationCancelReason \<Rightarrow> ('d, 'k, 'w, bool) RegistryMethod" where
  "abort H op reason =
     and_then (location op) (\<lambda>slot.
     and_then (occupant slot) (\<lambda>o'.
     and_then (attempt (cancel_with_wait H op reason True)) (\<lambda>cancel_result.
     and_then (attempt (if is_pending o' then take_outcome_after_cancel_and_wait op else take_outcome H op))
       (\<lambda>take_result. case (cancel_result, take_result) of
          (Inl error, _) \<Rightarrow> throw error
        | (Inr _, Inl error) \<Rightarrow> throw error
        | (Inr was_cancelled, Inr _) \<Rightarrow> ok was_cancelled))))"

definition summary_default :: OperationCancelSummary where
  "summary_default = \<lparr>matched = 0, cancelled = 0, cancel_failed = 0, cancel_first_error = None\<rparr>"

definition summary_record :: "OperationError + bool \<Rightarrow> OperationCancelSummary \<Rightarrow> OperationCancelSummary" where
  "summary_record result y =
     (let y = y\<lparr>matched := matched y + 1\<rparr>
      in case result of
           Inr True \<Rightarrow> y\<lparr>cancelled := cancelled y + 1\<rparr>
         | Inr False \<Rightarrow> y
         | Inl error \<Rightarrow> y\<lparr>cancel_failed := cancel_failed y + 1,
             cancel_first_error := (case cancel_first_error y of None \<Rightarrow> Some error | Some e \<Rightarrow> Some e)\<rparr>)"

definition pending_at :: "OperationId \<Rightarrow> ('d, 'k, 'w, bool) RegistryMethod" where
  "pending_at op =
     and_then (attempt (location op)) (\<lambda>found. case found of
       Inl _ \<Rightarrow> ok False
     | Inr slot \<Rightarrow> and_then (occupant slot) (\<lambda>o'. ok (is_pending o')))"

definition cancel_batch ::
  "(OperationId \<Rightarrow> ('d, 'k, 'w, bool) RegistryMethod) \<Rightarrow> ('d, 'k, 'w, OperationCancelSummary) RegistryMethod" where
  "cancel_batch one =
     and_then occupied_ids (\<lambda>ops.
     fold_each ops (\<lambda>op y.
       and_then (pending_at op) (\<lambda>pending.
       if \<not> pending then ok y
       else and_then (attempt (one op)) (\<lambda>result. ok (summary_record result y)))) summary_default)"

definition cancel_all_and_wait ::
  "('d, 'k, 'w) HostOperation \<Rightarrow> OperationCancelReason \<Rightarrow> ('d, 'k, 'w, OperationCancelSummary) RegistryMethod" where
  "cancel_all_and_wait H reason = cancel_batch (\<lambda>op. abort H op reason)"

definition cancel_all ::
  "('d, 'k, 'w) HostOperation \<Rightarrow> OperationCancelReason \<Rightarrow> ('d, 'k, 'w, OperationCancelSummary) RegistryMethod" where
  "cancel_all H reason = cancel_batch (\<lambda>op. cancel H op reason)"

definition quiesce_one ::
  "('d, 'k, 'w) HostOperation \<Rightarrow> OperationId \<Rightarrow> unit \<Rightarrow> ('d, 'k, 'w, unit) RegistryMethod" where
  "quiesce_one H op u =
     and_then (attempt (location op)) (\<lambda>found. case found of
       Inl _ \<Rightarrow> ok ()
     | Inr slot \<Rightarrow>
         and_then (occupant slot) (\<lambda>o'. case o' of
           None \<Rightarrow> ok ()
         | Some p \<Rightarrow>
             if \<not> is_terminal (status p) then ok ()
             else and_then (call_driver slot (poll_quiescent_fn H)) (\<lambda>quiescent. case quiescent of
                 Ready _ \<Rightarrow> then_do (consume_terminal slot) (ok ())
               | Pending \<Rightarrow> ok ())))"

definition poll_quiescence :: "('d, 'k, 'w) HostOperation \<Rightarrow> ('d, 'k, 'w, bool) RegistryMethod" where
  "poll_quiescence H =
     and_then occupied_ids (\<lambda>ops.
     then_do (fold_each ops (quiesce_one H) ()) (own registry_is_empty))"

definition complete :: "('d, 'k, 'w) HostOperation \<Rightarrow> OperationId \<Rightarrow> ('d, 'k, 'w, bool) RegistryMethod" where
  "complete H op = finish_terminal H op StatusCompleted Completed"

definition fail ::
  "('d, 'k, 'w) HostOperation \<Rightarrow> OperationId \<Rightarrow> OperationError \<Rightarrow> ('d, 'k, 'w, bool) RegistryMethod" where
  "fail H op error = finish_terminal H op (StatusFailed error) (Failed error)"

definition registry_remove ::
  "('d, 'k, 'w) HostOperation \<Rightarrow> OperationId \<Rightarrow> ('d, 'k, 'w, OperationStatus) RegistryMethod" where
  "registry_remove H op =
     and_then (location op) (\<lambda>index.
     and_then (occupant index) (\<lambda>o'.
     and_then (case o' of
         Some p \<Rightarrow> if is_terminal (status p) then outside (is_quiescent_fn H (driver p)) else ok False
       | None \<Rightarrow> ok False) (\<lambda>terminal.
     then_do (guard_err (\<not> terminal) (Raised (pending_outcome op)))
     (and_then (occupant index) (\<lambda>o'.
      then_do (set_operation index None)
      (and_then (ok_or o' (Raised (operation_stale op))) (\<lambda>p.
       then_do (release_slot index) (ok (status p)))))))))"

definition drop_registry :: "('d, 'k, 'w) HostOperation \<Rightarrow> ('d, 'k, 'w, unit) RegistryMethod" where
  "drop_registry H = then_do (cancel_all H CancelVmReset) (ok ())"

end
