(* ===== verification/Scope.thy ===== *)
theory Scope
  imports Resources Operations
begin

text \<open>
  The execution scope, \<open>vm/execution_scope.rs\<close>: one resource table and one operation registry under
  a single lifecycle. A method runs on the scope and on what lies outside it; a call of a method of
  the table or of the registry is that method run on the field, its error wrapped.
\<close>

section \<open>Methods of a field\<close>

definition zoom ::
  "('s \<Rightarrow> 't) \<Rightarrow> (('t \<Rightarrow> 't) \<Rightarrow> 's \<Rightarrow> 's) \<Rightarrow> ('e \<Rightarrow> 'f) \<Rightarrow>
     ('t \<times> 'w, 'e fault, 'a) meth \<Rightarrow> ('s \<times> 'w, 'f fault, 'a) meth" where
  "zoom field field_update wrap m = (\<lambda>(s, w).
     case m (field s, w) of (x, (t, w')) \<Rightarrow> (map_sum (map_fault wrap) id x, (field_update (\<lambda>_. t) s, w')))"

lemma wp_zoom [wp_simps]:
  "wp (zoom field field_update wrap m) Q E (s, w) =
     wp m (\<lambda>x (t, w'). Q x (field_update (\<lambda>_. t) s, w'))
       (\<lambda>e (t, w'). E (map_fault wrap e) (field_update (\<lambda>_. t) s, w')) (field s, w)"
  by (auto simp: zoom_def wp_def split: prod.splits sum.splits)

section \<open>State\<close>

datatype ScopeState = Active | ScopeClosing | Quiescent

datatype ScopeCloseError = CloseOperation OperationError | CloseResource ResourceError

record ScopeCloseFailure =
  failure_first :: ScopeCloseError
  failure_failed :: nat

datatype ScopeCloseOutcome = CloseSuccess | SuccessWithErrors ScopeCloseFailure

datatype ExecutionScopeError =
    CloseAlreadyInProgress "ResourceCloseReason option" ResourceCloseReason
  | ScopeIsClosing
  | ScopeNotClosing
  | ArenaExhausted ResourceError
  | ScopeResource ResourceError
  | ScopeOperation OperationError
  | ScopeClose ScopeCloseOutcome

definition into_operation_error :: "ExecutionScopeError \<Rightarrow> OperationError option" where
  "into_operation_error e = (case e of
       ScopeOperation error \<Rightarrow> Some error
     | ScopeClose (SuccessWithErrors failure) \<Rightarrow>
         (case failure_first failure of CloseOperation error \<Rightarrow> Some error | CloseResource _ \<Rightarrow> None)
     | _ \<Rightarrow> None)"

definition into_resource_error :: "ExecutionScopeError \<Rightarrow> ResourceError option" where
  "into_resource_error e = (case e of
       ScopeResource error \<Rightarrow> Some error
     | ArenaExhausted error \<Rightarrow> Some error
     | ScopeClose (SuccessWithErrors failure) \<Rightarrow>
         (case failure_first failure of CloseResource error \<Rightarrow> Some error | CloseOperation _ \<Rightarrow> None)
     | _ \<Rightarrow> None)"

record ('d, 'k, 'r, 's) ExecutionScope =
  operations :: "('d, 'k) OperationRegistry"
  resources :: "('r, 's) ResourceTable"
  state :: ScopeState
  close_reason :: "ResourceCloseReason option"
  operations_drained :: bool
  scope_first_error :: "ScopeCloseError option"
  failed_count :: nat
  terminal :: "ScopeCloseOutcome option"

type_synonym ('d, 'k, 'r, 's, 'w, 'a) ScopeMethod =
  "(('d, 'k, 'r, 's) ExecutionScope \<times> 'w, ExecutionScopeError fault, 'a) meth"

definition on_resources :: "('r, 's, 'w, 'a) TableMethod \<Rightarrow> ('d, 'k, 'r, 's, 'w, 'a) ScopeMethod" where
  "on_resources = zoom resources resources_update ScopeResource"

definition on_operations :: "('d, 'k, 'w, 'a) RegistryMethod \<Rightarrow> ('d, 'k, 'r, 's, 'w, 'a) ScopeMethod" where
  "on_operations = zoom operations operations_update ScopeOperation"

definition operation_reason :: "ResourceCloseReason \<Rightarrow> OperationCancelReason" where
  "operation_reason reason = (case reason of
       Requested \<Rightarrow> CancelRequested
     | Deadline \<Rightarrow> CancelDeadline
     | VmReset \<Rightarrow> CancelVmReset
     | Parent \<Rightarrow> CancelParent
     | ResourceClosed \<Rightarrow> CancelResourceClosed
     | VmDrop \<Rightarrow> CancelVmDrop)"

section \<open>Construction and observation\<close>

text \<open>The two process-wide counters, of arena identities and of registry tags, are the state of the call.\<close>

definition scope_new ::
  "u64 \<times> u64 \<Rightarrow> (ExecutionScopeError fault + ('d, 'k, 'r, 's) ExecutionScope) \<times> u64 \<times> u64" where
  "scope_new = (\<lambda>(arenas, tags). case table_new arenas of
       (Inl e, arenas') \<Rightarrow> (Inl (map_fault ArenaExhausted e), (arenas', tags))
     | (Inr table, arenas') \<Rightarrow> (case registry_with_limit DEFAULT_MAX_PENDING_OPERATIONS tags of
         (Inl e, tags') \<Rightarrow> (Inl (map_fault ScopeOperation e), (arenas', tags'))
       | (Inr registry, tags') \<Rightarrow>
           (Inr \<lparr>operations = registry, resources = table, state = Active, close_reason = None,
              operations_drained = False, scope_first_error = None, failed_count = 0, terminal = None\<rparr>,
            (arenas', tags'))))"

definition scope_is_active :: "('d, 'k, 'r, 's) ExecutionScope \<Rightarrow> bool" where
  "scope_is_active sc \<longleftrightarrow> state sc = Active"

definition scope_is_closing :: "('d, 'k, 'r, 's) ExecutionScope \<Rightarrow> bool" where
  "scope_is_closing sc \<longleftrightarrow> state sc = ScopeClosing"

definition scope_is_quiescent :: "('d, 'k, 'r, 's) ExecutionScope \<Rightarrow> bool" where
  "scope_is_quiescent sc \<longleftrightarrow> state sc = Quiescent"

definition scope_is_reusable :: "('d, 'k, 'r, 's) ExecutionScope \<Rightarrow> bool" where
  "scope_is_reusable sc \<longleftrightarrow>
     scope_is_active sc \<and> table_is_clean (resources sc) \<and> registry_is_empty (operations sc)"

definition ensure_accepting :: "('d, 'k, 'r, 's, 'w, unit) ScopeMethod" where
  "ensure_accepting = and_then (own state) (\<lambda>st. guard_err (st \<noteq> Active) (Raised ScopeIsClosing))"

section \<open>Guarded and forwarded calls\<close>

definition scope_insert_state :: "TypeId \<Rightarrow> 's \<Rightarrow> ('s \<Rightarrow> 's) \<Rightarrow> ('d, 'k, 'r, 's, 'w, 's) ScopeMethod" where
  "scope_insert_state tid init f =
     then_do ensure_accepting (on_resources (scope_state_or_insert_with tid init f))"

definition scope_get_state :: "TypeId \<Rightarrow> ('d, 'k, 'r, 's, 'w, 's option) ScopeMethod" where
  "scope_get_state tid = on_resources (scope_state tid)"

definition scope_modify_state :: "TypeId \<Rightarrow> ('s \<Rightarrow> 's) \<Rightarrow> ('d, 'k, 'r, 's, 'w, 's option) ScopeMethod" where
  "scope_modify_state tid f = on_resources (scope_state_mut tid f)"

definition scope_take_state :: "TypeId \<Rightarrow> ('d, 'k, 'r, 's, 'w, 's option) ScopeMethod" where
  "scope_take_state tid = on_resources (take_scope_state tid)"

definition push_resource ::
  "('r, 'w) HostResource \<Rightarrow> TypeId \<Rightarrow> 'r \<Rightarrow> ('d, 'k, 'r, 's, 'w, ResourceHandle) ScopeMethod" where
  "push_resource HR tid v = then_do ensure_accepting (on_resources (push HR tid v))"

definition take_resource :: "TypeId \<Rightarrow> ResourceHandle \<Rightarrow> ('d, 'k, 'r, 's, 'w, 'r) ScopeMethod" where
  "take_resource tid handle = on_resources (table_take tid handle)"

definition start_operation :: "('d, 'k) OperationSpec \<Rightarrow> ('d, 'k, 'r, 's, 'w, OperationId) ScopeMethod" where
  "start_operation spec = then_do ensure_accepting (on_operations (start spec))"

definition cancel_operation ::
  "('d, 'k, 'w) HostOperation \<Rightarrow> OperationId \<Rightarrow> OperationCancelReason \<Rightarrow> ('d, 'k, 'r, 's, 'w, bool) ScopeMethod" where
  "cancel_operation HO op reason = on_operations (cancel HO op reason)"

definition complete_operation :: "('d, 'k, 'w) HostOperation \<Rightarrow> OperationId \<Rightarrow> ('d, 'k, 'r, 's, 'w, bool) ScopeMethod" where
  "complete_operation HO op = on_operations (complete HO op)"

definition take_operation_outcome ::
  "('d, 'k, 'w) HostOperation \<Rightarrow> OperationId \<Rightarrow> ('d, 'k, 'r, 's, 'w, OperationOutcome) ScopeMethod" where
  "take_operation_outcome HO op = on_operations (take_outcome HO op)"

definition poll_operation ::
  "('d, 'k, 'w) HostOperation \<Rightarrow> OperationId \<Rightarrow> ('d, 'k, 'r, 's, 'w, OperationOutcome Poll) ScopeMethod" where
  "poll_operation HO op = on_operations (registry_poll HO op)"

definition poll_operation_quiescence ::
  "('d, 'k, 'w) HostOperation \<Rightarrow> OperationId \<Rightarrow> ('d, 'k, 'r, 's, 'w, OperationOutcome Poll) ScopeMethod" where
  "poll_operation_quiescence HO op = on_operations (registry_poll_quiescent HO op)"

definition abort_operation ::
  "('d, 'k, 'w) HostOperation \<Rightarrow> OperationId \<Rightarrow> OperationCancelReason \<Rightarrow> ('d, 'k, 'r, 's, 'w, bool) ScopeMethod" where
  "abort_operation HO op reason = on_operations (abort HO op reason)"

definition close_resource ::
  "('r, 'w) HostResource \<Rightarrow> TypeId \<Rightarrow> ResourceHandle \<Rightarrow> ResourceCloseReason \<Rightarrow>
     ('d, 'k, 'r, 's, 'w, CloseProgress) ScopeMethod" where
  "close_resource HR tid handle reason =
     and_then (on_resources (typed tid handle)) (\<lambda>token. on_resources (begin_close HR tid token reason))"

definition poll_resource_close ::
  "('r, 'w) HostResource \<Rightarrow> TypeId \<Rightarrow> ResourceHandle \<Rightarrow> ('d, 'k, 'r, 's, 'w, unit Poll) ScopeMethod" where
  "poll_resource_close HR tid handle = on_resources (poll_close HR tid handle)"

section \<open>Shutdown\<close>

definition scope_begin_close :: "ResourceCloseReason \<Rightarrow> ('d, 'k, 'r, 's, 'w, bool) ScopeMethod" where
  "scope_begin_close reason =
     and_then (own state) (\<lambda>st.
     if st = Active then
       then_do (set_own (\<lambda>sc. sc\<lparr>state := ScopeClosing, close_reason := Some reason\<rparr>))
       (then_do (on_operations seal) (ok True))
     else
       and_then (own close_reason) (\<lambda>current.
       if current = Some reason then ok False else throw (CloseAlreadyInProgress current reason)))"

definition begin_drop_resource_close_nonblocking ::
  "('r, 'w) HostResource \<Rightarrow> ('d, 'k, 'r, 's, 'w, unit) ScopeMethod" where
  "begin_drop_resource_close_nonblocking HR =
     and_then (own close_reason) (\<lambda>current.
     on_resources (begin_close_remaining_for_drop HR (case current of Some reason \<Rightarrow> reason | None \<Rightarrow> VmDrop)))"

definition record_failure :: "ScopeCloseError \<Rightarrow> ('d, 'k, 'r, 's, 'w, unit) ScopeMethod" where
  "record_failure error =
     set_own (\<lambda>sc. sc\<lparr>scope_first_error := get_or_insert (scope_first_error sc) error, failed_count := failed_count sc + 1\<rparr>)"

definition record_failures ::
  "ScopeCloseError option \<Rightarrow> nat \<Rightarrow> ('d, 'k, 'r, 's, 'w, unit) ScopeMethod" where
  "record_failures first n =
     then_do (case first of Some error \<Rightarrow> record_failure error | None \<Rightarrow> ok ())
     (set_own (\<lambda>sc. sc\<lparr>failed_count := failed_count sc + (n - (if first \<noteq> None then 1 else 0))\<rparr>))"

definition record_operation_summary :: "OperationCancelSummary \<Rightarrow> ('d, 'k, 'r, 's, 'w, unit) ScopeMethod" where
  "record_operation_summary summary =
     record_failures (map_option CloseOperation (cancel_first_error summary)) (cancel_failed summary)"

definition finish_close :: "('d, 'k, 'r, 's, 'w, unit) ScopeMethod" where
  "finish_close =
     set_own (\<lambda>sc. sc\<lparr>state := Quiescent, scope_first_error := None,
       terminal := Some (case scope_first_error sc of
           Some first \<Rightarrow> SuccessWithErrors \<lparr>failure_first = first, failure_failed = failed_count sc\<rparr>
         | None \<Rightarrow> CloseSuccess)\<rparr>)"

text \<open>
  The resource phase of \<open>poll_close\<close>. A \<open>Ready(Err)\<close> of the table ends the close as well, with the
  error recorded.
\<close>

definition poll_close_resources ::
  "('r, 'w) HostResource \<Rightarrow> ResourceCloseReason \<Rightarrow> ('d, 'k, 'r, 's, 'w, ScopeCloseOutcome Poll) ScopeMethod" where
  "poll_close_resources HR reason =
     and_then (on_resources (attempt (poll_close_all_report HR reason))) (\<lambda>result. case result of
       Inr Pending \<Rightarrow> ok Pending
     | Inr (Ready report) \<Rightarrow>
         then_do (record_failures (map_option CloseResource (first_error report)) (failed report))
         (then_do finish_close
         (and_then (own terminal) (\<lambda>t. and_then (expect t) (\<lambda>outcome. ok (Ready outcome)))))
     | Inl error \<Rightarrow>
         then_do (record_failure (CloseResource error))
         (then_do finish_close
         (and_then (own terminal) (\<lambda>t. and_then (expect t) (\<lambda>outcome. ok (Ready outcome))))))"

definition cancel_operations_once ::
  "('d, 'k, 'w) HostOperation \<Rightarrow> ResourceCloseReason \<Rightarrow> ('d, 'k, 'r, 's, 'w, unit) ScopeMethod" where
  "cancel_operations_once HO reason =
     and_then (own operations_drained) (\<lambda>drained.
     if drained then ok ()
     else and_then (on_operations (cancel_all HO (operation_reason reason))) (\<lambda>summary.
       then_do (record_operation_summary summary)
       (set_own (\<lambda>sc. sc\<lparr>operations_drained := True\<rparr>))))"

definition scope_poll_close ::
  "('r, 'w) HostResource \<Rightarrow> ('d, 'k, 'w) HostOperation \<Rightarrow> ('d, 'k, 'r, 's, 'w, ScopeCloseOutcome Poll) ScopeMethod" where
  "scope_poll_close HR HO =
     and_then (own state) (\<lambda>st. case st of
       Active \<Rightarrow> throw ScopeNotClosing
     | Quiescent \<Rightarrow> and_then (own terminal) (\<lambda>t. and_then (expect t) (\<lambda>outcome. ok (Ready outcome)))
     | ScopeClosing \<Rightarrow>
         and_then (own close_reason) (\<lambda>current.
         and_then (expect current) (\<lambda>reason.
         then_do (cancel_operations_once HO reason)
         (and_then (on_operations (poll_quiescence HO)) (\<lambda>quiescent.
          if \<not> quiescent then ok Pending
          else and_then (own operations) (\<lambda>r.
            if \<not> registry_is_empty r then ok Pending
            else poll_close_resources HR reason))))))"

definition drop_scope :: "('r, 'w) HostResource \<Rightarrow> ('d, 'k, 'w) HostOperation \<Rightarrow> ('d, 'k, 'r, 's, 'w, unit) ScopeMethod" where
  "drop_scope HR HO =
     and_then (own state) (\<lambda>st.
     then_do (if st = Active
              then then_do (set_own (\<lambda>sc. sc\<lparr>state := ScopeClosing, close_reason := Some VmDrop\<rparr>)) (on_operations seal)
              else ok ())
     (and_then (own state) (\<lambda>st.
      then_do (if st \<noteq> ScopeClosing then ok ()
               else then_do (attempt (scope_poll_close HR HO))
                 (and_then (own state) (\<lambda>st.
                  if st = ScopeClosing then then_do (attempt (begin_drop_resource_close_nonblocking HR)) (ok ())
                  else ok ())))
      (then_do (on_operations (drop_registry HO)) (on_resources (drop_table HR))))))"

end
