(* ===== verification/Soundness.thy ===== *)
theory Soundness
  imports Tokens
begin

text \<open>
  Methods that respect an invariant: run where the invariant holds they do not panic, keep it
  whether they succeed or fail, and relate the receiver before and after. The resource table, the
  operation registry and the execution scope instantiate the locale with their invariants.
\<close>

definition sound :: "('s \<Rightarrow> bool) \<Rightarrow> ('s \<Rightarrow> 's \<Rightarrow> bool) \<Rightarrow> ('s, 'e fault, 'a) meth \<Rightarrow> bool" where
  "sound I R m \<longleftrightarrow>
     (\<forall>s. I s \<longrightarrow> wp m (\<lambda>_ t. I t \<and> R s t) (\<lambda>e t. e \<noteq> Panicked \<and> I t \<and> R s t) s)"

lemma soundI:
  "(\<And>s. I s \<Longrightarrow> wp m (\<lambda>_ t. I t \<and> R s t) (\<lambda>e t. e \<noteq> Panicked \<and> I t \<and> R s t) s) \<Longrightarrow> sound I R m"
  by (simp add: sound_def)

lemma sound_wp:
  assumes "sound I R m" and "I s" and "\<And>x t. I t \<Longrightarrow> R s t \<Longrightarrow> Q x t"
    and "\<And>e t. I t \<Longrightarrow> R s t \<Longrightarrow> E (Raised e) t"
  shows "wp m Q E s"
proof -
  have "wp m (\<lambda>_ t. I t \<and> R s t) (\<lambda>e t. e \<noteq> Panicked \<and> I t \<and> R s t) s"
    using assms(1,2) by (simp add: sound_def)
  then show ?thesis
  proof (rule wp_use)
    show "E e t" if "e \<noteq> Panicked \<and> I t \<and> R s t" for e t
      using that assms(4) by (cases e) auto
  qed (use assms(3) in blast)
qed

lemma sound_mono: "sound I R m \<Longrightarrow> (\<And>s t. R s t \<Longrightarrow> R' s t) \<Longrightarrow> sound I R' m"
  by (auto simp: sound_def elim!: wp_use)

lemma sound_result:
  assumes "sound I R m" and "I s" and "m s = (r, t)"
  shows "I t" and "R s t" and "r \<noteq> Inl Panicked"
  using assms by (cases r; force simp: sound_def wp_def)+

locale preserving =
  fixes I :: "'s \<Rightarrow> bool" and R :: "'s \<Rightarrow> 's \<Rightarrow> bool"
  assumes relates_refl: "R s s"
    and relates_trans: "R s t \<Longrightarrow> R t u \<Longrightarrow> R s u"
begin

lemma sound_ok: "sound I R (ok x)"
  by (simp add: sound_def wp_simps relates_refl)

lemma sound_self: "sound I R (self f)"
  by (simp add: sound_def wp_simps relates_refl)

lemma sound_throw: "sound I R (throw e)"
  by (simp add: sound_def wp_simps relates_refl)

lemma sound_guard: "sound I R (guard_err b (Raised e))"
  by (simp add: sound_def wp_simps relates_refl)

lemma sound_ok_or: "sound I R (ok_or x (Raised e))"
  by (simp add: sound_def wp_simps relates_refl split: option.splits)

lemma sound_update: "(\<And>s. I s \<Longrightarrow> I (f s) \<and> R s (f s)) \<Longrightarrow> sound I R (update f)"
  by (simp add: sound_def wp_simps)

lemma sound_and_then:
  assumes "sound I R m" and "\<And>x. sound I R (f x)"
  shows "sound I R (and_then m f)"
  unfolding wp_simps by (rule soundI) (auto simp: wp_simps intro!: sound_wp [OF assms(1)]
      sound_wp [OF assms(2)] intro: relates_trans)

lemma sound_then_do: "sound I R m \<Longrightarrow> sound I R n \<Longrightarrow> sound I R (then_do m n)"
  unfolding then_do_def by (rule sound_and_then)

lemma sound_fold_each: "(\<And>x y. x \<in> set xs \<Longrightarrow> sound I R (f x y)) \<Longrightarrow> sound I R (fold_each xs f y)"
  by (induction xs arbitrary: y) (auto intro: sound_ok sound_and_then)

lemma sound_collect_each: "(\<And>x. x \<in> set xs \<Longrightarrow> sound I R (f x)) \<Longrightarrow> sound I R (collect_each xs f)"
  by (induction xs) (auto intro: sound_ok sound_and_then)

lemma sound_attempt: "sound I R m \<Longrightarrow> sound I R (attempt m)"
  by (rule soundI) (auto simp: wp_attempt elim: sound_wp)

lemmas sound_intros = sound_ok sound_self sound_throw sound_guard sound_ok_or sound_update
  sound_and_then sound_then_do sound_fold_each sound_collect_each sound_attempt

end

end
