(* ===== verification/ResourceProps.thy ===== *)
theory ResourceProps
  imports Resources Soundness
begin

text \<open>
  The resource table keeps its books: the invariant \<open>table_ok\<close> ties the free list and the count
  of live entries to the slots, no method panics under it, and the slot clocks only advance. From
  these follow the properties of handles: a handle that has stopped naming a resource never names
  one again, and a sweep that reports completion has emptied the table.
\<close>

section \<open>The invariant\<close>

fun box_of :: "'r SlotState \<Rightarrow> 'r BoxedResource option" where
  "box_of Vacant = None"
| "box_of (Open b) = Some b"
| "box_of (Closing b) = Some b"

definition slot_ok :: "('r, 'w) HostResource \<Rightarrow> 'r ResourceSlot \<Rightarrow> bool" where
  "slot_ok H s \<longleftrightarrow> 0 < unat (generation s) \<and> unat (generation s) \<le> unat MAX_HANDLE_GENERATION \<and>
     resource_type_key s = resource_type_key_fn H (type_id s) \<and>
     (case box_of (slot_state s) of None \<Rightarrow> True | Some b \<Rightarrow> vtable b = type_id s)"

definition occupied :: "('r, 's) ResourceTable \<Rightarrow> nat set" where
  "occupied t = set (indices_where (\<lambda>st. \<not> is_vacant st) (slots t))"

definition reusable :: "('r, 's) ResourceTable \<Rightarrow> nat set" where
  "reusable t = {i \<in> set (indices_where is_vacant (slots t)).
     unat (generation (slots t ! i)) < unat MAX_HANDLE_GENERATION}"

definition table_ok :: "('r, 'w) HostResource \<Rightarrow> ('r, 's) ResourceTable \<Rightarrow> bool" where
  "table_ok H t \<longleftrightarrow>
     0 < unat (arena_id t) \<and> unat (arena_id t) \<le> unat MAX_HANDLE_ARENA_ID \<and>
     0 < max_entries t \<and> max_entries t \<le> MAX_RESOURCE_SLOTS \<and>
     length (slots t) \<le> MAX_RESOURCE_SLOTS \<and> (\<forall>s \<in> set (slots t). slot_ok H s) \<and>
     distinct (vacant_slots t) \<and> set (vacant_slots t) = reusable t \<and>
     active_entries t = card (occupied t) \<and> active_entries t \<le> max_entries t \<and>
     (\<forall>tid b. scope_states t tid = Some b \<longrightarrow> state_type b = tid)"

text \<open>
  The clock of a slot reads twice its generation while it is occupied and one more once it is
  vacant again; a slot that does not exist yet reads one.
\<close>

definition table_clock :: "('r, 's) ResourceTable \<Rightarrow> nat \<Rightarrow> nat" where
  "table_clock t i =
     (if i < length (slots t)
      then 2 * unat (generation (slots t ! i)) + (if is_vacant (slot_state (slots t ! i)) then 1 else 0)
      else 1)"

text \<open>The handle names an occupant of the table, open or closing.\<close>

definition names_resource :: "('r, 's) ResourceTable \<Rightarrow> ResourceHandle \<Rightarrow> bool" where
  "names_resource t h \<longleftrightarrow> arena_id t = handle_arena_id h \<and> handle_slot h \<in> occupied t \<and>
     unat (generation (slots t ! handle_slot h)) = unat (handle_generation h)"

definition table_inv :: "('r, 'w) HostResource \<Rightarrow> nat \<Rightarrow> ('r, 's) ResourceTable \<times> 'w \<Rightarrow> bool" where
  "table_inv H n s \<longleftrightarrow> table_ok H (fst s) \<and> n \<le> length (slots (fst s))"

definition table_ages :: "('r, 's) ResourceTable \<times> 'w \<Rightarrow> ('r, 's) ResourceTable \<times> 'w \<Rightarrow> bool" where
  "table_ages s u \<longleftrightarrow> ages arena_id table_clock (fst s) (fst u)"

lemma occupied_iff [simp]: "i \<in> occupied t \<longleftrightarrow> i < length (slots t) \<and> slot_state (slots t ! i) \<noteq> Vacant"
  by (cases "slot_state (slots t ! i)") (auto simp: occupied_def indices_where_def)

lemma is_vacant_iff [simp]: "is_vacant st \<longleftrightarrow> st = Vacant"
  by (cases st) auto

lemma reusable_iff: "i \<in> reusable t \<longleftrightarrow> i < length (slots t) \<and> slot_state (slots t ! i) = Vacant \<and>
    unat (generation (slots t ! i)) < unat MAX_HANDLE_GENERATION"
  by (auto simp: reusable_def indices_where_def)

lemma finite_occupied [simp]: "finite (occupied t)"
  by (simp add: occupied_def)

interpretation table_frame: preserving "table_inv H n" table_ages for H n
  by unfold_locales (auto simp: table_ages_def intro: ages_refl ages_trans)

text \<open>A calm method lets no new resource in and leaves a sweep under way as it is.\<close>

definition table_calm :: "('r, 's) ResourceTable \<times> 'w \<Rightarrow> ('r, 's) ResourceTable \<times> 'w \<Rightarrow> bool" where
  "table_calm s u \<longleftrightarrow> table_ages s u \<and> close_all_state (fst u) = close_all_state (fst s) \<and>
     (\<forall>h. names_resource (fst u) h \<longrightarrow> names_resource (fst s) h)"

interpretation calm: preserving "table_inv H n" table_calm for H n
  by unfold_locales (auto simp: table_calm_def table_ages_def intro: ages_refl ages_trans)

lemma calm_ages: "table_calm s u \<Longrightarrow> table_ages s u"
  by (simp add: table_calm_def)

lemma calm_sound: "sound (table_inv H n) table_calm m \<Longrightarrow> sound (table_inv H n) table_ages m"
  by (erule sound_mono) (rule calm_ages)

interpretation stale: generations arena_id table_clock names_resource handle_arena_id handle_slot
  "\<lambda>h. unat (handle_generation h)"
proof
  fix s :: "('r, 's) ResourceTable" and h
  show "names_resource s h \<longleftrightarrow> arena_id s = handle_arena_id h \<and>
      table_clock s (handle_slot h) = 2 * unat (handle_generation h)"
    by (auto simp: names_resource_def table_clock_def) presburger+
qed

section \<open>Moves of one slot\<close>

lemma unat_ucast_generation [simp]: "unat (ucast (g :: u32) :: u64) = unat g"
proof -
  have "unat g < 2 ^ 64"
    using unsigned_less [of g, where 'a = nat] by (rule less_le_trans) simp
  then show ?thesis by (simp add: unsigned_ucast_eq take_bit_nat_eq_self)
qed

lemma vacate_simps:
  assumes "i < length (slots t)"
  shows "slots (vacate i t) = (slots t)[i := (slots t ! i)\<lparr>slot_state := Vacant\<rparr>]"
    and "arena_id (vacate i t) = arena_id t" and "max_entries (vacate i t) = max_entries t"
    and "active_entries (vacate i t) = active_entries t - 1"
    and "close_all_state (vacate i t) = close_all_state t"
    and "scope_states (vacate i t) = scope_states t"
    and "vacant_slots (vacate i t) =
      (if unat (generation (slots t ! i)) < unat MAX_HANDLE_GENERATION
       then vacant_slots t @ [i] else vacant_slots t)"
  using assms by (simp_all add: vacate_def retire_def word_less_nat_alt) (simp_all add: with_state_def)

lemma occupied_vacate: "i < length (slots t) \<Longrightarrow> occupied (vacate i t) = occupied t - {i}"
  by (auto simp: vacate_simps nth_list_update split: if_splits)

lemma reusable_vacate: "i < length (slots t) \<Longrightarrow>
   reusable (vacate i t) = (if unat (generation (slots t ! i)) < unat MAX_HANDLE_GENERATION
     then insert i (reusable t) else reusable t)"
  by (auto simp: reusable_iff vacate_simps nth_list_update split: if_splits)

lemma table_ok_vacate:
  assumes "table_ok H t" and "i < length (slots t)" and "slot_state (slots t ! i) \<noteq> Vacant"
  shows "table_ok H (vacate i t)"
proof -
  have "card (occupied (vacate i t)) = active_entries t - 1"
    using assms by (simp add: occupied_vacate table_ok_def)
  moreover have "slot_ok H ((slots t ! i)\<lparr>slot_state := Vacant\<rparr>)"
    using assms by (simp add: table_ok_def slot_ok_def)
  moreover have "i \<notin> reusable t" using assms by (simp add: reusable_iff)
  ultimately show ?thesis
    using assms by (auto simp: table_ok_def vacate_simps reusable_vacate dest!: set_update_subset_insert [THEN subsetD])
qed

lemma slot_ok_nth: "table_ok H t \<Longrightarrow> i < length (slots t) \<Longrightarrow> slot_ok H (slots t ! i)"
  by (simp add: table_ok_def)

lemma table_ok_with_state:
  assumes "table_ok H t" and "i < length (slots t)" and "slot_state (slots t ! i) \<noteq> Vacant"
    and "box_of st = Some b'" and "box_of (slot_state (slots t ! i)) = Some b" and "vtable b' = vtable b"
  shows "table_ok H (with_state i st t)"
proof -
  have "st \<noteq> Vacant" using assms(4) by auto
  then have "occupied (with_state i st t) = occupied t" "reusable (with_state i st t) = reusable t"
    using assms(2,3) by (auto simp: reusable_iff with_state_def nth_list_update split: if_splits)
  moreover have "slot_ok H ((slots t ! i)\<lparr>slot_state := st\<rparr>)"
    using slot_ok_nth [OF assms(1,2)] assms(4-) by (simp add: slot_ok_def)
  moreover have "slots (with_state i st t) = (slots t)[i := (slots t ! i)\<lparr>slot_state := st\<rparr>]"
    by (simp add: with_state_def)
  ultimately show ?thesis
    using assms(1) by (auto simp: table_ok_def dest!: set_update_subset_insert [THEN subsetD])
qed

lemma slot_move_ok:
  assumes "slot_move i t u" and "table_ok H t"
  shows "table_ok H u" and "ages arena_id table_clock t u" and "length (slots u) = length (slots t)"
proof -
  show "table_ok H u"
    using assms by cases (auto intro!: table_ok_vacate table_ok_with_state)
  show "length (slots u) = length (slots t)"
    using assms(1) by cases (auto simp: vacate_simps)
  show "ages arena_id table_clock t u"
    using assms(1)
  proof cases
    case (touched b r)
    then show ?thesis by (auto simp: ages_def table_clock_def with_state_def nth_list_update)
  next
    case (closing b r)
    then show ?thesis by (auto simp: ages_def table_clock_def with_state_def nth_list_update)
  next
    case vacated
    then show ?thesis by (auto simp: ages_def table_clock_def vacate_simps nth_list_update)
  qed (simp add: ages_refl)
qed

lemma slot_move_calm:
  assumes "slot_move i t u"
  shows "names_resource u h \<Longrightarrow> names_resource t h" and "close_all_state u = close_all_state t"
  using assms by (cases; auto simp: names_resource_def vacate_simps nth_list_update with_state_def split: if_splits)+

lemma slot_move_keeps:
  "slot_move i t u \<Longrightarrow> table_inv H n (t, w) \<Longrightarrow> table_inv H n (u, w') \<and> table_calm (t, w) (u, w')"
  using slot_move_ok [of i t u H] slot_move_calm [of i t u] by (auto simp: table_inv_def table_calm_def table_ages_def)

lemma active_when_occupied:
  assumes "table_ok H t" and "i < length (slots t)" and "slot_state (slots t ! i) \<noteq> Vacant"
  shows "0 < active_entries t"
proof -
  have "i \<in> occupied t" using assms by simp
  then have "0 < card (occupied t)" using card_gt_0_iff finite_occupied by blast
  with assms(1) show ?thesis by (simp add: table_ok_def)
qed


section \<open>Methods that allocate nothing are calm\<close>

lemma calm_moves:
  fixes m :: "('r, 's, 'w, 'a) TableMethod"
  assumes "\<And>t w. table_inv H n (t, w) \<Longrightarrow> wp m (\<lambda>_ (u, w'). \<exists>i. slot_move i t u)
      (\<lambda>e (u, w'). e \<noteq> Panicked \<and> (\<exists>i. slot_move i t u)) (t, w)"
  shows "sound (table_inv H n) table_calm m"
proof (rule soundI)
  fix s :: "('r, 's) ResourceTable \<times> 'w"
  assume inv: "table_inv H n s"
  show "wp m (\<lambda>_ u. table_inv H n u \<and> table_calm s u)
      (\<lambda>e u. e \<noteq> Panicked \<and> table_inv H n u \<and> table_calm s u) s"
    using assms [of "fst s" "snd s"] inv slot_move_keeps [of _ "fst s" _ H n "snd s"]
    by (auto elim!: wp_use)
qed

lemma calm_slot_method:
  fixes m :: "('r, 's, 'w, 'a) TableMethod"
  assumes "\<And>t w. i < length (slots t) \<Longrightarrow> (slot_state (slots t ! i) \<noteq> Vacant \<Longrightarrow> 0 < active_entries t) \<Longrightarrow>
      wp m (\<lambda>_ (u, w'). slot_move i t u) (\<lambda>e (u, w'). e \<noteq> Panicked \<and> slot_move i t u) (t, w)"
    and "i < n"
  shows "sound (table_inv H n) table_calm m"
proof (rule calm_moves)
  fix t :: "('r, 's) ResourceTable" and w
  assume "table_inv H n (t, w)"
  with assms(2) show "wp m (\<lambda>_ (u, w'). \<exists>i. slot_move i t u)
      (\<lambda>e (u, w'). e \<noteq> Panicked \<and> (\<exists>i. slot_move i t u)) (t, w)"
    using active_when_occupied [of H t i]
    by (intro wp_use [OF assms(1)]) (auto simp: table_inv_def)
qed

lemma try_begin_close_calm: "i < n \<Longrightarrow> sound (table_inv H n) table_calm (try_begin_close H' i reason y)"
  by (rule calm_slot_method [where i = i], rule wp_use [OF wp_try_begin_close]) auto

lemma try_poll_close_calm: "i < n \<Longrightarrow> sound (table_inv H n) table_calm (try_poll_close H' i y)"
  by (rule calm_slot_method [where i = i], rule wp_use [OF wp_try_poll_close]) auto

lemma begin_drop_close_calm: "i < n \<Longrightarrow> sound (table_inv H n) table_calm (begin_drop_close H' reason i first)"
  by (rule calm_slot_method [where i = i])
     (auto simp: begin_drop_close_def resource_begin_close_def wp_simps slot_move.intros
       split: SlotState.splits sum.splits CloseProgress.splits prod.splits)

lemma slot_at_calm: "i < n \<Longrightarrow> sound (table_inv H n) table_calm (slot_at i)"
  by (rule calm_slot_method [where i = i]) (auto simp: wp_simps slot_move.intros)

lemma check_type_calm: "i < n \<Longrightarrow> sound (table_inv H n) table_calm (check_type tid i h)"
  unfolding check_type_def by (intro calm.sound_intros slot_at_calm)

text \<open>What a valid handle resolves to.\<close>

lemma handle_slot_index_valid: "handle_valid h \<Longrightarrow> handle_slot_index h = Some (handle_slot h)"
  by (simp add: handle_slot_index_def handle_slot_def handle_valid_iff unat_minus_one)

lemma wp_resolve_index:
  assumes "handle_valid h"
  shows "wp (resolve_index h) Q E (t, w) =
    (if handle_arena_id h \<noteq> arena_id t then E (Raised (wrong_arena_error h)) (t, w)
     else if handle_slot h < length (slots t) \<and>
             unat (generation (slots t ! handle_slot h)) = unat (handle_generation h)
     then Q (handle_slot h) (t, w)
     else E (Raised (stale_handle_error h)) (t, w))"
  by (simp add: resolve_index_def check_generation_def wp_simps handle_slot_index_valid assms
      word_unat_eq_iff not_less)

lemma calm_resolved:
  fixes f :: "nat \<Rightarrow> ('r, 's, 'w, 'a) TableMethod"
  assumes "handle_valid h" and "\<And>i n. i < n \<Longrightarrow> sound (table_inv H n) table_calm (f i)"
  shows "sound (table_inv H n) table_calm (and_then (resolve_index h) f)"
proof (rule soundI)
  fix s :: "('r, 's) ResourceTable \<times> 'w"
  assume inv: "table_inv H n s"
  obtain t w where s: "s = (t, w)" by fastforce
  let ?i = "handle_slot h" and ?n = "max n (Suc (handle_slot h))"
  have "wp (f ?i) (\<lambda>_ u. table_inv H n u \<and> table_calm s u)
     (\<lambda>e u. e \<noteq> Panicked \<and> table_inv H n u \<and> table_calm s u) s" if "?i < length (slots t)"
    using assms(2) [of ?i ?n] by (rule sound_wp) (use inv that in \<open>auto simp: table_inv_def s\<close>)
  then show "wp (and_then (resolve_index h) f) (\<lambda>_ u. table_inv H n u \<and> table_calm s u)
     (\<lambda>e u. e \<noteq> Panicked \<and> table_inv H n u \<and> table_calm s u) s"
    using inv by (simp add: s wp_and_then wp_resolve_index assms(1) calm.relates_refl)
qed

lemma close_open_slot_calm: "i < n \<Longrightarrow> sound (table_inv H n) table_calm (close_open_slot H i h reason)"
  by (rule calm_slot_method [where i = i])
     (auto simp: close_open_slot_def resource_begin_close_def wp_simps slot_move.intros
       split: SlotState.splits sum.splits CloseProgress.splits prod.splits)

lemma begin_close_calm:
  "handle_valid h \<Longrightarrow> sound (table_inv H n) table_calm (begin_close H tid h reason)"
  unfolding begin_close_def
  by (intro calm_resolved calm.sound_then_do check_type_calm close_open_slot_calm)

lemma poll_close_calm:
  "handle_valid h \<Longrightarrow> sound (table_inv H n) table_calm (poll_close H tid h)"
  unfolding poll_close_def
  by (intro calm_resolved calm.sound_then_do check_type_calm)
     (auto intro!: calm_slot_method simp: resource_poll_close_def wp_simps slot_move.intros
       split: SlotState.splits sum.splits Poll.splits prod.splits)

lemma table_take_calm:
  "handle_valid h \<Longrightarrow> sound (table_inv H n) table_calm (table_take tid h)"
  unfolding table_take_def
  by (intro calm_resolved calm.sound_then_do check_type_calm)
     (auto intro!: calm_slot_method simp: wp_simps slot_move.intros
       split: SlotState.splits option.splits)

lemma validate_active_calm:
  "handle_valid h \<Longrightarrow> sound (table_inv H n) table_calm (validate_active tid h)"
  unfolding validate_active_def
  by (intro calm_resolved calm.sound_intros check_type_calm slot_at_calm)

lemma typed_calm: "handle_valid h \<Longrightarrow> sound (table_inv H n) table_calm (typed tid h)"
  unfolding typed_def by (intro calm.sound_intros validate_active_calm)

lemma validate_resource_type_key_calm:
  "handle_valid h \<Longrightarrow> sound (table_inv H n) table_calm (validate_resource_type_key h key)"
  unfolding validate_resource_type_key_def
  by (intro calm_resolved calm.sound_intros slot_at_calm)

text \<open>A validated handle names an open resource of the type asked for.\<close>

lemma wp_validate_active:
  assumes "handle_valid h"
  shows "wp (validate_active tid h) Q E (t, w) =
    (if handle_arena_id h \<noteq> arena_id t then E (Raised (wrong_arena_error h)) (t, w)
     else if handle_slot h < length (slots t) \<and>
             unat (generation (slots t ! handle_slot h)) = unat (handle_generation h)
     then if type_id (slots t ! handle_slot h) \<noteq> tid then E (Raised (type_mismatch h tid)) (t, w)
          else if is_open (slot_state (slots t ! handle_slot h)) then Q (handle_slot h) (t, w)
          else E (Raised (already_closed_error h)) (t, w)
     else E (Raised (stale_handle_error h)) (t, w))"
  by (simp add: validate_active_def check_type_def wp_simps wp_resolve_index assms)

lemma is_open_iff: "is_open st \<longleftrightarrow> (\<exists>b. st = Open b)"
  by (cases st) auto

lemma get_mut_calm: "handle_valid h \<Longrightarrow> sound (table_inv H n) table_calm (get_mut tid h f)"
proof (rule calm_moves)
  fix t w assume h: "handle_valid h" and inv: "table_inv H n (t, w)"
  then show "wp (get_mut tid h f) (\<lambda>_ (u, w'). \<exists>i. slot_move i t u)
      (\<lambda>e (u, w'). e \<noteq> Panicked \<and> (\<exists>i. slot_move i t u)) (t, w)"
    using slot_ok_nth [of H t "handle_slot h"]
    by (auto simp: get_mut_def wp_and_then wp_validate_active h borrow_open_def downcast_def
      wp_simps slot_ok_def is_open_iff table_inv_def
      intro!: exI [of _ "handle_slot h"] slot_move.intros)
qed

lemma get_calm: "handle_valid h \<Longrightarrow> sound (table_inv H n) table_calm (get tid h)"
proof (rule calm_moves)
  fix t w assume h: "handle_valid h" and inv: "table_inv H n (t, w)"
  then show "wp (get tid h) (\<lambda>_ (u, w'). \<exists>i. slot_move i t u)
      (\<lambda>e (u, w'). e \<noteq> Panicked \<and> (\<exists>i. slot_move i t u)) (t, w)"
    using slot_ok_nth [of H t "handle_slot h"]
    by (auto simp: get_def wp_and_then wp_validate_active h borrow_open_def downcast_def
      wp_simps slot_ok_def is_open_iff table_inv_def
      intro!: exI [of _ "handle_slot h"] slot_move.intros)
qed

lemmas try_begin_close_sound = try_begin_close_calm [THEN calm_sound]
  and try_poll_close_sound = try_poll_close_calm [THEN calm_sound]
  and begin_drop_close_sound = begin_drop_close_calm [THEN calm_sound]
  and begin_close_sound = begin_close_calm [THEN calm_sound]
  and poll_close_sound = poll_close_calm [THEN calm_sound]
  and table_take_sound = table_take_calm [THEN calm_sound]
  and typed_sound = typed_calm [THEN calm_sound]
  and validate_resource_type_key_sound = validate_resource_type_key_calm [THEN calm_sound]
  and get_mut_sound = get_mut_calm [THEN calm_sound]
  and get_sound = get_calm [THEN calm_sound]

section \<open>Allocation\<close>

definition placed_slot :: "('r, 'w) HostResource \<Rightarrow> TypeId \<Rightarrow> 'r \<Rightarrow> u32 \<Rightarrow> 'r ResourceSlot" where
  "placed_slot H tid v g =
     \<lparr>generation = g, type_id = tid, resource_type_key = resource_type_key_fn H tid,
      slot_state = Open \<lparr>vtable = tid, content = v\<rparr>\<rparr>"

definition reuse_slot :: "nat \<Rightarrow> 'r ResourceSlot \<Rightarrow> ('r, 's) ResourceTable \<Rightarrow> ('r, 's) ResourceTable" where
  "reuse_slot i s t = t\<lparr>vacant_slots := butlast (vacant_slots t), slots := (slots t)[i := s],
     active_entries := active_entries t + 1\<rparr>"

definition add_slot :: "'r ResourceSlot \<Rightarrow> ('r, 's) ResourceTable \<Rightarrow> ('r, 's) ResourceTable" where
  "add_slot s t = t\<lparr>slots := slots t @ [s], active_entries := active_entries t + 1\<rparr>"

definition capacity_error :: "nat \<Rightarrow> ResourceError" where
  "capacity_error n = res_with_limit n (resource_error ResourceLimitExceeded ''resource::push''
     ''resource table capacity has been reached'')"

definition slot_space_error :: ResourceError where
  "slot_space_error = resource_error ResourceIdExhausted ''resource::push''
     ''resource table slot space is exhausted''"

lemma slot_overwritten:
  "s\<lparr>generation := g, type_id := tid, resource_type_key := key, slot_state := st\<rparr> =
   \<lparr>generation = g, type_id = tid, resource_type_key = key, slot_state = st\<rparr>" for s :: "'r ResourceSlot"
  by (cases s) simp

lemma set_butlast_distinct: "distinct xs \<Longrightarrow> xs \<noteq> [] \<Longrightarrow> set (butlast xs) = set xs - {last xs}"
  by (cases xs rule: rev_cases) auto

lemma last_reusable:
  assumes "table_ok H t" and "vacant_slots t \<noteq> []"
  shows "last (vacant_slots t) \<in> reusable t"
  using assms by (metis last_in_set table_ok_def)

lemma table_ok_reuse_slot:
  assumes "table_ok H t" and "vacant_slots t \<noteq> []" and "slot_ok H s" and "slot_state s \<noteq> Vacant"
    and "active_entries t < max_entries t"
  shows "table_ok H (reuse_slot (last (vacant_slots t)) s t)"
proof -
  let ?i = "last (vacant_slots t)"
  have i: "?i < length (slots t)" "slot_state (slots t ! ?i) = Vacant"
    using last_reusable [OF assms(1,2)] by (simp_all add: reusable_iff)
  have "occupied (reuse_slot ?i s t) = insert ?i (occupied t)"
    using i assms(4) by (auto simp: reuse_slot_def nth_list_update split: if_splits)
  then have "card (occupied (reuse_slot ?i s t)) = Suc (card (occupied t))"
    using i by simp
  moreover have "reusable (reuse_slot ?i s t) = reusable t - {?i}"
    using i assms(4) by (auto simp: reusable_iff reuse_slot_def nth_list_update split: if_splits)
  ultimately show ?thesis
    using assms by (auto simp: table_ok_def reuse_slot_def set_butlast_distinct distinct_butlast
        dest!: set_update_subset_insert [THEN subsetD])
qed

lemma table_ok_add_slot:
  assumes "table_ok H t" and "slot_ok H s" and "slot_state s \<noteq> Vacant"
    and "active_entries t < max_entries t" and "length (slots t) < MAX_RESOURCE_SLOTS"
  shows "table_ok H (add_slot s t)"
proof -
  have "occupied (add_slot s t) = insert (length (slots t)) (occupied t)"
    using assms(3) by (auto simp: add_slot_def nth_append split: if_splits)
  then have "card (occupied (add_slot s t)) = Suc (card (occupied t))" by simp
  moreover have "reusable (add_slot s t) = reusable t"
    using assms(3) by (auto simp: reusable_iff add_slot_def nth_append split: if_splits)
  ultimately show ?thesis
    using assms by (auto simp: table_ok_def add_slot_def)
qed

lemma next_generation_below:
  assumes "unat g < unat MAX_HANDLE_GENERATION"
  shows "next_generation g = Some (g + 1)" and "unat (g + 1) = Suc (unat g)"
proof -
  have "unat g < 2 ^ 25 - 1" using assms by (simp add: handle_limits)
  then show "unat (g + 1) = Suc (unat g)"
    by (simp add: unat_word_ariths)
  with assms show "next_generation g = Some (g + 1)"
    by (simp add: next_generation_def checked_add_u32_def word_le_nat_alt handle_limits)
qed

text \<open>
  Allocation takes the slot vacated last under the next generation, or a new slot, or fails with the
  table as it was; the handle it returns names that slot.
\<close>

lemma wp_allocate:
  assumes "table_ok H t"
  shows "wp (allocate H tid v)
     (\<lambda>h (u, w'). w' = w \<and> active_entries t < max_entries t \<and> handle_valid h \<and> handle_arena_id h = arena_id t \<and>
        (\<exists>g. unat (handle_generation h) = unat g \<and>
          (if vacant_slots t = []
           then unat g = 1 \<and> handle_slot h = length (slots t) \<and> length (slots t) < MAX_RESOURCE_SLOTS \<and>
             u = add_slot (placed_slot H tid v g) t
           else handle_slot h = last (vacant_slots t) \<and>
             unat g = Suc (unat (generation (slots t ! handle_slot h))) \<and>
             unat g \<le> unat MAX_HANDLE_GENERATION \<and>
             u = reuse_slot (handle_slot h) (placed_slot H tid v g) t)))
     (\<lambda>e (u, w'). w' = w \<and> u = t \<and>
        (if active_entries t = max_entries t then e = Raised (capacity_error (max_entries t))
         else vacant_slots t = [] \<and> length (slots t) = MAX_RESOURCE_SLOTS \<and> e = Raised slot_space_error)) (t, w)"
proof -
  have small: "max_entries t \<le> usize_max"
    using assms by (simp add: table_ok_def handle_limits usize_max_def)
  show ?thesis
  proof (cases "vacant_slots t = []")
    case True
    have "\<exists>h. handle_encode (arena_id t) (length (slots t)) (ucast (1 :: u32)) = Some h \<and> handle_valid h \<and>
        handle_arena_id h = arena_id t \<and> handle_slot h = length (slots t) \<and> unat (handle_generation h) = 1"
      if room: "length (slots t) < MAX_RESOURCE_SLOTS"
    proof -
      obtain h where "handle_encode (arena_id t) (length (slots t)) (ucast (1 :: u32)) = Some h" "handle_valid h"
        "handle_arena_id h = arena_id t" "handle_slot h = length (slots t)" "handle_generation h = ucast (1 :: u32)"
        by (rule handle.encodable [of "arena_id t" "length (slots t)" "ucast (1 :: u32)"])
           (use assms room in \<open>auto simp: table_ok_def handle_limits\<close>)
      then show ?thesis by auto
    qed
    with assms small True show ?thesis
      by (auto simp: allocate_def wp_simps capacity_error_def slot_space_error_def checked_add_usize_def
          table_ok_def placed_slot_def add_slot_def not_le not_less Let_def intro!: exI [of _ "1 :: u32"])
  next
    case False
    let ?i = "last (vacant_slots t)" let ?g = "generation (slots t ! ?i) + 1"
    have i: "?i < length (slots t)" "unat (generation (slots t ! ?i)) < unat MAX_HANDLE_GENERATION"
      using last_reusable [OF assms False] by (simp_all add: reusable_iff)
    note g = next_generation_below [OF i(2)]
    obtain h where "handle_encode (arena_id t) ?i (ucast ?g) = Some h" "handle_valid h"
        "handle_arena_id h = arena_id t" "handle_slot h = ?i" "handle_generation h = ucast ?g"
      by (rule handle.encodable [of "arena_id t" ?i "ucast ?g"])
         (use assms i g in \<open>auto simp: table_ok_def\<close>)
    with assms small False i g show ?thesis
      by (auto simp: allocate_def wp_simps capacity_error_def checked_add_usize_def set_slot_def
          table_ok_def placed_slot_def reuse_slot_def not_le not_less Let_def
          slot_overwritten intro!: exI [of _ ?g])
  qed
qed

lemma allocated:
  assumes "table_ok H t" and "allocate H tid v (t, w) = (Inr h, (u, w'))"
  shows "w' = w" and "handle_valid h" and "table_ok H u" and "length (slots t) \<le> length (slots u)"
    and "ages arena_id table_clock t u" and "table_clock t (handle_slot h) < 2 * unat (handle_generation h)"
    and "names_resource u h"
    and "\<exists>g. slots u ! handle_slot h = placed_slot H tid v g"
    and "occupied u = insert (handle_slot h) (occupied t)" and "handle_slot h \<notin> occupied t"
    and "\<And>j. j < length (slots t) \<Longrightarrow> j \<noteq> handle_slot h \<Longrightarrow> slots u ! j = slots t ! j"
proof -
  let ?i = "handle_slot h"
  note post = wp_D(1) [OF wp_allocate [OF assms(1), of tid v w] assms(2)]
  have w: "w' = w" and room: "active_entries t < max_entries t" and valid: "handle_valid h"
    and arena: "handle_arena_id h = arena_id t"
    using post by simp_all
  obtain g where gen: "unat (handle_generation h) = unat g" and outcome: "if vacant_slots t = []
      then unat g = 1 \<and> ?i = length (slots t) \<and> length (slots t) < MAX_RESOURCE_SLOTS \<and>
        u = add_slot (placed_slot H tid v g) t
      else ?i = last (vacant_slots t) \<and> unat g = Suc (unat (generation (slots t ! ?i))) \<and>
        unat g \<le> unat MAX_HANDLE_GENERATION \<and> u = reuse_slot ?i (placed_slot H tid v g) t"
    using post by (auto simp only: prod.case)
  have new: "vacant_slots t = [] \<Longrightarrow> unat g = 1 \<and> ?i = length (slots t) \<and>
        length (slots t) < MAX_RESOURCE_SLOTS \<and> u = add_slot (placed_slot H tid v g) t"
    and reused: "vacant_slots t \<noteq> [] \<Longrightarrow> ?i = last (vacant_slots t) \<and>
        unat g = Suc (unat (generation (slots t ! ?i))) \<and> unat g \<le> unat MAX_HANDLE_GENERATION \<and>
        u = reuse_slot ?i (placed_slot H tid v g) t"
    using outcome by (metis (mono_tags))+
  have slot: "slot_ok H (placed_slot H tid v g)"
    using new reused by (cases "vacant_slots t = []") (auto simp: slot_ok_def placed_slot_def handle_limits)
  have ok: "table_ok H u"
    using new reused table_ok_add_slot [OF assms(1) slot] table_ok_reuse_slot [OF assms(1) _ slot] room
    by (cases "vacant_slots t = []") (auto simp: placed_slot_def)
  show "w' = w" "handle_valid h" "table_ok H u" by fact+
  have i: "?i < length (slots t)" "slot_state (slots t ! ?i) = Vacant" if "vacant_slots t \<noteq> []"
    using last_reusable [OF assms(1) that] reused [OF that] by (simp_all add: reusable_iff)
  show "length (slots t) \<le> length (slots u)"
    using new reused by (cases "vacant_slots t = []") (auto simp: add_slot_def reuse_slot_def)
  show "ages arena_id table_clock t u"
    using new reused i by (cases "vacant_slots t = []")
      (auto simp: ages_def table_clock_def add_slot_def reuse_slot_def nth_append nth_list_update placed_slot_def)
  show "table_clock t ?i < 2 * unat (handle_generation h)"
    using new reused i gen by (cases "vacant_slots t = []") (auto simp: table_clock_def)
  show "\<exists>g. slots u ! ?i = placed_slot H tid v g"
    using new reused i by (cases "vacant_slots t = []") (auto simp: add_slot_def reuse_slot_def)
  show "names_resource u h"
    using new reused i gen arena by (cases "vacant_slots t = []")
      (auto simp: names_resource_def add_slot_def reuse_slot_def placed_slot_def)
  show "occupied u = insert ?i (occupied t)"
    using new reused i by (cases "vacant_slots t = []")
      (auto simp: add_slot_def reuse_slot_def placed_slot_def nth_append nth_list_update split: if_splits)
  show "?i \<notin> occupied t"
    using new i by (cases "vacant_slots t = []") auto
  show "slots u ! j = slots t ! j" if "j < length (slots t)" "j \<noteq> ?i" for j
    using new reused that by (cases "vacant_slots t = []") (auto simp: add_slot_def reuse_slot_def nth_append)
qed

lemma push_sound: "sound (table_inv H n) table_ages (push H tid v)"
proof (rule soundI)
  fix s assume inv: "table_inv H n s"
  obtain t w where s: "s = (t, w)" by fastforce
  obtain r u w' where run: "allocate H tid v (t, w) = (r, (u, w'))" by (metis surj_pair)
  have ok: "table_ok H t" using inv by (simp add: table_inv_def s)
  show "wp (push H tid v) (\<lambda>_ u. table_inv H n u \<and> table_ages s u)
      (\<lambda>e u. e \<noteq> Panicked \<and> table_inv H n u \<and> table_ages s u) s"
  proof (cases r)
    case (Inl e)
    have "u = t" "e \<noteq> Panicked"
      using wp_D(2) [OF wp_allocate [OF ok, of tid v w] run [unfolded Inl]] by (auto split: if_splits)
    with inv show ?thesis
      by (simp add: wp_def push_def s run Inl table_inv_def table_ages_def ages_refl)
  next
    case (Inr h)
    with inv show ?thesis
      using allocated(3-5) [OF ok run [unfolded Inr]]
      by (simp add: wp_def push_def s run Inr table_inv_def table_ages_def)
  qed
qed

section \<open>Sweeps\<close>

lemma sound_indices:
  fixes f :: "nat list \<Rightarrow> ('r, 's, 'w, 'a) TableMethod"
  assumes "\<And>is n. (\<And>i. i \<in> set is \<Longrightarrow> i < n) \<Longrightarrow> sound (table_inv H n) R (f is)"
  shows "sound (table_inv H n) R (and_then (own (\<lambda>t. indices_where P (slots t))) f)"
proof (rule soundI)
  fix s :: "('r, 's) ResourceTable \<times> 'w"
  assume inv: "table_inv H n s"
  obtain t w where s: "s = (t, w)" by fastforce
  let ?is = "indices_where P (slots t)" and ?n = "length (slots t)"
  have "sound (table_inv H ?n) R (f ?is)"
    by (rule assms) (simp add: indices_where_def)
  then show "wp (and_then (own (\<lambda>t. indices_where P (slots t))) f)
      (\<lambda>_ u. table_inv H n u \<and> R s u)
      (\<lambda>e u. e \<noteq> Panicked \<and> table_inv H n u \<and> R s u) s"
    unfolding s wp_and_then wp_own
    by (rule sound_wp) (use inv in \<open>auto simp: table_inv_def s\<close>)
qed

lemma or_progress_sound:
  "(\<And>y. sound (table_inv H n) table_ages (m i y)) \<Longrightarrow>
   sound (table_inv H n) table_ages (or_progress m i acc)"
  unfolding or_progress_def by (auto intro!: table_frame.sound_and_then table_frame.sound_ok split: prod.splits)

lemma sweep_pass_sound: "sound (table_inv H n) table_ages (sweep_pass H reason y)"
  unfolding sweep_pass_def open_indices_def closing_indices_def
  by (intro sound_indices table_frame.sound_and_then table_frame.sound_fold_each or_progress_sound
      try_begin_close_sound try_poll_close_sound) auto

text \<open>
  What a sweep does between two points: every resource it removes is counted once, it opens no
  slot, the first error stays, and the rest of the table is untouched.
\<close>

definition report_ok :: "CloseAllReport \<Rightarrow> bool" where
  "report_ok y \<longleftrightarrow> (first_error y = None \<longleftrightarrow> failed y = 0) \<and> failed y \<le> closed y"

definition swept ::
  "('r, 's) ResourceTable \<Rightarrow> CloseAllReport \<Rightarrow> ('r, 's) ResourceTable \<Rightarrow> CloseAllReport \<Rightarrow> bool" where
  "swept t y u y' \<longleftrightarrow>
     closed y' + card (occupied u) = closed y + card (occupied t) \<and> occupied u \<subseteq> occupied t \<and>
     failed y' + card (occupied u) \<le> failed y + card (occupied t) \<and>
     length (slots u) = length (slots t) \<and>
     (\<forall>i < length (slots t). is_open (slot_state (slots u ! i)) \<longrightarrow> is_open (slot_state (slots t ! i))) \<and>
     close_all_state u = close_all_state t \<and> scope_states u = scope_states t \<and>
     (\<forall>h. names_resource u h \<longrightarrow> names_resource t h) \<and>
     (first_error y \<noteq> None \<longrightarrow> first_error y' = first_error y) \<and> failed y \<le> failed y' \<and>
     (report_ok y \<longrightarrow> report_ok y')"

lemma swept_refl: "swept t y t y"
  by (simp add: swept_def)

lemma swept_trans: "swept t y u z \<Longrightarrow> swept u z v x \<Longrightarrow> swept t y v x"
  unfolding swept_def by (elim conjE, intro conjI) (linarith | blast | simp)+

lemma swept_closing:
  assumes "i < length (slots t)" and "slot_state (slots t ! i) \<noteq> Vacant"
  shows "swept t y (with_state i (Closing b) t) y"
proof -
  have "occupied (with_state i (Closing b) t) = occupied t"
    using assms by (auto simp: with_state_def nth_list_update split: if_splits)
  then show ?thesis
    using assms by (auto simp: swept_def names_resource_def with_state_def nth_list_update)
qed

lemma swept_vacate:
  assumes "i < length (slots t)" and "slot_state (slots t ! i) \<noteq> Vacant"
  shows "swept t y (vacate i t) (count_closed y)"
    and "swept t y (vacate i t) (count_failed e (count_closed y))"
proof -
  have "i \<in> occupied t" using assms by simp
  then have "Suc (card (occupied (vacate i t))) = card (occupied t)"
    unfolding occupied_vacate [OF assms(1)] by (rule card_Suc_Diff1 [OF finite_occupied])
  then show "swept t y (vacate i t) (count_closed y)"
    and "swept t y (vacate i t) (count_failed e (count_closed y))"
    using assms(1) by (auto simp: swept_def names_resource_def vacate_simps occupied_vacate count_closed_def count_failed_def
        get_or_insert_def report_ok_def nth_list_update split: option.splits)
qed

lemma try_begin_close_swept:
  assumes "table_inv H n (t, w)" and "i < n"
  shows "wp (try_begin_close H i reason y) (\<lambda>(p, y') (u, w'). swept t y u y' \<and>
      (p \<longleftrightarrow> is_open (slot_state (slots t ! i)))) (\<lambda>_ _. False) (t, w)"
  using assms active_when_occupied [of H t i]
  by (auto simp: try_begin_close_def resource_begin_close_def wp_simps table_inv_def
      intro!: swept_refl swept_closing swept_vacate
      split: SlotState.splits sum.splits CloseProgress.splits prod.splits)

lemma try_poll_close_swept:
  assumes "table_inv H n (t, w)" and "i < n"
  shows "wp (try_poll_close H i y) (\<lambda>(p, y') (u, w'). swept t y u y' \<and>
      (p \<longleftrightarrow> (\<exists>b r r' w''. slot_state (slots t ! i) = Closing b \<and>
           poll_close_fn H (vtable b) (content b) w = (Ready r, r', w'')))) (\<lambda>_ _. False) (t, w)"
  using assms active_when_occupied [of H t i]
  by (auto simp: try_poll_close_def resource_poll_close_def wp_simps table_inv_def
      intro!: swept_refl swept_closing swept_vacate
      split: SlotState.splits sum.splits Poll.splits prod.splits)

lemma sweep_sound: "sound (table_inv H n) table_ages (sweep H reason y)"
proof (rule soundI)
  fix s assume "table_inv H n s"
  then show "wp (sweep H reason y) (\<lambda>_ u. table_inv H n u \<and> table_ages s u)
     (\<lambda>e u. e \<noteq> Panicked \<and> table_inv H n u \<and> table_ages s u) s"
  proof (induction H reason y s rule: sweep.induct)
    case (1 H reason y s)
    obtain r s' where pass: "sweep_pass H reason y s = (r, s')" by (cases "sweep_pass H reason y s")
    note keeps = sound_result [OF sweep_pass_sound [of H n reason y] 1(2) pass]
    show ?case
    proof (cases r)
      case (Inr py)
      obtain p y' where py: "py = (p, y')" by fastforce
      show ?thesis
      proof (cases p)
        case True
        have "sweep H reason y s = sweep H reason y' s'"
          using True by (simp add: sweep.simps [of H reason y s] pass Inr py)
        moreover have "wp (sweep H reason y') (\<lambda>_ u. table_inv H n u \<and> table_ages s u)
            (\<lambda>e u. e \<noteq> Panicked \<and> table_inv H n u \<and> table_ages s u) s'"
          by (rule wp_use [OF 1(1) [OF pass [symmetric] Inr py [symmetric] True keeps(1)]])
             (use keeps(2) table_frame.relates_trans in blast)+
        ultimately show ?thesis by (simp only: wp_def)
      next
        case False
        then have "sweep H reason y s = (Inr y', s')"
          by (simp add: sweep.simps [of H reason y s] pass Inr py)
        with keeps show ?thesis by (simp add: wp_def)
      qed
    qed (use pass keeps in \<open>auto simp: wp_def sweep.simps [of H reason y s]\<close>)
  qed
qed

lemma indices_where_below: "i \<in> set (indices_where P ss) \<Longrightarrow> i < length ss"
  by (simp add: indices_where_def)

text \<open>A loop of a pass over slots, with its accounting relative to where it started.\<close>

lemma fold_swept:
  fixes m :: "nat \<Rightarrow> CloseAllReport \<Rightarrow> ('r, 's, 'w, bool \<times> CloseAllReport) TableMethod"
  assumes inv: "table_inv H n s" and below: "\<And>i. i \<in> set is \<Longrightarrow> i < n"
    and sound: "\<And>i y. i < n \<Longrightarrow> sound (table_inv H n) table_ages (m i y)"
    and step: "\<And>i y t w. table_inv H n (t, w) \<Longrightarrow> i < n \<Longrightarrow>
      wp (m i y) (\<lambda>(p, y') (u, w'). swept t y u y') (\<lambda>_ _. False) (t, w)"
  shows "wp (fold_each is (or_progress m) (q, y))
    (\<lambda>(p, y') u. table_inv H n u \<and> swept (fst s) y (fst u) y') (\<lambda>_ _. False) s"
proof (rule wp_fold_each [of "\<lambda>(p, y') u. table_inv H n u \<and> swept (fst s) y (fst u) y'"])
  fix i and acc :: "bool \<times> CloseAllReport" and u :: "('r, 's) ResourceTable \<times> 'w"
  assume "i \<in> set is" and so_far: "(case acc of (p, y') \<Rightarrow> \<lambda>u. table_inv H n u \<and> swept (fst s) y (fst u) y') u"
  then have i: "i < n" by (simp add: below)
  obtain p y' where acc: "acc = (p, y')" by fastforce
  obtain r u' where run: "m i y' u = (r, u')" by (cases "m i y' u")
  have "table_inv H n u" using so_far by (simp add: acc)
  then have "table_inv H n u'" and "wp (m i y') (\<lambda>(p, y'') (v, w'). swept (fst u) y' v y'') (\<lambda>_ _. False) u"
    using sound_result(1) [OF sound [OF i] _ run] step [of "fst u" "snd u" i y'] i by auto
  then show "wp (or_progress m i acc)
      (\<lambda>(p, y') u. table_inv H n u \<and> swept (fst s) y (fst u) y') (\<lambda>_ _. False) u"
    using so_far run
    by (cases u') (auto simp: or_progress_def acc wp_def and_then_def ok_def intro: swept_trans
        split: prod.splits sum.splits)
qed (use inv swept_refl in auto)

lemma fold_keeps_progress:
  "fold_each is (or_progress m) (True, y) s = (Inr (p, y'), u) \<Longrightarrow> p"
  by (induction "is" arbitrary: y s) (auto simp: ok_def or_progress_def and_then_Inr)

lemma fold_without_progress:
  assumes "fold_each is (or_progress m) (q, y) s = (Inr (False, y'), u)"
  shows "\<not> q" and "is = [] \<or> (\<exists>y1 u1. m (hd is) y s = (Inr (False, y1), u1))"
proof -
  show "\<not> q" using assms fold_keeps_progress [of "is" m y s False y' u] by auto
  then show "is = [] \<or> (\<exists>y1 u1. m (hd is) y s = (Inr (False, y1), u1))"
    using assms fold_keeps_progress [of "tl is" m _ _ False y' u]
    by (cases "is") (fastforce simp: or_progress_def and_then_Inr ok_def)+
qed

definition no_open :: "('r, 's) ResourceTable \<Rightarrow> bool" where
  "no_open t \<longleftrightarrow> list_all (\<lambda>s. \<not> is_open (slot_state s)) (slots t)"

lemma no_open_iff: "no_open t \<longleftrightarrow> (\<forall>i < length (slots t). \<not> is_open (slot_state (slots t ! i)))"
  by (simp add: no_open_def list_all_length)

lemma indices_none: "indices_where P ss = [] \<longleftrightarrow> (\<forall>i < length ss. \<not> P (slot_state (ss ! i)))"
  by (auto simp: indices_where_def filter_empty_conv)

lemma sweep_pass_swept:
  fixes t :: "('r, 's) ResourceTable" and w :: 'w
  assumes "table_ok H t"
  shows "wp (sweep_pass H reason y) (\<lambda>(p, y') (u, w'). table_ok H u \<and> swept t y u y' \<and> (\<not> p \<longrightarrow> no_open u))
     (\<lambda>_ _. False) (t, w)"
proof -
  let ?n = "length (slots t)"
  have inv: "table_inv H ?n (t, w)" using assms by (simp add: table_inv_def)
  have begins: "wp (fold_each (indices_where is_open (slots t)) (or_progress (\<lambda>i. try_begin_close H i reason)) (False, y))
      (\<lambda>(p, y') u. table_inv H ?n u \<and> swept t y (fst u) y') (\<lambda>_ _. False) (t, w)"
    using fold_swept [OF inv, of "indices_where is_open (slots t)" "\<lambda>i. try_begin_close H i reason" False y]
    by (auto intro: try_begin_close_sound indices_where_below wp_use [OF try_begin_close_swept])
  have polls: "wp (fold_each (indices_where is_closing (slots (fst s))) (or_progress (try_poll_close H)) (p, y'))
      (\<lambda>(q, y'') u. table_inv H ?n u \<and> swept (fst s) y' (fst u) y'') (\<lambda>_ _. False) s"
    if "table_inv H ?n s" and "length (slots (fst s)) = ?n" for p y' and s :: "('r, 's) ResourceTable \<times> 'w"
  proof (rule fold_swept [OF that(1)])
    show "i < ?n" if "i \<in> set (indices_where is_closing (slots (fst s)))" for i
      using indices_where_below [OF that] \<open>length (slots (fst s)) = ?n\<close> by simp
    show "wp (try_poll_close H i y) (\<lambda>(p, y') (u, w'). swept t y u y') (\<lambda>_ _. False) (t, w)"
      if "table_inv H ?n (t, w)" "i < ?n" for i y w and t :: "('r, 's) ResourceTable"
      by (rule wp_use [OF try_poll_close_swept [OF that]]) auto
  qed (rule try_poll_close_sound)
  obtain r1 s1 where run1: "fold_each (indices_where is_open (slots t))
      (or_progress (\<lambda>i. try_begin_close H i reason)) (False, y) (t, w) = (r1, s1)" by (metis surj_pair)
  then obtain p1 y1 where r1: "r1 = Inr (p1, y1)" and inv1: "table_inv H ?n s1" and swept1: "swept t y (fst s1) y1"
    using begins by (cases r1) (auto simp: wp_def)
  have len: "length (slots (fst s1)) = ?n" using swept1 by (simp add: swept_def)
  obtain r2 s2 where run2: "fold_each (indices_where is_closing (slots (fst s1)))
      (or_progress (try_poll_close H)) (p1, y1) s1 = (r2, s2)" by (metis surj_pair)
  then obtain p2 y2 where r2: "r2 = Inr (p2, y2)" and inv2: "table_inv H ?n s2" and swept2: "swept (fst s1) y1 (fst s2) y2"
    using polls [OF inv1 len, of p1 y1] by (cases r2) (auto simp: wp_def)
  have pass: "sweep_pass H reason y (t, w) = (Inr (p2, y2), s2)"
    using run1 run2 by (cases s1) (simp add: sweep_pass_def open_indices_def closing_indices_def own_def
        self_def and_then_def r1 r2 split: prod.splits)
  have "no_open t" if "\<not> p2"
  proof -
    have "\<not> p1" using fold_without_progress(1) run2 r2 that by fastforce
    then have "indices_where is_open (slots t) = [] \<or> (\<exists>y1 u1. try_begin_close H
        (hd (indices_where is_open (slots t))) reason y (t, w) = (Inr (False, y1), u1))"
      using fold_without_progress(2) [of _ "\<lambda>i. try_begin_close H i reason" False y "(t, w)" y1 s1] run1 r1 by simp
    moreover have "try_begin_close H i reason y (t, w) \<noteq> (Inr (False, y1), u1)"
        if "i \<in> set (indices_where is_open (slots t))" for i y1 u1
      using that wp_D(1) [OF try_begin_close_swept [OF inv, of i reason y], of "(False, y1)" u1]
      by (auto simp: indices_where_def)
    ultimately have "indices_where is_open (slots t) = []" using hd_in_set by blast
    then show ?thesis by (simp add: indices_none no_open_iff)
  qed
  with pass inv2 swept_trans [OF swept1 swept2] show ?thesis
    by (auto simp: wp_def table_inv_def no_open_iff swept_def split: prod.splits)
qed

lemma sweep_swept:
  assumes "table_ok H (fst s)"
  shows "\<exists>y' u. sweep H reason y s = (Inr y', u) \<and> table_ok H (fst u) \<and> swept (fst s) y (fst u) y' \<and> no_open (fst u)"
  using assms
proof (induction H reason y s rule: sweep.induct)
  case (1 H reason y s)
  obtain r s' where pass: "sweep_pass H reason y s = (r, s')" by (metis surj_pair)
  then obtain p y' where r: "r = Inr (p, y')" and ok: "table_ok H (fst s')"
    and swept: "swept (fst s) y (fst s') y'" and quiet: "\<not> p \<Longrightarrow> no_open (fst s')"
    using sweep_pass_swept [OF 1(2), of reason y "snd s"] by (cases r) (auto simp: wp_def)
  show ?case
  proof (cases p)
    case True
    then have "sweep H reason y s = sweep H reason y' s'"
      by (simp add: sweep.simps [of H reason y s] pass r)
    moreover obtain y'' u where "sweep H reason y' s' = (Inr y'', u)" "table_ok H (fst u)"
      "swept (fst s') y' (fst u) y''" "no_open (fst u)"
      using 1(1) [OF pass [symmetric] r refl True ok] by blast
    ultimately show ?thesis using swept_trans [OF swept] by auto
  next
    case False
    then have "sweep H reason y s = (Inr y', s')" by (simp add: sweep.simps [of H reason y s] pass r)
    with ok swept quiet False show ?thesis by auto
  qed
qed

text \<open>One poll of the close-all: its outcome by what is left in the table.\<close>

lemma table_is_empty_iff: "table_ok H t \<Longrightarrow> table_is_empty t \<longleftrightarrow> occupied t = {}"
  by (simp add: table_ok_def table_is_empty_def)

definition sweep_start :: "('r, 's) ResourceTable \<Rightarrow> CloseAllReport" where
  "sweep_start t = (case close_all_state t of
     None \<Rightarrow> \<lparr>closed = 0, failed = 0, first_error = None\<rparr> | Some state \<Rightarrow> totals state)"

definition sweep_conflict :: "('r, 's) ResourceTable \<Rightarrow> ResourceCloseReason \<Rightarrow> bool" where
  "sweep_conflict t reason \<longleftrightarrow> (case close_all_state t of None \<Rightarrow> False | Some state \<Rightarrow> sweep_reason state \<noteq> reason)"

lemma table_ok_simps [simp]:
  "table_ok H (t\<lparr>close_all_state := c\<rparr>) = table_ok H t"
  "table_ok H t \<Longrightarrow> table_ok H (t\<lparr>scope_states := Map.empty\<rparr>)"
  "occupied (t\<lparr>close_all_state := c\<rparr>) = occupied t"
  "occupied (t\<lparr>scope_states := m\<rparr>) = occupied t"
  "table_clock (t\<lparr>close_all_state := c\<rparr>) = table_clock t"
  "table_clock (t\<lparr>scope_states := m\<rparr>) = table_clock t"
  "no_open (t\<lparr>close_all_state := c\<rparr>) = no_open t"
  "names_resource (t\<lparr>close_all_state := c\<rparr>) h = names_resource t h"
  "names_resource (t\<lparr>scope_states := m\<rparr>) h = names_resource t h"
  "table_is_empty (t\<lparr>close_all_state := c\<rparr>) = table_is_empty t"
  by (auto simp: table_ok_def reusable_def occupied_def table_clock_def no_open_def table_is_empty_def names_resource_def)

lemma poll_close_all_report_eq:
  assumes "table_ok H t" and "\<not> sweep_conflict t reason"
  obtains y u w' where
    "sweep H reason (sweep_start t)
       (t\<lparr>close_all_state := Some \<lparr>sweep_reason = reason, totals = sweep_start t\<rparr>\<rparr>, w) = (Inr y, (u, w'))"
    "table_ok H u" "swept t (sweep_start t) (u\<lparr>close_all_state := close_all_state t\<rparr>) y" "no_open u"
    "poll_close_all_report H reason (t, w) =
       (if occupied u = {} then (Inr (Ready y), (u\<lparr>close_all_state := None, scope_states := Map.empty\<rparr>, w'))
        else (Inr Pending, (u\<lparr>close_all_state := Some \<lparr>sweep_reason = reason, totals = y\<rparr>\<rparr>, w')))"
proof -
  let ?t = "t\<lparr>close_all_state := Some \<lparr>sweep_reason = reason, totals = sweep_start t\<rparr>\<rparr>"
  obtain y u w' where run: "sweep H reason (sweep_start t) (?t, w) = (Inr y, (u, w'))"
    and u: "table_ok H u" "swept ?t (sweep_start t) u y" "no_open u"
    using sweep_swept [of H "(?t, w)" reason "sweep_start t"] assms(1) by auto
  have state: "close_all_state u = Some \<lparr>sweep_reason = reason, totals = sweep_start t\<rparr>"
    using u(2) by (simp add: swept_def)
  have same: "?t = t" if "close_all_state t = Some state" for state
    using that assms(2) by (cases t, cases state) (simp add: sweep_start_def sweep_conflict_def)
  show thesis
  proof (rule that [OF run u(1)])
    show "swept t (sweep_start t) (u\<lparr>close_all_state := close_all_state t\<rparr>) y"
      using u(2) by (simp add: swept_def)
    show "poll_close_all_report H reason (t, w) =
       (if occupied u = {} then (Inr (Ready y), (u\<lparr>close_all_state := None, scope_states := Map.empty\<rparr>, w'))
        else (Inr Pending, (u\<lparr>close_all_state := Some \<lparr>sweep_reason = reason, totals = y\<rparr>\<rparr>, w')))"
    proof (cases "close_all_state t")
      case None
      then show ?thesis
        using run state table_is_empty_iff [OF u(1)]
        by (simp add: poll_close_all_report_def meth_defs own_def set_own_def expect_def
            clear_scope_states_def sweep_start_def)
    next
      case (Some a)
      then have "sweep_reason a = reason" "totals a = sweep_start t"
        using assms(2) by (simp_all add: sweep_start_def sweep_conflict_def)
      with Some show ?thesis
        using run [unfolded same [OF Some]] state table_is_empty_iff [OF u(1)]
        by (simp add: poll_close_all_report_def meth_defs own_def set_own_def expect_def
            clear_scope_states_def)
    qed
  qed fact
qed

lemma sound_set_own:
  "(\<And>t. table_ok H t \<Longrightarrow> table_ok H (f t) \<and> length (slots (f t)) = length (slots t) \<and>
     ages arena_id table_clock t (f t)) \<Longrightarrow> sound (table_inv H n) table_ages (set_own f)"
  unfolding set_own_def by (auto simp: sound_def wp_update table_inv_def table_ages_def)

lemma set_close_all_sound: "sound (table_inv H n) table_ages (set_own (\<lambda>t. t\<lparr>close_all_state := f t\<rparr>))"
  by (rule sound_set_own) (simp add: ages_def)

lemma poll_close_all_report_sound: "sound (table_inv H n) table_ages (poll_close_all_report H reason)"
proof (rule soundI)
  fix s assume inv: "table_inv H n s"
  obtain t w where s: "s = (t, w)" by fastforce
  show "wp (poll_close_all_report H reason) (\<lambda>_ u. table_inv H n u \<and> table_ages s u)
      (\<lambda>e u. e \<noteq> Panicked \<and> table_inv H n u \<and> table_ages s u) s"
  proof (cases "sweep_conflict t reason")
    case True
    with inv show ?thesis
      by (auto simp: poll_close_all_report_def s wp_simps sweep_conflict_def table_frame.relates_refl
          split: option.splits)
  next
    case False
    let ?t = "t\<lparr>close_all_state := Some \<lparr>sweep_reason = reason, totals = sweep_start t\<rparr>\<rparr>"
    have "table_ok H t" using inv by (simp add: table_inv_def s)
    then obtain y u w' where run: "sweep H reason (sweep_start t) (?t, w) = (Inr y, (u, w'))"
      and result: "poll_close_all_report H reason (t, w) =
       (if occupied u = {} then (Inr (Ready y), (u\<lparr>close_all_state := None, scope_states := Map.empty\<rparr>, w'))
        else (Inr Pending, (u\<lparr>close_all_state := Some \<lparr>sweep_reason = reason, totals = y\<rparr>\<rparr>, w')))"
      using False by (rule poll_close_all_report_eq)
    have "table_inv H n (?t, w)" using inv by (simp add: table_inv_def s)
    from sound_result [OF sweep_sound this run] show ?thesis
      by (simp add: wp_def s result table_inv_def table_ages_def ages_def)
  qed
qed

lemma poll_close_all_sound: "sound (table_inv H n) table_ages (poll_close_all H reason)"
  unfolding poll_close_all_def
  by (auto intro!: table_frame.sound_and_then poll_close_all_report_sound table_frame.sound_ok
      table_frame.sound_throw split: Poll.splits option.splits)

lemma close_all_sound: "sound (table_inv H n) table_ages (close_all H reason)"
  unfolding close_all_def
  by (auto intro!: table_frame.sound_and_then poll_close_all_sound table_frame.sound_ok
      table_frame.sound_throw split: Poll.splits)

lemma drop_table_sound: "sound (table_inv H n) table_ages (drop_table H)"
  unfolding drop_table_def by (intro table_frame.sound_intros close_all_sound)

lemma begin_close_remaining_for_drop_calm:
  "sound (table_inv H n) table_calm (begin_close_remaining_for_drop H reason)"
  unfolding begin_close_remaining_for_drop_def live_indices_def
  by (intro sound_indices calm.sound_and_then calm.sound_fold_each begin_drop_close_calm)
     (auto intro: calm.sound_ok calm.sound_throw split: option.splits)

lemmas begin_close_remaining_for_drop_sound = begin_close_remaining_for_drop_calm [THEN calm_sound]

lemma scope_state_methods_calm:
  fixes H :: "('r, 'w) HostResource" and init :: 's
  shows "sound (table_inv H n) table_calm (scope_state_or_insert_with tid init f :: ('r, 's, 'w, 's) TableMethod)"
    and "sound (table_inv H n) table_calm (scope_state tid :: ('r, 's, 'w, 's option) TableMethod)"
    and "sound (table_inv H n) table_calm (scope_state_mut tid f :: ('r, 's, 'w, 's option) TableMethod)"
    and "sound (table_inv H n) table_calm (take_scope_state tid :: ('r, 's, 'w, 's option) TableMethod)"
proof -
  have put: "table_ok H (t\<lparr>scope_states := (scope_states t)(k := entry)\<rparr>)"
    if "table_ok H t" "\<And>b. entry = Some b \<Longrightarrow> state_type b = k" for k entry and t :: "('r, 's) ResourceTable"
    using that by (auto simp: table_ok_def reusable_def occupied_def)
  have typed: "state_type b = tid" if "table_ok H t" "scope_states t tid = Some b" for b and t :: "('r, 's) ResourceTable"
    using that by (simp add: table_ok_def)
  note defs = sound_def table_inv_def table_calm_def table_ages_def ages_def wp_simps put_scope_state_def downcast_state_def
  show "sound (table_inv H n) table_calm (scope_state_or_insert_with tid init f)"
    by (auto simp: defs scope_state_or_insert_with_def Let_def intro!: put dest: typed split: option.splits)
  show "sound (table_inv H n) table_calm (scope_state tid)"
    by (auto simp: defs scope_state_def)
  show "sound (table_inv H n) table_calm (scope_state_mut tid f)"
    by (auto simp: defs scope_state_mut_def intro!: put dest: typed split: option.splits)
  show "sound (table_inv H n) table_calm (take_scope_state tid :: ('r, 's, 'w, 's option) TableMethod)"
    by (auto simp: defs take_scope_state_def intro!: put)
qed

lemmas scope_state_methods_sound = scope_state_methods_calm [THEN calm_sound]

end
