(* ===== verification/Snapshots.thy ===== *)
theory Snapshots
  imports ResourceProps
begin

text \<open>
  Rolling back to a snapshot of the table: the handles a snapshot lists, and what closing the
  resources that were added since does to each slot.
\<close>

section \<open>Snapshots\<close>

definition slot_handle :: "('r, 's) ResourceTable \<Rightarrow> nat \<Rightarrow> ResourceHandle" where
  "slot_handle t i = the (handle_encode (arena_id t) i (ucast (generation (slots t ! i))))"

lemma handle_at_valid:
  assumes "table_ok H t" and "i < length (slots t)"
  shows "handle_at i (t, w) = (Inr (Some (slot_handle t i)), (t, w))" and "handle_valid (slot_handle t i)"
    and "handle_arena_id (slot_handle t i) = arena_id t" and "handle_slot (slot_handle t i) = i"
    and "unat (handle_generation (slot_handle t i)) = unat (generation (slots t ! i))"
proof -
  obtain h where h: "handle_encode (arena_id t) i (ucast (generation (slots t ! i))) = Some h" "handle_valid h"
    "handle_arena_id h = arena_id t" "handle_slot h = i" "handle_generation h = ucast (generation (slots t ! i))"
    by (rule handle.encodable [of "arena_id t" i "ucast (generation (slots t ! i))"])
       (use assms slot_ok_nth [OF assms] in \<open>auto simp: table_ok_def slot_ok_def\<close>)
  then have "slot_handle t i = h" by (simp add: slot_handle_def)
  with h assms(2) show "handle_at i (t, w) = (Inr (Some (slot_handle t i)), (t, w))"
    and "handle_valid (slot_handle t i)"
    and "handle_arena_id (slot_handle t i) = arena_id t" and "handle_slot (slot_handle t i) = i"
    and "unat (handle_generation (slot_handle t i)) = unat (generation (slots t ! i))"
    by (simp_all add: handle_at_def slot_at_def meth_defs own_def expect_def vec_get_def)
qed

lemma live_handles_eq:
  assumes "table_ok H t"
  shows "live_handles (t, w) = (Inr {h. handle_valid h \<and> names_resource t h}, (t, w))"
proof -
  let ?is = "indices_where (\<lambda>st. \<not> is_vacant st) (slots t)" let ?f = "slot_handle t"
  note f = handle_at_valid [OF assms]
  have collected: "collect_each xs (\<lambda>index. and_then (handle_at index) (\<lambda>h. ok_or h e)) (t, w) =
      (Inr (map ?f xs), (t, w))" if "set xs \<subseteq> {i. i < length (slots t)}" for xs e
    using that by (induction xs) (auto simp: meth_defs f(1))
  have is_occ: "set ?is = occupied t" by (simp add: occupied_def)
  have "?f ` occupied t = {h. handle_valid h \<and> names_resource t h}"
  proof (intro set_eqI iffI)
    fix h assume "h \<in> {h. handle_valid h \<and> names_resource t h}"
    then have h: "handle_valid h" "handle_slot h \<in> occupied t" "handle_arena_id h = arena_id t"
      "unat (handle_generation h) = unat (generation (slots t ! handle_slot h))"
      by (simp_all add: names_resource_def)
    then have "?f (handle_slot h) = h"
      using f [of "handle_slot h"] by (auto intro!: handle.valid_eqI simp: word_unat_eq_iff)
    with h(2) show "h \<in> ?f ` occupied t" by (metis imageI)
  qed (use f in \<open>auto simp: names_resource_def\<close>)
  then show ?thesis
    using collected [of ?is] is_occ
    by (simp add: live_handles_def live_indices_def own_def self_def and_then_apply ok_def subset_iff
        del: is_vacant_iff)
qed

text \<open>Closing what was added leaves every occupant of the snapshot alone.\<close>

definition untouched :: "ResourceHandle set \<Rightarrow> ('r, 's) ResourceTable \<Rightarrow> ('r, 's) ResourceTable \<Rightarrow> bool" where
  "untouched before t u \<longleftrightarrow>
     (\<forall>h \<in> before. handle_valid h \<longrightarrow> names_resource t h \<longrightarrow>
        names_resource u h \<and> slots u ! handle_slot h = slots t ! handle_slot h)"

lemma slot_move_elsewhere: "slot_move i t u \<Longrightarrow> j \<noteq> i \<Longrightarrow> slots u ! j = slots t ! j"
  by (cases rule: slot_move.cases) (auto simp: with_state_def vacate_simps)

lemma slot_move_untouched:
  assumes "slot_move i t u" and "table_ok H t" and "i < length (slots t)" and "slot_handle t i \<notin> before"
  shows "untouched before t u"
  unfolding untouched_def
proof (intro ballI impI)
  fix h assume h: "h \<in> before" "handle_valid h" "names_resource t h"
  have "handle_slot h \<noteq> i"
  proof
    assume "handle_slot h = i"
    then have "h = slot_handle t i"
      using h(2,3) handle_at_valid [OF assms(2,3)]
      by (auto intro!: handle.valid_eqI simp: names_resource_def word_unat_eq_iff)
    with h(1) assms(4) show False by simp
  qed
  moreover have "ages arena_id table_clock t u" "length (slots u) = length (slots t)"
    using slot_move_ok [OF assms(1,2)] by auto
  ultimately show "names_resource u h \<and> slots u ! handle_slot h = slots t ! handle_slot h"
    using h(3) slot_move_elsewhere [OF assms(1)] by (auto simp: names_resource_def ages_def)
qed

lemma untouched_trans: "untouched before t u \<Longrightarrow> untouched before u v \<Longrightarrow> untouched before t v"
  by (auto simp: untouched_def)

lemma wp_conj:
  "wp m Q E s \<Longrightarrow> wp m Q' E' s \<Longrightarrow> wp m (\<lambda>x t. Q x t \<and> Q' x t) (\<lambda>e t. E e t \<and> E' e t) s"
  by (auto simp: wp_def split: prod.splits sum.splits)

lemma try_begin_close_moves:
  assumes "table_inv H n (t, w)" and "i < n"
  shows "wp (try_begin_close H i reason y) (\<lambda>_ (u, w'). slot_move i t u) (\<lambda>_ _. False) (t, w)"
  using wp_conj [OF wp_try_begin_close [of H i reason y t w] try_begin_close_swept [OF assms, of reason y]]
  by (rule wp_use) auto

lemma try_poll_close_moves:
  assumes "table_inv H n (t, w)" and "i < n"
  shows "wp (try_poll_close H i y) (\<lambda>_ (u, w'). slot_move i t u) (\<lambda>_ _. False) (t, w)"
  using wp_conj [OF wp_try_poll_close [of H i y t w] try_poll_close_swept [OF assms, of y]]
  by (rule wp_use) auto

lemma slot_move_handle: "slot_move i t u \<Longrightarrow> i < length (slots t) \<Longrightarrow> slot_handle u i = slot_handle t i"
  by (cases rule: slot_move.cases) (auto simp: slot_handle_def vacate_simps)

text \<open>
  Between two points of a rollback that has visited the slots \<open>I\<close>: no handle has changed its slot, no
  resource is new, none is open again, and one that is still open in a visited slot belongs to the
  snapshot.
\<close>

definition asked ::
  "ResourceHandle set \<Rightarrow> nat set \<Rightarrow> ('r, 's) ResourceTable \<Rightarrow> ('r, 's) ResourceTable \<Rightarrow> bool" where
  "asked before I t u \<longleftrightarrow> length (slots u) = length (slots t) \<and>
     (\<forall>j < length (slots t). slot_handle u j = slot_handle t j \<and>
        (is_open (slot_state (slots u ! j)) \<longrightarrow>
           is_open (slot_state (slots t ! j)) \<and> (j \<in> I \<longrightarrow> slot_handle t j \<in> before))) \<and>
     (\<forall>h. names_resource u h \<longrightarrow> names_resource t h)"

lemma asked_refl: "asked before {} t t"
  by (simp add: asked_def)

lemma asked_trans: "asked before I t u \<Longrightarrow> asked before J u v \<Longrightarrow> asked before (I \<union> J) t v"
  by (auto simp: asked_def)

lemma swept_asked:
  assumes "swept t y u y'" and "slot_move i t u" and "i < length (slots t)"
  shows "asked before {} t u"
proof -
  have "slot_handle u j = slot_handle t j" for j
  proof (cases "j = i")
    case True
    then show ?thesis using slot_move_handle [OF assms(2,3)] by simp
  next
    case False
    have "arena_id u = arena_id t" using assms(2,3) by cases (simp_all add: vacate_simps)
    then show ?thesis using slot_move_elsewhere [OF assms(2) False] by (simp add: slot_handle_def)
  qed
  then show ?thesis using assms(1) by (simp add: asked_def swept_def)
qed

lemma asked_visit: "asked before {} t u \<Longrightarrow> \<not> is_open (slot_state (slots u ! i)) \<Longrightarrow> asked before {i} t u"
  by (auto simp: asked_def)

lemma try_begin_close_asks:
  assumes "table_inv H n (t, w)" and "i < n"
  shows "wp (try_begin_close H i reason y) (\<lambda>_ (u, w'). slot_move i t u \<and> asked before {i} t u) (\<lambda>_ _. False) (t, w)"
proof -
  have i: "i < length (slots t)" using assms by (simp add: table_inv_def)
  have shut: "wp (try_begin_close H i reason y) (\<lambda>_ (u, w'). \<not> is_open (slot_state (slots u ! i))) (\<lambda>_ _. True) (t, w)"
    using assms i by (auto simp: try_begin_close_def resource_begin_close_def wp_simps vacate_simps
        split: SlotState.splits sum.splits CloseProgress.splits prod.splits)
  show ?thesis
    by (rule wp_use [OF wp_conj [OF shut wp_conj [OF try_begin_close_moves [OF assms, of reason y]
          try_begin_close_swept [OF assms, of reason y]]]])
       (auto intro: asked_visit swept_asked [OF _ _ i])
qed

lemma try_poll_close_asks:
  assumes "table_inv H n (t, w)" and "i < n"
  shows "wp (try_poll_close H i y) (\<lambda>_ (u, w'). slot_move i t u \<and> asked before {} t u) (\<lambda>_ _. False) (t, w)"
proof -
  have i: "i < length (slots t)" using assms by (simp add: table_inv_def)
  show ?thesis
    by (rule wp_use [OF wp_conj [OF try_poll_close_moves [OF assms, of y] try_poll_close_swept [OF assms, of y]]])
       (auto intro: swept_asked [OF _ _ i])
qed

definition rolled_back ::
  "('r, 'w) HostResource \<Rightarrow> ResourceHandle set \<Rightarrow> nat \<Rightarrow> nat set \<Rightarrow> ('r, 's) ResourceTable \<times> 'w \<Rightarrow>
     ('r, 's) ResourceTable \<times> 'w \<Rightarrow> bool" where
  "rolled_back H before n I s u \<longleftrightarrow> table_inv H n u \<and> table_ages s u \<and> untouched before (fst s) (fst u) \<and>
     asked before I (fst s) (fst u)"

lemma rolled_back_trans:
  "rolled_back H before n I s u \<Longrightarrow> rolled_back H before n J u v \<Longrightarrow> rolled_back H before n (I \<union> J) s v"
  unfolding rolled_back_def
  by (meson asked_trans table_frame.relates_trans untouched_trans)

lemma close_added_rolls_back:
  assumes "table_inv H n (t, w)" and "i < n"
  shows "wp (close_added H before i y) (\<lambda>_. rolled_back H before n {i} (t, w)) (\<lambda>_ _. False) (t, w)"
proof (cases "slot_handle t i \<in> before")
  case True
  have "table_ok H t" "i < length (slots t)" using assms by (simp_all add: table_inv_def)
  with True assms show ?thesis
    by (simp add: close_added_def wp_def and_then_apply handle_at_valid(1) expect_def ok_or_def ok_def
        table_frame.relates_refl untouched_def rolled_back_def asked_def)
next
  case False
  have ok: "table_ok H t" and i: "i < length (slots t)" using assms by (simp_all add: table_inv_def)
  have one: "rolled_back H before n I (t', w1) (u, w2)"
    if "slot_move i t' u" "asked before I t' u" "table_inv H n (t', w1)" "slot_handle t' i = slot_handle t i"
    for I t' u w1 w2
    using that(2,4) slot_move_keeps [OF that(1,3), of w2] slot_move_untouched [OF that(1), of H before] that(3) assms(2) False
    by (auto simp: rolled_back_def table_inv_def dest: calm_ages)
  have second: "wp (try_poll_close H i y') (\<lambda>_. rolled_back H before n {i} (t, w)) (\<lambda>_ _. False) (u, w')"
    if u: "slot_move i t u" "asked before {i} t u" for u y' w'
  proof -
    have first: "rolled_back H before n {i} (t, w) (u, w')" by (rule one [OF u assms(1) refl])
    then have "table_inv H n (u, w')" by (simp add: rolled_back_def)
    moreover have "slot_handle u i = slot_handle t i" using u(2) i by (simp add: asked_def)
    ultimately show ?thesis
      using rolled_back_trans [OF first, of "{}"] one [of u]
      by (intro wp_use [OF try_poll_close_asks [where before = before]]) (use assms(2) in auto)
  qed
  show ?thesis
    unfolding close_added_def wp_and_then
    using ok i False
    by (simp add: wp_def [of "handle_at i"] handle_at_valid(1) wp_simps)
       (auto simp: wp_simps intro!: wp_use [OF try_begin_close_asks [OF assms, where before = before]] wp_use [OF second])
qed

lemma close_added_fold:
  "table_inv H n s \<Longrightarrow> (\<And>i. i \<in> set is \<Longrightarrow> i < n) \<Longrightarrow>
   wp (fold_each is (close_added H before) y) (\<lambda>_. rolled_back H before n (set is) s) (\<lambda>_ _. False) s"
proof (induction "is" arbitrary: s y)
  case Nil
  then show ?case by (simp add: wp_ok rolled_back_def table_frame.relates_refl untouched_def asked_refl)
next
  case (Cons i "is")
  have rest: "wp (fold_each is (close_added H before) y') (\<lambda>_. rolled_back H before n (set (i # is)) s) (\<lambda>_ _. False) u"
    if "rolled_back H before n {i} s u" for y' u
  proof -
    have "table_inv H n u" using that by (simp add: rolled_back_def)
    then show ?thesis
      by (rule wp_use [OF Cons.IH]) (use Cons.prems(2) rolled_back_trans [OF that, of "set is"] in auto)
  qed
  show ?case
    unfolding fold_each.simps wp_and_then
    by (rule wp_use [OF close_added_rolls_back [of H n "fst s" "snd s" i before y, simplified]])
       (use Cons.prems in \<open>auto intro: rest [simplified]\<close>)
qed

text \<open>The whole of one call: it always answers, and what it answers is decided by what is left.\<close>

definition rollback_answer ::
  "ResourceHandle set \<Rightarrow> ResourceError option \<Rightarrow> ('r, 's) ResourceTable \<Rightarrow> (ResourceError + unit) Poll \<Rightarrow>
     ResourceError option \<Rightarrow> bool" where
  "rollback_answer before e u result e' \<longleftrightarrow> (e \<noteq> None \<longrightarrow> e' = e) \<and>
     result = (if {h. handle_valid h \<and> names_resource u h} \<subseteq> before
       then Ready (case e' of None \<Rightarrow> Inr () | Some error \<Rightarrow> Inl error) else Pending)"

lemma poll_close_added_spec:
  assumes "table_ok H t"
  shows "wp (poll_close_added H before e) (\<lambda>(result, e') (u, w'). table_ok H u \<and>
      ages arena_id table_clock t u \<and> untouched before t u \<and>
      asked before (occupied t) t u \<and> rollback_answer before e u result e') (\<lambda>_ _. False) (t, w)"
proof -
  let ?n = "length (slots t)" and ?is = "indices_where (\<lambda>st. \<not> is_vacant st) (slots t)"
  have inv: "table_inv H ?n (t, w)" using assms by (simp add: table_inv_def)
  have loop: "wp (fold_each ?is (close_added H before) y) (\<lambda>_. rolled_back H before ?n (occupied t) (t, w)) (\<lambda>_ _. False) (t, w)" for y
    using close_added_fold [OF inv, of ?is before y] by (auto simp: occupied_def dest: indices_where_below)
  show ?thesis
    unfolding poll_close_added_def live_indices_def wp_and_then wp_own
    by (rule wp_use [OF loop])
       (auto simp: Let_def wp_and_then wp_def [of live_handles] live_handles_eq table_inv_def table_ages_def wp_simps
         rolled_back_def rollback_answer_def get_or_insert_def split: option.splits)
qed

end
