(* ===== verification/CloseLog.thy ===== *)
theory CloseLog
  imports ResourceProps
begin

text \<open>
  The failures a sweep reports, against what the resources answered. A host is run beside a copy of
  itself that writes every refusal of its close code into a log; the two runs agree in everything
  else, and the totals of the sweep are those of the log.
\<close>

section \<open>A host that keeps a log\<close>

definition refusals :: "'e + 'a \<Rightarrow> 'e list" where
  "refusals answer = (case answer of Inl e \<Rightarrow> [e] | Inr _ \<Rightarrow> [])"

definition logging :: "('r, 'w) HostResource \<Rightarrow> ('r, 'w \<times> ResourceError list) HostResource" where
  "logging H = \<lparr>resource_type_key_fn = resource_type_key_fn H,
     begin_close_fn = (\<lambda>tid reason r (w, journal). case begin_close_fn H tid reason r w of
       (answer, r', w') \<Rightarrow> (answer, r', (w', journal @ refusals answer))),
     poll_close_fn = (\<lambda>tid r (w, journal). case poll_close_fn H tid r w of
       (answer, r', w') \<Rightarrow> (answer, r', (w', journal @ (case answer of Pending \<Rightarrow> [] | Ready x \<Rightarrow> refusals x))))\<rparr>"

text \<open>The totals \<open>y'\<close> are the totals \<open>y\<close> with the errors \<open>es\<close> counted, the first of all kept.\<close>

definition tally :: "CloseAllReport \<Rightarrow> ResourceError list \<Rightarrow> CloseAllReport \<Rightarrow> bool" where
  "tally y es y' \<longleftrightarrow> failed y' = failed y + length es \<and>
     first_error y' = (case first_error y of
         Some e \<Rightarrow> Some e
       | None \<Rightarrow> (case es of [] \<Rightarrow> None | e # _ \<Rightarrow> Some e))"

text \<open>The second method is the first one, except that it logs; the result stands in \<open>Q\<close> to what it logs.\<close>

definition mirrors ::
  "(ResourceError list \<Rightarrow> 'a \<Rightarrow> bool) \<Rightarrow> ('r, 's, 'w, 'a) TableMethod \<Rightarrow>
     ('r, 's, 'w \<times> ResourceError list, 'a) TableMethod \<Rightarrow> bool" where
  "mirrors Q m n \<longleftrightarrow> (\<forall>t w journal. case m (t, w) of (x, (u, w')) \<Rightarrow>
     \<exists>es. n (t, (w, journal)) = (x, (u, (w', journal @ es))) \<and> (\<forall>a. x = Inr a \<longrightarrow> Q es a))"

section \<open>The two runs agree\<close>

lemma tally_refl: "tally y [] y"
  by (simp add: tally_def split: option.splits)

lemma tally_trans: "tally y es z \<Longrightarrow> tally z fs x \<Longrightarrow> tally y (es @ fs) x"
  by (auto simp: tally_def split: option.splits list.splits)

lemma tally_counts [simp]:
  "tally y [] (count_closed y)" "tally y [e] (count_failed e (count_closed y))"
  by (simp_all add: tally_def count_closed_def count_failed_def get_or_insert_def split: option.splits)

lemma mirrorsD:
  assumes "mirrors Q m n" and "m (t, w) = (x, (u, w'))"
  obtains es where "n (t, (w, journal)) = (x, (u, (w', journal @ es)))" "\<And>a. x = Inr a \<Longrightarrow> Q es a"
proof -
  have "case m (t, w) of (x, (u, w')) \<Rightarrow>
      \<exists>es. n (t, (w, journal)) = (x, (u, (w', journal @ es))) \<and> (\<forall>a. x = Inr a \<longrightarrow> Q es a)"
    using assms(1) [unfolded mirrors_def, THEN spec, THEN spec, THEN spec] .
  then show thesis using that by (auto simp: assms(2))
qed

lemma mirrors_and_then:
  assumes m: "mirrors Q m n" and f: "\<And>es a. Q es a \<Longrightarrow> mirrors (\<lambda>fs. R (es @ fs)) (f a) (g a)"
  shows "mirrors R (and_then m f) (and_then n g)"
  unfolding mirrors_def
proof (intro allI)
  fix t w journal
  obtain x u w' where run: "m (t, w) = (x, (u, w'))" by (metis surj_pair)
  obtain es where log: "n (t, (w, journal)) = (x, (u, (w', journal @ es)))" and Q: "\<And>a. x = Inr a \<Longrightarrow> Q es a"
    by (rule mirrorsD [OF m run, where journal = journal]) blast
  show "case and_then m f (t, w) of (x, (u, w')) \<Rightarrow>
      \<exists>es. and_then n g (t, (w, journal)) = (x, (u, (w', journal @ es))) \<and> (\<forall>a. x = Inr a \<longrightarrow> R es a)"
  proof (cases x)
    case (Inl e)
    then show ?thesis by (simp add: and_then_apply run log)
  next
    case (Inr a)
    obtain x' v w'' where run': "f a (u, w') = (x', (v, w''))" by (metis surj_pair)
    obtain fs where "g a (u, (w', journal @ es)) = (x', (v, (w'', (journal @ es) @ fs)))" "\<And>b. x' = Inr b \<Longrightarrow> R (es @ fs) b"
      by (rule mirrorsD [OF f [OF Q [OF Inr]] run', where journal = "journal @ es"]) blast
    then show ?thesis by (auto simp: and_then_apply run log Inr run' intro!: exI [of _ "es @ fs"])
  qed
qed

lemma mirrors_ok: "Q [] x \<Longrightarrow> mirrors Q (ok x) (ok x)"
  by (auto simp: mirrors_def ok_def intro!: exI [of _ "[]"])

lemma mirrors_own: "(\<And>x. Q [] x) \<Longrightarrow> mirrors Q (own f) (own f)"
  by (auto simp: mirrors_def own_def self_def intro!: exI [of _ "[]"])

lemma mirrors_fold_each:
  assumes "\<And>i y. mirrors (\<lambda>es (p, y'). tally (snd y) es y') (f i y) (g i y)"
  shows "mirrors (\<lambda>es (p, y'). tally (snd y) es y') (fold_each is f y) (fold_each is g y)"
proof (induction "is" arbitrary: y)
  case Nil
  then show ?case by (cases y) (auto intro!: mirrors_ok tally_refl)
next
  case (Cons i "is")
  have step: "mirrors (\<lambda>fs (p, y'). tally (snd y) (es @ fs) y') (fold_each is f z) (fold_each is g z)"
    if "tally (snd y) es (snd z)" for es z
    using Cons.IH [of z] that unfolding mirrors_def by (fastforce intro: tally_trans split: prod.splits)
  show ?case unfolding fold_each.simps
    by (rule mirrors_and_then [OF assms]) (use step in auto)
qed

lemma logging_simps [simp]:
  "resource_type_key_fn (logging H) = resource_type_key_fn H"
  "begin_close_fn (logging H) tid reason r (w, journal) = (case begin_close_fn H tid reason r w of
     (answer, r', w') \<Rightarrow> (answer, r', (w', journal @ refusals answer)))"
  "poll_close_fn (logging H) tid r (w, journal) = (case poll_close_fn H tid r w of
     (answer, r', w') \<Rightarrow> (answer, r', (w', journal @ (case answer of Pending \<Rightarrow> [] | Ready x \<Rightarrow> refusals x))))"
  by (simp_all add: logging_def)

lemma table_ok_logging [simp]: "table_ok (logging H) t = table_ok H t"
  by (simp add: table_ok_def slot_ok_def)

lemma mirrors_slot_state:
  "mirrors (\<lambda>es _. es = []) (replace_slot_state i st) (replace_slot_state i st)"
  "mirrors (\<lambda>es _. es = []) (put_slot_state i st) (put_slot_state i st)"
  "mirrors (\<lambda>es _. es = []) (reclaim i) (reclaim i)"
  by (auto simp: mirrors_def replace_slot_state_def put_slot_state_def reclaim_def slot_at_def set_slot_def meth_defs own_def
      set_own_def expect_def split: option.splits prod.splits sum.splits)

lemma mirrors_close_calls:
  "mirrors (\<lambda>es (answer, _). es = refusals answer) (resource_begin_close H reason b) (resource_begin_close (logging H) reason b)"
  "mirrors (\<lambda>es (answer, _). es = (case answer of Pending \<Rightarrow> [] | Ready x \<Rightarrow> refusals x))
     (resource_poll_close H b) (resource_poll_close (logging H) b)"
  by (auto simp: mirrors_def resource_begin_close_def resource_poll_close_def outside_def split: prod.splits)

lemma mirrors_then_ok: "mirrors (\<lambda>es _. es = []) m n \<Longrightarrow> Q [] x \<Longrightarrow> mirrors Q (then_do m (ok x)) (then_do n (ok x))"
  unfolding then_do_def by (erule mirrors_and_then) (auto intro: mirrors_ok)

lemma try_begin_close_mirrors:
  "mirrors (\<lambda>es (p, y'). tally y es y') (try_begin_close H i reason y) (try_begin_close (logging H) i reason y)"
  unfolding try_begin_close_def
  by (rule mirrors_and_then [OF mirrors_slot_state(1)])
     (auto intro!: mirrors_and_then [OF mirrors_close_calls(1)] mirrors_then_ok mirrors_slot_state tally_refl
       simp: refusals_def split: SlotState.splits sum.splits CloseProgress.splits)

lemma try_poll_close_mirrors:
  "mirrors (\<lambda>es (p, y'). tally y es y') (try_poll_close H i y) (try_poll_close (logging H) i y)"
  unfolding try_poll_close_def
  by (rule mirrors_and_then [OF mirrors_slot_state(1)])
     (auto intro!: mirrors_and_then [OF mirrors_close_calls(2)] mirrors_then_ok mirrors_slot_state tally_refl
       simp: refusals_def split: SlotState.splits sum.splits Poll.splits)

lemma or_progress_mirrors:
  assumes "\<And>i y. mirrors (\<lambda>es (p, y'). tally y es y') (m i y) (n i y)"
  shows "mirrors (\<lambda>es (p, y'). tally (snd acc) es y') (or_progress m i acc) (or_progress n i acc)"
  unfolding or_progress_def
  by (cases acc) (auto intro!: mirrors_and_then [OF assms] mirrors_ok)

lemma mirrors_mono: "mirrors Q m n \<Longrightarrow> (\<And>es a. Q es a \<Longrightarrow> R es a) \<Longrightarrow> mirrors R m n"
  unfolding mirrors_def by (fastforce split: prod.splits)

lemma sweep_pass_mirrors:
  "mirrors (\<lambda>es (p, y'). tally y es y') (sweep_pass H reason y) (sweep_pass (logging H) reason y)"
proof -
  note folds = mirrors_fold_each [OF or_progress_mirrors [OF try_begin_close_mirrors]]
    mirrors_fold_each [OF or_progress_mirrors [OF try_poll_close_mirrors]]
  have indices: "mirrors (\<lambda>es _. es = []) open_indices open_indices" "mirrors (\<lambda>es _. es = []) closing_indices closing_indices"
    by (auto simp: open_indices_def closing_indices_def intro: mirrors_own)
  have last: "mirrors (\<lambda>fs (p, y'). tally y (es @ fs) y') (fold_each is (or_progress (try_poll_close H)) acc)
      (fold_each is (or_progress (try_poll_close (logging H))) acc)" if "tally y es (snd acc)" for es "is" acc
    by (rule mirrors_mono [OF folds(2)]) (use that in \<open>auto intro: tally_trans\<close>)
  show ?thesis
    unfolding sweep_pass_def
    by (rule mirrors_and_then [OF indices(1)], simp, rule mirrors_and_then [OF folds(1)],
        rule mirrors_and_then [OF indices(2)], simp, rule last) auto
qed

lemma sweep_mirrors: "mirrors (tally y) (sweep H reason y) (sweep (logging H) reason y)"
proof -
  have "\<exists>es. sweep (logging H) reason y (fst s, (snd s, journal)) =
        (fst (sweep H reason y s), (fst (snd (sweep H reason y s)), (snd (snd (sweep H reason y s)), journal @ es))) \<and>
      (\<forall>a. fst (sweep H reason y s) = Inr a \<longrightarrow> tally y es a)" for s journal
  proof (induction H reason y s arbitrary: journal rule: sweep.induct)
    case (1 H reason y s)
    obtain x u w where pass: "sweep_pass H reason y s = (x, (u, w))" by (metis surj_pair)
    then obtain es where log: "sweep_pass (logging H) reason y (fst s, (snd s, journal)) = (x, (u, (w, journal @ es)))"
      and first: "\<And>a. x = Inr a \<Longrightarrow> case a of (p, y') \<Rightarrow> tally y es y'"
      using mirrorsD [OF sweep_pass_mirrors, of H reason y "fst s" "snd s" x u w journal] by auto
    show ?case
    proof (cases "\<exists>y'. x = Inr (True, y')")
      case True
      then obtain y' where x: "x = Inr (True, y')" by blast
      note more = sweep.simps [of H reason y s] sweep.simps [of "logging H" reason y "(fst s, (snd s, journal))"]
      obtain fs where "sweep (logging H) reason y' (u, (w, (journal @ es))) =
          (fst (sweep H reason y' (u, w)), (fst (snd (sweep H reason y' (u, w))),
            (snd (snd (sweep H reason y' (u, w))), (journal @ es) @ fs)))"
        "\<forall>a. fst (sweep H reason y' (u, w)) = Inr a \<longrightarrow> tally y' fs a"
        using 1 [OF pass [symmetric] x refl TrueI, of "journal @ es"] by auto
      then show ?thesis
        using first [OF x] by (auto simp: more pass log x intro!: exI [of _ "es @ fs"] tally_trans)
    next
      case False
      then show ?thesis
        using first by (auto simp: sweep.simps [of H reason y s] sweep.simps [of "logging H" reason y "(fst s, (snd s, journal))"]
            pass log split: sum.splits)
    qed
  qed
  note agree = this
  show ?thesis
    unfolding mirrors_def
  proof (intro allI)
    fix t w journal
    show "case sweep H reason y (t, w) of (x, (u, w')) \<Rightarrow>
        \<exists>es. sweep (logging H) reason y (t, (w, journal)) = (x, (u, (w', journal @ es))) \<and> (\<forall>a. x = Inr a \<longrightarrow> tally y es a)"
      using agree [of "(t, w)" journal] by (auto split: prod.splits)
  qed
qed

text \<open>One poll of a close-all: the totals grow by the errors its close calls returned.\<close>

lemma poll_close_all_logged:
  assumes "table_ok H t" and "poll_close_all_report H reason (t, w) = (Inr result, (u, w'))"
  shows "\<exists>es. poll_close_all_report (logging H) reason (t, (w, journal)) = (Inr result, (u, (w', journal @ es))) \<and>
    tally (sweep_start t) es (case result of Ready y \<Rightarrow> y | Pending \<Rightarrow> sweep_start u)"
proof -
  let ?t = "t\<lparr>close_all_state := Some \<lparr>sweep_reason = reason, totals = sweep_start t\<rparr>\<rparr>"
  have calm: "\<not> sweep_conflict t reason"
  proof
    assume "sweep_conflict t reason"
    with assms(2) show False
      by (auto simp: poll_close_all_report_def meth_defs own_def sweep_conflict_def split: option.splits)
  qed
  obtain y v w1 where run: "sweep H reason (sweep_start t) (?t, w) = (Inr y, (v, w1))"
    and poll: "poll_close_all_report H reason (t, w) =
       (if occupied v = {} then (Inr (Ready y), (v\<lparr>close_all_state := None, scope_states := Map.empty\<rparr>, w1))
        else (Inr Pending, (v\<lparr>close_all_state := Some \<lparr>sweep_reason = reason, totals = y\<rparr>\<rparr>, w1)))"
    using assms(1) calm by (rule poll_close_all_report_eq)
  obtain y' v' w2 where run': "sweep (logging H) reason (sweep_start t) (?t, (w, journal)) = (Inr y', (v', w2))"
    and poll': "poll_close_all_report (logging H) reason (t, (w, journal)) =
       (if occupied v' = {} then (Inr (Ready y'), (v'\<lparr>close_all_state := None, scope_states := Map.empty\<rparr>, w2))
        else (Inr Pending, (v'\<lparr>close_all_state := Some \<lparr>sweep_reason = reason, totals = y'\<rparr>\<rparr>, w2)))"
    using assms(1) calm by (rule poll_close_all_report_eq [of "logging H" t reason "(w, journal)", unfolded table_ok_logging])
  obtain es where "y' = y" "v' = v" "w2 = (w1, journal @ es)" "tally (sweep_start t) es y"
    using mirrorsD [OF sweep_mirrors run, of journal] run' by auto
  then show ?thesis
    using assms(2) poll poll' by (auto simp: sweep_start_def [of "close_all_state_update _ _"] split: if_splits)
qed

end
