(* ===== verification/TableProps.thy ===== *)
theory TableProps
  imports Snapshots CloseLog
begin

text \<open>
  The properties of the resource table: along any sequence of calls its books are kept, a handle
  that has stopped naming a resource stays dead, and a close-all is complete when it says so and
  gets there.
\<close>

section \<open>Sequences of calls\<close>

text \<open>
  One call of a public method with arguments of the caller's choice, or a change of what lies
  outside the table.
\<close>

inductive table_step ::
  "('r, 'w) HostResource \<Rightarrow> ('r, 's) ResourceTable \<times> 'w \<Rightarrow> ('r, 's) ResourceTable \<times> 'w \<Rightarrow> bool"
  for H where
  step_outside: "table_step H (t, w) (t, w')"
| step_push: "push H tid v s = (r, u) \<Longrightarrow> table_step H s u"
| step_typed: "handle_valid h \<Longrightarrow> typed tid h s = (r, u) \<Longrightarrow> table_step H s u"
| step_get: "handle_valid h \<Longrightarrow> get tid h s = (r, u) \<Longrightarrow> table_step H s u"
| step_get_mut: "handle_valid h \<Longrightarrow> get_mut tid h f s = (r, u) \<Longrightarrow> table_step H s u"
| step_validate: "handle_valid h \<Longrightarrow> validate_resource_type_key h key s = (r, u) \<Longrightarrow> table_step H s u"
| step_take: "handle_valid h \<Longrightarrow> table_take tid h s = (r, u) \<Longrightarrow> table_step H s u"
| step_begin_close: "handle_valid h \<Longrightarrow> begin_close H tid h reason s = (r, u) \<Longrightarrow> table_step H s u"
| step_poll_close: "handle_valid h \<Longrightarrow> poll_close H tid h s = (r, u) \<Longrightarrow> table_step H s u"
| step_poll_close_all_report: "poll_close_all_report H reason s = (r, u) \<Longrightarrow> table_step H s u"
| step_poll_close_all: "poll_close_all H reason s = (r, u) \<Longrightarrow> table_step H s u"
| step_close_all: "close_all H reason s = (r, u) \<Longrightarrow> table_step H s u"
| step_close_for_drop: "begin_close_remaining_for_drop H reason s = (r, u) \<Longrightarrow> table_step H s u"
| step_poll_close_added: "poll_close_added H before e s = (r, u) \<Longrightarrow> table_step H s u"
| step_scope_insert: "scope_state_or_insert_with tid init f s = (r, u) \<Longrightarrow> table_step H s u"
| step_scope_mut: "scope_state_mut tid f s = (r, u) \<Longrightarrow> table_step H s u"
| step_scope_take: "take_scope_state tid s = (r, u) \<Longrightarrow> table_step H s u"

abbreviation table_steps ::
  "('r, 'w) HostResource \<Rightarrow> ('r, 's) ResourceTable \<times> 'w \<Rightarrow> ('r, 's) ResourceTable \<times> 'w \<Rightarrow> bool" where
  "table_steps H \<equiv> (table_step H)\<^sup>*\<^sup>*"

text \<open>Drives a close-all the way its caller does, for at most \<open>k\<close> polls.\<close>

fun poll_until_ready ::
  "('r, 'w) HostResource \<Rightarrow> ResourceCloseReason \<Rightarrow> nat \<Rightarrow> ('r, 's) ResourceTable \<times> 'w \<Rightarrow>
     CloseAllReport option \<times> ('r, 's) ResourceTable \<times> 'w" where
  "poll_until_ready H reason 0 s = (None, s)"
| "poll_until_ready H reason (Suc k) s =
     (case poll_close_all_report H reason s of
        (Inr (Ready y), u) \<Rightarrow> (Some y, u)
      | (Inr Pending, u) \<Rightarrow> poll_until_ready H reason k u
      | (Inl e, u) \<Rightarrow> (None, u))"

text \<open>Resources whose close makes headway: each pending poll lowers a rank of the resource.\<close>

definition makes_headway :: "('r, 'w) HostResource \<Rightarrow> (TypeId \<Rightarrow> 'r \<Rightarrow> nat) \<Rightarrow> bool" where
  "makes_headway H rank \<longleftrightarrow>
     (\<forall>tid r w r' w'. poll_close_fn H tid r w = (Pending, r', w') \<longrightarrow> rank tid r' < rank tid r)"

definition within :: "(TypeId \<Rightarrow> 'r \<Rightarrow> nat) \<Rightarrow> nat \<Rightarrow> 'r SlotState \<Rightarrow> bool" where
  "within rank m st = (case st of
     Vacant \<Rightarrow> True | Open b \<Rightarrow> False | Closing b \<Rightarrow> rank (vtable b) (content b) < m)"

definition all_within :: "(TypeId \<Rightarrow> 'r \<Rightarrow> nat) \<Rightarrow> nat \<Rightarrow> ('r, 's) ResourceTable \<Rightarrow> bool" where
  "all_within rank m t \<longleftrightarrow> (\<forall>i < length (slots t). within rank m (slot_state (slots t ! i)))"

text \<open>
  A host whose resources close at once, one whose resources take some polls, one whose resources
  fail to close, and a table of one slot before and after a resource was
  pushed into it: the concrete inputs of the witnesses.
\<close>

definition plain_host :: "(nat, unit) HostResource" where
  "plain_host = \<lparr>resource_type_key_fn = \<lambda>_. None, begin_close_fn = default_begin_close,
     poll_close_fn = default_poll_close\<rparr>"

definition slow_host :: "(nat, unit) HostResource" where
  "slow_host = \<lparr>resource_type_key_fn = \<lambda>_. None, begin_close_fn = \<lambda>tid reason r w. (Inr ClosePending, r, w),
     poll_close_fn = \<lambda>tid r w. if r = 0 then (Ready (Inr ()), r, w) else (Pending, r - 1, w)\<rparr>"

definition sour_error :: ResourceError where
  "sour_error = resource_error ResourceStale ''sour'' ''the close failed''"

definition sour_host :: "(nat, unit) HostResource" where
  "sour_host = plain_host\<lparr>begin_close_fn := \<lambda>tid reason r w. (Inl sour_error, r, w)\<rparr>"

definition sample_table :: "(nat, nat) ResourceTable" where
  "sample_table = \<lparr>arena_id = 1, max_entries = 1, slots = [], vacant_slots = [], active_entries = 0,
     close_all_state = None, scope_states = Map.empty\<rparr>"

definition sample_handle :: ResourceHandle where
  "sample_handle = ResourceHandle 8796126576641"

definition sample_file :: "nat BoxedResource" where
  "sample_file = \<lparr>vtable = ''File'', content = 7\<rparr>"

definition sample_slot :: "nat SlotState \<Rightarrow> nat ResourceSlot" where
  "sample_slot st = \<lparr>generation = 1, type_id = ''File'', resource_type_key = None, slot_state = st\<rparr>"

definition sample_open :: "(nat, nat) ResourceTable" where
  "sample_open = sample_table\<lparr>slots := [sample_slot (Open sample_file)], active_entries := 1\<rparr>"

definition sample_closed :: "(nat, nat) ResourceTable" where
  "sample_closed = sample_table\<lparr>slots := [sample_slot Vacant], vacant_slots := [0]\<rparr>"

lemma poll_close_added_sound: "sound (table_inv H 0) table_ages (poll_close_added H before e)"
proof (rule soundI)
  fix s assume "table_inv H 0 s"
  then show "wp (poll_close_added H before e) (\<lambda>_ u. table_inv H 0 u \<and> table_ages s u)
      (\<lambda>e u. e \<noteq> Panicked \<and> table_inv H 0 u \<and> table_ages s u) s"
    using wp_use [OF poll_close_added_spec [of H "fst s" before e "snd s"]]
    by (auto simp: table_inv_def table_ages_def)
qed

lemma table_step_sound:
  assumes "table_step H s u" and "table_inv H 0 s"
  shows "table_inv H 0 u \<and> table_ages s u"
  using assms(1)
proof cases
  case (step_outside t w w')
  with assms(2) show ?thesis by (simp add: table_inv_def table_ages_def ages_refl)
qed (use assms(2) in \<open>blast dest: sound_result(1,2) [OF push_sound] sound_result(1,2) [OF typed_sound]
  sound_result(1,2) [OF get_sound] sound_result(1,2) [OF get_mut_sound]
  sound_result(1,2) [OF validate_resource_type_key_sound] sound_result(1,2) [OF table_take_sound]
  sound_result(1,2) [OF begin_close_sound] sound_result(1,2) [OF poll_close_sound]
  sound_result(1,2) [OF poll_close_all_report_sound] sound_result(1,2) [OF poll_close_all_sound]
  sound_result(1,2) [OF close_all_sound] sound_result(1,2) [OF begin_close_remaining_for_drop_sound]
  sound_result(1,2) [OF scope_state_methods_sound(1)] sound_result(1,2) [OF scope_state_methods_sound(3)]
  sound_result(1,2) [OF scope_state_methods_sound(4)] sound_result(1,2) [OF poll_close_added_sound]\<close>)+

lemma table_steps_sound:
  assumes "table_steps H s u" and "table_ok H (fst s)"
  shows "table_ok H (fst u)" and "ages arena_id table_clock (fst s) (fst u)"
proof -
  have "table_inv H 0 u \<and> table_ages s u"
    using assms by (induction rule: rtranclp_induct)
      (auto simp: table_inv_def table_frame.relates_refl dest!: table_step_sound
        intro: table_frame.relates_trans)
  then show "table_ok H (fst u)" and "ages arena_id table_clock (fst s) (fst u)"
    by (simp_all add: table_inv_def table_ages_def)
qed

section \<open>Close-all makes headway\<close>

lemma within_mono: "within rank m st \<Longrightarrow> m \<le> m' \<Longrightarrow> within rank m' st"
  by (auto simp: within_def split: SlotState.splits)

lemma try_poll_close_within:
  assumes "table_inv H n (t, w)" and "i < n" and "makes_headway H rank"
    and "within rank m (slot_state (slots t ! i))"
  shows "wp (try_poll_close H i y) (\<lambda>_ (u, w'). table_inv H n (u, w') \<and> length (slots u) = length (slots t) \<and>
     (\<forall>j. j \<noteq> i \<longrightarrow> slots u ! j = slots t ! j) \<and> within rank (m - 1) (slot_state (slots u ! i))) (\<lambda>_ _. False) (t, w)"
proof -
  have "wp (try_poll_close H i y) (\<lambda>_ (u, w'). within rank (m - 1) (slot_state (slots u ! i))) (\<lambda>_ _. True) (t, w)"
    using assms
    by (fastforce simp: try_poll_close_def resource_poll_close_def wp_simps table_inv_def within_def
        makes_headway_def vacate_simps split: SlotState.splits Poll.splits prod.splits sum.splits)
  then show ?thesis
    by (rule wp_use [OF wp_conj [OF _ try_poll_close_moves [OF assms(1,2), of y]]])
       (use slot_move_ok [of i t _ H] slot_move_keeps [OF _ assms(1), of i] slot_move_elsewhere [of i t] assms(1)
         in \<open>auto simp: table_inv_def\<close>)
qed

lemma polls_within:
  fixes s :: "('r, 's) ResourceTable \<times> 'w"
  assumes "table_inv H n s" and "n = length (slots (fst s))" and "makes_headway H rank"
    and "all_within rank m (fst s)" and "\<And>i. i \<in> set is \<Longrightarrow> i < n"
  shows "wp (fold_each is (or_progress (try_poll_close H)) acc)
    (\<lambda>_ u. length (slots (fst u)) = n \<and> (\<forall>j < n. if j \<in> set is then within rank (m - 1) (slot_state (slots (fst u) ! j))
       else slots (fst u) ! j = slots (fst s) ! j)) (\<lambda>_ _. False) s"
  using assms
proof (induction "is" arbitrary: s acc)
  case (Cons i xs)
  obtain p y where acc: "acc = (p, y)" by fastforce
  have "i < n" "within rank m (slot_state (slots (fst s) ! i))"
    using Cons.prems by (auto simp: all_within_def)
  note first = try_poll_close_within [of H n "fst s" "snd s" i rank m y, simplified, OF Cons.prems(1) this(1)
      Cons.prems(3) this(2)]
  define Q :: "bool \<times> CloseAllReport \<Rightarrow> ('r, 's) ResourceTable \<times> 'w \<Rightarrow> bool" where
    "Q = (\<lambda>_ v. length (slots (fst v)) = n \<and> (\<forall>j < n. if j \<in> set (i # xs)
       then within rank (m - 1) (slot_state (slots (fst v) ! j)) else slots (fst v) ! j = slots (fst s) ! j))"
  have rest: "wp (fold_each xs (or_progress (try_poll_close H)) acc') Q (\<lambda>_ _. False) u"
    if u: "table_inv H n u" "length (slots (fst u)) = n" "\<forall>j. j \<noteq> i \<longrightarrow> slots (fst u) ! j = slots (fst s) ! j"
      "within rank (m - 1) (slot_state (slots (fst u) ! i))" for acc' and u :: "('r, 's) ResourceTable \<times> 'w"
  proof -
    have "all_within rank m (fst u)"
      using u Cons.prems(2,4) by (auto simp: all_within_def intro: within_mono) (metis diff_le_self within_mono)
    then show ?thesis
      by (cases "i \<in> set xs"; rule_tac wp_use [OF Cons.IH [OF u(1) u(2) [symmetric] Cons.prems(3)]];
          use u Cons.prems(5) in \<open>auto simp: Q_def split: if_splits\<close>)
  qed
  have "wp (or_progress (try_poll_close H) i acc)
      (\<lambda>acc'. wp (fold_each xs (or_progress (try_poll_close H)) acc') Q (\<lambda>_ _. False)) (\<lambda>_ _. False) s"
    unfolding acc or_progress_def [of "try_poll_close H" i] prod.case wp_and_then
    by (rule wp_use [OF first]) (use Cons.prems(2) in \<open>auto simp: wp_ok intro!: rest\<close>)
  then show ?case by (simp add: wp_and_then Q_def)
qed (simp add: wp_ok)

lemma sweep_pass_within:
  assumes "table_ok H (fst s)" and "makes_headway H rank" and "all_within rank m (fst s)"
    and "sweep_pass H reason y s = (Inr py, u)"
  shows "all_within rank (m - 1) (fst u)"
proof -
  let ?is = "indices_where is_closing (slots (fst s))"
  have "no_open (fst s)" using assms(3) by (auto simp: no_open_iff all_within_def within_def is_open_iff split: SlotState.splits)
  then have "indices_where is_open (slots (fst s)) = []" by (simp add: indices_none no_open_iff)
  then have run: "fold_each ?is (or_progress (try_poll_close H)) (False, y) s = (Inr py, u)"
    using assms(4) by (cases s) (simp add: sweep_pass_def open_indices_def closing_indices_def own_def
        self_def and_then_def ok_def)
  have inv: "table_inv H (length (slots (fst s))) s" using assms(1) by (simp add: table_inv_def)
  have below: "i \<in> set ?is \<Longrightarrow> i < length (slots (fst s))" for i by (rule indices_where_below)
  from wp_D(1) [OF polls_within [OF inv refl assms(2,3) below] run]
  have len: "length (slots (fst u)) = length (slots (fst s))" and
    slot: "j < length (slots (fst s)) \<Longrightarrow> if j \<in> set ?is then within rank (m - 1) (slot_state (slots (fst u) ! j))
       else slots (fst u) ! j = slots (fst s) ! j" for j
    by auto
  have "within rank (m - 1) (slot_state (slots (fst u) ! j))" if "j < length (slots (fst s))" for j
  proof (cases "j \<in> set ?is")
    case False
    then have "slot_state (slots (fst s) ! j) = Vacant"
      using that \<open>no_open (fst s)\<close> by (cases "slot_state (slots (fst s) ! j)")
        (auto simp: indices_where_def no_open_iff)
    with slot [OF that] False show ?thesis by (simp add: within_def)
  qed (use slot [OF that] in simp)
  then show ?thesis by (simp add: all_within_def len)
qed

lemma all_within_mono: "all_within rank m t \<Longrightarrow> m \<le> m' \<Longrightarrow> all_within rank m' t"
  by (auto simp: all_within_def intro: within_mono)

lemma ranks_bounded:
  assumes "no_open t"
  shows "\<exists>m. all_within rank m t"
proof -
  define m where "m = Suc (\<Sum>s \<leftarrow> slots t. case slot_state s of Closing b \<Rightarrow> rank (vtable b) (content b) | _ \<Rightarrow> 0)"
  have "within rank m (slot_state s)" if "s \<in> set (slots t)" for s
  proof -
    have "(case slot_state s of Closing b \<Rightarrow> rank (vtable b) (content b) | _ \<Rightarrow> 0) < m"
      unfolding m_def less_Suc_eq_le using that by (intro member_le_sum_list) auto
    moreover have "\<not> is_open (slot_state s)" using assms that by (simp add: no_open_def list_all_iff)
    ultimately show ?thesis by (auto simp: within_def split: SlotState.splits)
  qed
  then have "all_within rank m t" by (simp add: all_within_def)
  then show ?thesis ..
qed

lemma all_within_0: "all_within rank 0 t \<Longrightarrow> occupied t = {}"
proof (rule equals0I)
  fix i assume "all_within rank 0 t" "i \<in> occupied t"
  then show False by (cases "slot_state (slots t ! i)") (auto simp: all_within_def within_def)
qed

lemma sweep_within:
  assumes "table_ok H (fst s)" and "makes_headway H rank" and "all_within rank m (fst s)"
    and "sweep H reason y s = (Inr y', u)"
  shows "all_within rank (m - 1) (fst u)"
  using assms
proof (induction H reason y s arbitrary: m rule: sweep.induct)
  case (1 H reason y s)
  obtain r s' where pass: "sweep_pass H reason y s = (r, s')" by (metis surj_pair)
  obtain p z where r: "r = Inr (p, z)" and ok: "table_ok H (fst s')"
    using sweep_pass_swept [OF 1(2), of reason y "snd s"] pass by (cases r) (auto simp: wp_def)
  have later: "all_within rank (m - 1) (fst s')"
    by (rule sweep_pass_within [OF 1(2-4) pass [unfolded r]])
  show ?case
  proof (cases p)
    case True
    then have "sweep H reason z s' = (Inr y', u)"
      using 1(5) by (simp add: sweep.simps [of H reason y s] pass r)
    with 1(1) [OF pass [symmetric] r refl True ok 1(3) later] show ?thesis
      by (meson all_within_mono diff_le_self)
  next
    case False
    with 1(5) later show ?thesis by (simp add: sweep.simps [of H reason y s] pass r)
  qed
qed

lemma poll_within:
  assumes "table_ok H t" and "\<not> sweep_conflict t reason" and "makes_headway H rank" and "all_within rank m t"
    and "poll_close_all_report H reason (t, w) = (Inr Pending, (u, w'))"
  shows "all_within rank (m - 1) u \<and> 0 < m"
proof -
  let ?t = "t\<lparr>close_all_state := Some \<lparr>sweep_reason = reason, totals = sweep_start t\<rparr>\<rparr>"
  obtain y v w'' where run: "sweep H reason (sweep_start t) (?t, w) = (Inr y, (v, w''))"
    and result: "poll_close_all_report H reason (t, w) =
       (if occupied v = {} then (Inr (Ready y), (v\<lparr>close_all_state := None, scope_states := Map.empty\<rparr>, w''))
        else (Inr Pending, (v\<lparr>close_all_state := Some \<lparr>sweep_reason = reason, totals = y\<rparr>\<rparr>, w'')))"
    using assms(1,2) by (rule poll_close_all_report_eq)
  have "all_within rank (m - 1) v"
    using sweep_within [of H "(?t, w)" rank m, OF _ assms(3) _ run] assms(1,4) by (simp add: all_within_def)
  moreover have "occupied v \<noteq> {}" "u = v\<lparr>close_all_state := Some \<lparr>sweep_reason = reason, totals = y\<rparr>\<rparr>"
    using result assms(5) by (auto split: if_splits)
  ultimately show ?thesis
    using all_within_0 [of rank v] by (cases m) (auto simp: all_within_def)
qed

text \<open>What each poll of a close-all leaves and has counted.\<close>

lemma poll_cases:
  assumes "table_ok H t" and "\<not> sweep_conflict t reason"
  obtains
    (ready) y u w' where "poll_close_all_report H reason (t, w) = (Inr (Ready y), (u, w'))"
      "table_ok H u" "occupied u = {}" "close_all_state u = None" "scope_states u = Map.empty"
      "closed y = closed (sweep_start t) + card (occupied t)" "report_ok (sweep_start t) \<Longrightarrow> report_ok y"
      "failed (sweep_start t) \<le> failed y" "failed y \<le> failed (sweep_start t) + card (occupied t)"
      "first_error (sweep_start t) \<noteq> None \<Longrightarrow> first_error y = first_error (sweep_start t)"
  | (pending) u w' where "poll_close_all_report H reason (t, w) = (Inr Pending, (u, w'))"
      "table_ok H u" "occupied u \<noteq> {}" "occupied u \<subseteq> occupied t" "no_open u" "scope_states u = scope_states t"
      "\<And>h. names_resource u h \<Longrightarrow> names_resource t h"
      "map_option sweep_reason (close_all_state u) = Some reason"
      "closed (sweep_start u) + card (occupied u) = closed (sweep_start t) + card (occupied t)"
      "report_ok (sweep_start t) \<Longrightarrow> report_ok (sweep_start u)"
      "failed (sweep_start t) \<le> failed (sweep_start u)"
      "first_error (sweep_start t) \<noteq> None \<Longrightarrow> first_error (sweep_start u) = first_error (sweep_start t)"
proof -
  obtain y v w' where v: "table_ok H v"
      "swept t (sweep_start t) (v\<lparr>close_all_state := close_all_state t\<rparr>) y" "no_open v"
    and result: "poll_close_all_report H reason (t, w) =
       (if occupied v = {} then (Inr (Ready y), (v\<lparr>close_all_state := None, scope_states := Map.empty\<rparr>, w'))
        else (Inr Pending, (v\<lparr>close_all_state := Some \<lparr>sweep_reason = reason, totals = y\<rparr>\<rparr>, w')))"
    using assms by (rule poll_close_all_report_eq)
  show thesis
  proof (cases "occupied v = {}")
    case True
    show thesis
      by (rule ready [of y "v\<lparr>close_all_state := None, scope_states := Map.empty\<rparr>" w'])
         (use v result True in \<open>auto simp: swept_def\<close>)
  next
    case False
    show thesis
      by (rule pending [of "v\<lparr>close_all_state := Some \<lparr>sweep_reason = reason, totals = y\<rparr>\<rparr>" w'])
         (use v result False in \<open>simp_all add: swept_def sweep_start_def [of "close_all_state_update _ _"]\<close>)
  qed
qed

lemma polls_reach_ready:
  assumes "table_ok H t" and "\<not> sweep_conflict t reason" and "makes_headway H rank" and "all_within rank m t"
  shows "\<exists>y u. poll_until_ready H reason (Suc m) (t, w) = (Some y, u) \<and> table_ok H (fst u) \<and> occupied (fst u) = {} \<and>
     closed y = closed (sweep_start t) + card (occupied t)"
  using assms
proof (induction m arbitrary: t w)
  case 0
  from 0(1,2) show ?case
  proof (cases rule: poll_cases [where w = w])
    case (pending u w')
    with poll_within [OF 0 pending(1)] show ?thesis by simp
  qed auto
next
  case (Suc m)
  from Suc(2,3) show ?case
  proof (cases rule: poll_cases [where w = w])
    case (pending u w')
    have "all_within rank m u" using poll_within [OF Suc(2-5) pending(1)] by simp
    moreover have "\<not> sweep_conflict u reason"
      using pending(8) by (auto simp: sweep_conflict_def)
    ultimately obtain y v where "poll_until_ready H reason (Suc m) (u, w') = (Some y, v)"
        "table_ok H (fst v) \<and> occupied (fst v) = {}" "closed y = closed (sweep_start u) + card (occupied u)"
      using Suc(1) [OF pending(2) _ Suc(4), of w'] by blast
    then show ?thesis using pending by (subst poll_until_ready.simps) auto
  qed auto
qed

section \<open>The samples\<close>

lemma sample_handle_fields:
  "handle_valid sample_handle" "handle_arena_id sample_handle = 1" "handle_slot sample_handle = 0"
  "handle_generation sample_handle = 1"
proof -
  have "handle_encode 1 0 1 = Some sample_handle"
    by (simp add: handle_encode_eq sample_handle_def le_mask_iff)
  then show "handle_valid sample_handle" "handle_arena_id sample_handle = 1" "handle_slot sample_handle = 0"
    "handle_generation sample_handle = 1"
    by (simp_all add: handle.encode_Some)
qed

lemma sample_encode: "handle_encode 1 0 1 = Some sample_handle"
  by (simp add: handle.encode_Some sample_handle_fields)

lemma sample_push: "push plain_host ''File'' 7 (sample_table, ()) = (Inr sample_handle, (sample_open, ()))"
  by (simp add: push_def allocate_def meth_defs own_def set_own_def expect_def Let_def sample_table_def
      sample_open_def sample_slot_def sample_file_def plain_host_def checked_add_usize_def usize_max_def
      sample_encode handle_limits)

lemma sample_take: "table_take ''File'' sample_handle (sample_open, ()) = (Inr 7, (sample_closed, ()))"
  by (simp add: table_take_def resolve_index_def check_generation_def check_type_def replace_slot_state_def
      slot_at_def set_slot_def reclaim_def put_slot_state_def meth_defs own_def set_own_def expect_def
      handle_slot_index_valid sample_handle_fields sample_open_def sample_closed_def sample_slot_def
      sample_file_def sample_table_def vec_get_def downcast_def checked_sub_usize_def word_less_nat_alt handle_limits)

lemma sample_open_ok: "table_ok plain_host sample_open" and sample_table_ok: "table_ok plain_host sample_table"
  and sample_closed_ok: "table_ok plain_host sample_closed"
  by (auto simp: table_ok_def slot_ok_def sample_open_def sample_table_def sample_closed_def sample_slot_def
      sample_file_def plain_host_def handle_limits occupied_def reusable_def indices_where_def upt_rec)

lemma sample_sour_ok: "table_ok sour_host sample_open"
  using sample_open_ok by (simp add: table_ok_def slot_ok_def sour_host_def)

lemma sample_named: "names_resource sample_open sample_handle"
  by (simp add: names_resource_def sample_handle_fields sample_open_def sample_table_def sample_slot_def)

lemma sample_unnamed: "\<not> names_resource sample_closed sample_handle"
  by (simp add: names_resource_def sample_handle_fields sample_closed_def sample_table_def sample_slot_def)

lemma sample_handle_at: "handle_at 0 (sample_open, ()) = (Inr (Some sample_handle), (sample_open, ()))"
  by (simp add: handle_at_def slot_at_def own_def meth_defs expect_def vec_get_def sample_open_def
      sample_table_def sample_slot_def sample_encode)

lemma sample_live_indices: "indices_where (\<lambda>st. st \<noteq> Vacant) (slots sample_open) = [0]"
  by (simp add: indices_where_def sample_open_def sample_table_def sample_slot_def)

lemma sample_live: "live_handles (sample_open, ()) = (Inr {sample_handle}, (sample_open, ()))"
  by (simp add: live_handles_def live_indices_def own_def self_def and_then_apply sample_live_indices
      sample_handle_at ok_or_def ok_def)

section \<open>Handles that name nothing\<close>

lemma table_no_panic:
  "table_ok H (fst s) \<Longrightarrow> sound (table_inv H 0) table_ages m \<Longrightarrow> fst (m s) \<noteq> Inl Panicked"
  using sound_result(3) [of "table_inv H 0" table_ages m s "fst (m s)" "snd (m s)"] by (simp add: table_inv_def)

lemmas table_safe = table_no_panic [OF _ push_sound] table_no_panic [OF _ typed_sound] table_no_panic [OF _ get_sound]
  table_no_panic [OF _ get_mut_sound] table_no_panic [OF _ table_take_sound]
  table_no_panic [OF _ validate_resource_type_key_sound] table_no_panic [OF _ begin_close_sound]
  table_no_panic [OF _ poll_close_sound] table_no_panic [OF _ poll_close_all_report_sound]
  table_no_panic [OF _ poll_close_all_sound] table_no_panic [OF _ close_all_sound] table_no_panic [OF _ drop_table_sound]
  table_no_panic [OF _ begin_close_remaining_for_drop_sound] table_no_panic [OF _ poll_close_added_sound]
  table_no_panic [OF _ scope_state_methods_sound(1)] table_no_panic [OF _ scope_state_methods_sound(2)]
  table_no_panic [OF _ scope_state_methods_sound(3)] table_no_panic [OF _ scope_state_methods_sound(4)]

lemma wp_rejected: "wp m (\<lambda>_ _. False) (\<lambda>e u. e \<noteq> Panicked \<and> u = s) s \<Longrightarrow> \<exists>e. m s = (Inl (Raised e), s)"
  by (auto simp: wp_def split: prod.splits sum.splits) (metis fault.exhaust)

lemma unnamed_resolves_vacant:
  assumes "\<not> names_resource t h"
  shows "handle_arena_id h = arena_id t \<Longrightarrow> handle_slot h < length (slots t) \<Longrightarrow>
    unat (generation (slots t ! handle_slot h)) = unat (handle_generation h) \<Longrightarrow>
    slot_state (slots t ! handle_slot h) = Vacant"
  using assms by (auto simp: names_resource_def)

lemma unnamed_handle_rejected:
  assumes "table_ok H t" and "handle_valid h" and "\<not> names_resource t h"
  shows "\<exists>e. typed tid h (t, w) = (Inl (Raised e), (t, w))"
    and "\<exists>e. get tid h (t, w) = (Inl (Raised e), (t, w))"
    and "\<exists>e. get_mut tid h f (t, w) = (Inl (Raised e), (t, w))"
    and "\<exists>e. table_take tid h (t, w) = (Inl (Raised e), (t, w))"
    and "\<exists>e. begin_close H tid h reason (t, w) = (Inl (Raised e), (t, w))"
    and "\<exists>e. poll_close H tid h (t, w) = (Inl (Raised e), (t, w))"
  using unnamed_resolves_vacant [OF assms(3)] assms(2)
  by (auto intro!: wp_rejected simp: typed_def get_def get_mut_def table_take_def begin_close_def poll_close_def
      close_open_slot_def check_type_def wp_simps wp_resolve_index wp_validate_active)

section \<open>Properties\<close>

lemma table_with_limit_ok:
  assumes "table_with_limit limit c = (Inr t, c')" and "0 < c"
  shows "table_ok H t" and "arena_id t = c" and "close_all_state t = None"
proof -
  have "unat c \<noteq> 0" using assms(2) by (simp add: unat_eq_0)
  with assms(1) show "table_ok H t" and "arena_id t = c" and "close_all_state t = None"
    by (auto simp: table_with_limit_def allocate_arena_id_def meth_defs throw_def table_ok_def
        occupied_def reusable_def indices_where_def word_le_nat_alt split: if_splits)
qed

text \<open>
  C12. Handle tokens round trip: \<open>encode\<close> accepts exactly the triples within the field widths, and
  its result is the one handle with these fields that \<open>from_raw\<close> accepts.
\<close>

theorem handle_round_trip:
  "(handle_encode a i g = Some h \<longleftrightarrow>
      handle_from_raw (handle_raw h) = Inr h \<and> handle_arena_id h = a \<and> handle_slot_index h = Some i \<and>
      handle_generation h = g) \<and>
   ((\<exists>h. handle_encode a i g = Some h) \<longleftrightarrow>
      0 < unat a \<and> unat a < 2 ^ 20 \<and> Suc i < 2 ^ 18 \<and> 0 < unat g \<and> unat g < 2 ^ 25)"
proof
  show "handle_encode a i g = Some h \<longleftrightarrow>
      handle_from_raw (handle_raw h) = Inr h \<and> handle_arena_id h = a \<and> handle_slot_index h = Some i \<and>
      handle_generation h = g"
    using handle_slot_index_valid [of h] by (auto simp: handle.encode_Some handle_valid_def)
  have "(\<exists>h. handle_encode a i g = Some h) \<longleftrightarrow> handle_encode a i g \<noteq> None" by auto
  then show "(\<exists>h. handle_encode a i g = Some h) \<longleftrightarrow>
      0 < unat a \<and> unat a < 2 ^ 20 \<and> Suc i < 2 ^ 18 \<and> 0 < unat g \<and> unat g < 2 ^ 25"
    by (auto simp: handle.encode_None handle_limits)
qed

text \<open>
  C13. A table keeps its books. Whatever calls are made on a freshly constructed table, and
  whatever its resources do, the free list names exactly the vacant slots with a generation left,
  the count of live entries is that of the occupied slots and within the capacity, and every
  occupant has the type its slot records.
\<close>

theorem table_books_kept:
  assumes "table_with_limit limit c = (Inr t, c')" and "0 < c" and "table_steps H (t, w) (u, w')"
  shows "table_ok H u \<and> arena_id u = c"
proof -
  have "table_ok H t" and "arena_id t = c" using table_with_limit_ok [OF assms(1,2)] by blast+
  then show ?thesis
    using table_steps_sound [OF assms(3)] by (simp add: ages_def)
qed

theorem table_books_kept_witness: "table_ok plain_host sample_open \<and> arena_id sample_open = 1"
proof (rule table_books_kept)
  show "table_with_limit 1 1 = (Inr sample_table, 2)"
    by (simp add: table_with_limit_def allocate_arena_id_def meth_defs sample_table_def handle_limits
        word_le_nat_alt)
  show "table_steps plain_host (sample_table, ()) (sample_open, ())"
    by (rule r_into_rtranclp) (rule step_push [OF sample_push])
qed simp

text \<open>
  C14. No panic: on a table with its books in order no method, public or of the crate, reaches an
  \<open>expect\<close> or \<open>unwrap\<close> on nothing, an \<open>unreachable\<close>, an index out of range or an unsigned underflow,
  whatever the close code of the resources does; the downcast of a scope-state entry always succeeds.
\<close>

theorem table_never_panics:
  assumes "table_ok H (fst s)" and "handle_valid h"
  shows "fst (push H tid v s) \<noteq> Inl Panicked \<and> fst (typed tid h s) \<noteq> Inl Panicked \<and>
    fst (get tid h s) \<noteq> Inl Panicked \<and> fst (get_mut tid h f s) \<noteq> Inl Panicked \<and>
    fst (table_take tid h s) \<noteq> Inl Panicked \<and> fst (validate_resource_type_key h key s) \<noteq> Inl Panicked \<and>
    fst (begin_close H tid h reason s) \<noteq> Inl Panicked \<and> fst (poll_close H tid h s) \<noteq> Inl Panicked \<and>
    fst (poll_close_all_report H reason s) \<noteq> Inl Panicked \<and> fst (poll_close_all H reason s) \<noteq> Inl Panicked \<and>
    fst (close_all H reason s) \<noteq> Inl Panicked \<and> fst (drop_table H s) \<noteq> Inl Panicked \<and>
    fst (begin_close_remaining_for_drop H reason s) \<noteq> Inl Panicked \<and>
    fst (live_handles s) \<noteq> Inl Panicked \<and> fst (poll_close_added H before e s) \<noteq> Inl Panicked \<and>
    fst (scope_state_or_insert_with k init g s) \<noteq> Inl Panicked \<and> fst (scope_state k s) \<noteq> Inl Panicked \<and>
    fst (scope_state_mut k g s) \<noteq> Inl Panicked \<and> fst (take_scope_state k s) \<noteq> Inl Panicked"
proof -
  have "fst (live_handles s) \<noteq> Inl Panicked" using live_handles_eq [OF assms(1), of "snd s"] by simp
  then show ?thesis
    using assms by (simp only: table_safe simp_thms not_False_eq_True)
qed

theorem table_never_panics_witness:
  "fst (push plain_host ''File'' 7 (sample_open, ())) \<noteq> Inl Panicked \<and>
   fst (table_take ''File'' sample_handle (sample_open, ())) \<noteq> Inl Panicked \<and>
   fst (scope_state_or_insert_with ''Cache'' 3 Suc (sample_open, ())) \<noteq> Inl Panicked"
  using table_never_panics [of plain_host "(sample_open, ())" sample_handle] sample_open_ok sample_handle_fields(1)
  by simp



text \<open>
  C16. Insert and look up: the handle a push returns yields the pushed value at its own type, is
  refused at any other type, transfers the value out exactly once, and is none of the handles that
  named a resource of the table before.
\<close>

theorem push_then_use:
  assumes "table_ok H t" and "push H tid v (t, w) = (Inr h, (u, w'))"
  shows "get tid h (u, w') = (Inr v, (u, w')) \<and>
    (other \<noteq> tid \<longrightarrow> get other h (u, w') = (Inl (Raised (type_mismatch h other)), (u, w'))) \<and>
    (\<exists>x. table_take tid h (u, w') = (Inr v, (x, w')) \<and> occupied x = occupied t \<and>
       (\<exists>e. table_take tid h (x, w') = (Inl (Raised e), (x, w')))) \<and>
    (table_steps H s (t, w) \<and> table_ok H (fst s) \<longrightarrow> \<not> names_resource (fst s) h)"
proof -
  let ?i = "handle_slot h"
  note a = allocated [OF assms(1) assms(2) [unfolded push_def]]
  obtain g where slot: "slots u ! ?i = placed_slot H tid v g" using a(8) by blast
  have named: "handle_arena_id h = arena_id u" "?i < length (slots u)"
      "unat (generation (slots u ! ?i)) = unat (handle_generation h)"
    using a(7) by (auto simp: names_resource_def)
  have active: "0 < active_entries u"
    using active_when_occupied [OF a(3) named(2)] by (simp add: slot placed_slot_def)
  have taken: "table_take tid h (u, w') = (Inr v, (vacate ?i u, w'))"
  proof -
    have "wp (table_take tid h) (\<lambda>x s. x = v \<and> s = (vacate ?i u, w')) (\<lambda>_ _. False) (u, w')"
      using named active by (simp add: table_take_def check_type_def wp_simps wp_resolve_index a(2) slot
          placed_slot_def downcast_def)
    then show ?thesis by (auto simp: wp_def split: prod.splits sum.splits)
  qed
  have gone: "\<not> names_resource (vacate ?i u) h"
    using named by (simp add: names_resource_def vacate_simps)
  have "get tid h (u, w') = (Inr v, (u, w'))"
  proof -
    have "wp (get tid h) (\<lambda>x s. x = v \<and> s = (u, w')) (\<lambda>_ _. False) (u, w')"
      using named by (simp add: get_def wp_and_then wp_validate_active a(2) borrow_open_def wp_simps slot
          placed_slot_def downcast_def)
    then show ?thesis by (auto simp: wp_def split: prod.splits sum.splits)
  qed
  moreover have "get other h (u, w') = (Inl (Raised (type_mismatch h other)), (u, w'))" if "other \<noteq> tid"
  proof -
    have "wp (get other h) (\<lambda>_ _. False) (\<lambda>e s. e = Raised (type_mismatch h other) \<and> s = (u, w')) (u, w')"
      using named that by (simp add: get_def wp_and_then wp_validate_active a(2) slot placed_slot_def)
    then show ?thesis by (auto simp: wp_def split: prod.splits sum.splits)
  qed
  moreover have "occupied (vacate ?i u) = occupied t"
    using a(9,10) by (simp add: occupied_vacate [OF named(2)] insert_Diff_if del: occupied_iff)
  moreover have "\<exists>e. table_take tid h (vacate ?i u, w') = (Inl (Raised e), (vacate ?i u, w'))"
    using unnamed_handle_rejected(4) [OF _ a(2) gone] table_ok_vacate [OF a(3) named(2)]
    by (simp add: slot placed_slot_def)
  moreover have "\<not> names_resource (fst s) h" if "table_steps H s (t, w)" "table_ok H (fst s)"
    using stale.not_yet_live [OF a(6)] table_steps_sound(2) [OF that] by simp
  ultimately show ?thesis using taken by blast
qed

theorem push_then_use_witness:
  "get ''File'' sample_handle (sample_open, ()) = (Inr 7, (sample_open, ())) \<and>
   get ''Socket'' sample_handle (sample_open, ()) =
     (Inl (Raised (type_mismatch sample_handle ''Socket'')), (sample_open, ())) \<and>
   \<not> names_resource sample_table sample_handle"
  using push_then_use [OF sample_table_ok sample_push, of "''Socket''" "(sample_table, ())"] sample_table_ok by simp

text \<open>
  C17. A close-all is complete when it says so, and its totals are exact. It reports completion only
  when no slot is occupied, and then every resource it found has been counted once and the scope
  state is dropped; while it reports pending, no resource is left that has not been asked to close
  and the reason persists. In both cases the failures are those the close code of the resources has
  returned in this poll, none lost and none invented, on top of those of the polls before: run over
  a host that writes its errors down, the same poll writes exactly as many errors as the failed
  total grows by, and the first error stays the first of all.
\<close>

theorem close_all_reports_truth:
  assumes "table_ok H t" and "poll_close_all_report H reason (t, w) = (Inr result, (u, w'))"
  shows "\<exists>errors.
    poll_close_all_report (logging H) reason (t, (w, [])) = (Inr result, (u, (w', errors))) \<and>
    (case result of
      Ready y \<Rightarrow> occupied u = {} \<and> scope_states u = Map.empty \<and> close_all_state u = None \<and>
        closed y = closed (sweep_start t) + card (occupied t) \<and> tally (sweep_start t) errors y
    | Pending \<Rightarrow> occupied u \<noteq> {} \<and> no_open u \<and> scope_states u = scope_states t \<and>
        map_option sweep_reason (close_all_state u) = Some reason \<and>
        closed (sweep_start u) + card (occupied u) = closed (sweep_start t) + card (occupied t) \<and>
        tally (sweep_start t) errors (sweep_start u))"
proof -
  obtain errors where run: "poll_close_all_report (logging H) reason (t, (w, [])) = (Inr result, (u, (w', errors)))"
    and counted: "tally (sweep_start t) errors (case result of Ready y \<Rightarrow> y | Pending \<Rightarrow> sweep_start u)"
    using poll_close_all_logged [OF assms, of "[]"] by auto
  show ?thesis
  proof (cases "sweep_conflict t reason")
    case True
    with assms(2) show ?thesis
      by (auto simp: poll_close_all_report_def meth_defs own_def sweep_conflict_def split: option.splits)
  next
    case False
    show ?thesis
      by (rule poll_cases [OF assms(1) False, of w]) (use assms(2) run counted in auto)
  qed
qed

theorem close_all_reports_truth_witness:
  "\<exists>y u errors. poll_close_all_report sour_host VmReset (sample_open, ()) = (Inr (Ready y), (u, ())) \<and>
     failed y = 1 \<and> occupied u = {} \<and> length errors = 1 \<and>
     poll_close_all_report (logging sour_host) VmReset (sample_open, ((), [])) = (Inr (Ready y), (u, ((), errors)))"
proof -
  let ?r = "poll_close_all_report sour_host VmReset (sample_open, ())"
  have "case fst ?r of Inr (Ready y) \<Rightarrow> closed y = 1 \<and> failed y = 1 | _ \<Rightarrow> False" by code_simp
  then obtain y u where run: "?r = (Inr (Ready y), (u, ()))" and one: "failed y = 1"
    by (cases ?r) (auto split: sum.splits Poll.splits)
  obtain errors where "poll_close_all_report (logging sour_host) VmReset (sample_open, ((), [])) = (Inr (Ready y), (u, ((), errors)))"
      "occupied u = {}" "tally (sweep_start sample_open) errors y"
    using close_all_reports_truth [OF sample_sour_ok run] by auto
  moreover from this(3) one have "length errors = 1"
    by (simp add: tally_def sweep_start_def sample_open_def sample_table_def)
  ultimately show ?thesis using run one by blast
qed

text \<open>
  C18. A close-all gets there. If each pending poll of a resource lowers some rank of it, then
  polling the close-all often enough reports completion with the table empty and every resource
  counted.
\<close>

theorem close_all_terminates:
  assumes "table_ok H t" and "\<not> sweep_conflict t reason" and "makes_headway H rank"
  shows "\<exists>k y u. poll_until_ready H reason k (t, w) = (Some y, u) \<and> occupied (fst u) = {} \<and>
    closed y = closed (sweep_start t) + card (occupied t)"
  using assms(1,2)
proof (cases rule: poll_cases [where w = w])
  case (ready y u w')
  then show ?thesis by (intro exI [of _ "Suc 0"]) auto
next
  case (pending u w')
  obtain m where "all_within rank m u" using ranks_bounded [OF pending(5)] by blast
  moreover have "\<not> sweep_conflict u reason" using pending(8) by (auto simp: sweep_conflict_def)
  ultimately obtain y v where "poll_until_ready H reason (Suc m) (u, w') = (Some y, v)" "occupied (fst v) = {}"
      "closed y = closed (sweep_start u) + card (occupied u)"
    using polls_reach_ready [OF pending(2) _ assms(3), of reason m w'] by blast
  then show ?thesis
    using pending by (intro exI [of _ "Suc (Suc m)"] exI [of _ y] exI [of _ v]) auto
qed

theorem close_all_terminates_witness:
  "\<exists>k y u. poll_until_ready slow_host VmReset k (sample_open, ()) = (Some y, u) \<and> occupied (fst u) = {} \<and> closed y = 1"
proof -
  have "table_ok slow_host sample_open"
    by (auto simp: table_ok_def slot_ok_def sample_open_def sample_table_def sample_slot_def sample_file_def
        slow_host_def handle_limits occupied_def reusable_def indices_where_def)
  moreover have "\<not> sweep_conflict sample_open VmReset" by (simp add: sweep_conflict_def sample_open_def sample_table_def)
  moreover have "makes_headway slow_host (\<lambda>tid r. r)"
    by (auto simp: makes_headway_def slow_host_def split: if_splits)
  moreover have "closed (sweep_start sample_open) + card (occupied sample_open) = 1"
    by (simp add: sweep_start_def occupied_def indices_where_def sample_open_def sample_table_def sample_slot_def)
  ultimately show ?thesis using close_all_terminates by metis
qed

text \<open>
  C19. A second close-all with another reason is refused: the call fails with the error that names
  both reasons, and neither the table nor anything outside it changes.
\<close>

theorem close_all_reason_fixed:
  assumes "close_all_state t = Some state" and "sweep_reason state \<noteq> reason"
  shows "poll_close_all_report H reason (t, w) =
      (Inl (Raised (close_in_progress_error reason (sweep_reason state))), (t, w)) \<and>
    close_all H reason (t, w) =
      (Inl (Raised (close_in_progress_error reason (sweep_reason state))), (t, w)) \<and>
    res_code (close_in_progress_error reason (sweep_reason state)) = ResourceCloseInProgress"
  using assms by (simp add: close_all_def poll_close_all_def poll_close_all_report_def meth_defs own_def
      close_in_progress_error_def resource_error_def)

theorem close_all_reason_fixed_witness:
  "fst (close_all plain_host VmDrop (sample_open\<lparr>close_all_state :=
       Some \<lparr>sweep_reason = VmReset, totals = \<lparr>closed = 0, failed = 0, first_error = None\<rparr>\<rparr>\<rparr>, ())) =
     Inl (Raised (close_in_progress_error VmDrop VmReset))"
  using close_all_reason_fixed [of "sample_open\<lparr>close_all_state :=
       Some \<lparr>sweep_reason = VmReset, totals = \<lparr>closed = 0, failed = 0, first_error = None\<rparr>\<rparr>\<rparr>" _ VmDrop plain_host "()"]
  by simp

text \<open>
  C20. Rolling back what a call added. A snapshot lists exactly the handles that name a resource. For
  any set of handles \<open>before\<close>, \<open>poll_close_added\<close> always answers; it leaves every resource of the set
  as it is, adds none, and has asked every other one to close. It is finished exactly when the table
  holds only resources of the set, with the first error it was given or met, and pending otherwise.
\<close>

theorem close_added_spares_snapshot:
  assumes "table_ok H u"
  shows "live_handles (u, x) = (Inr {h. handle_valid h \<and> names_resource u h}, (u, x)) \<and>
    (\<exists>result e' v y. poll_close_added H before e (u, x) = (Inr (result, e'), (v, y)) \<and>
      (\<forall>h. handle_valid h \<and> names_resource u h \<and> h \<in> before \<longrightarrow>
         names_resource v h \<and> slots v ! handle_slot h = slots u ! handle_slot h) \<and>
      (\<forall>h. handle_valid h \<and> names_resource v h \<longrightarrow>
         names_resource u h \<and> (h \<in> before \<or> is_closing (slot_state (slots v ! handle_slot h)))) \<and>
      (e \<noteq> None \<longrightarrow> e' = e) \<and>
      result = (if \<forall>h. handle_valid h \<and> names_resource v h \<longrightarrow> h \<in> before
        then Ready (case e' of None \<Rightarrow> Inr () | Some error \<Rightarrow> Inl error) else Pending))"
proof -
  obtain result e' v y where run: "poll_close_added H before e (u, x) = (Inr (result, e'), (v, y))"
    and v: "table_ok H v" "untouched before u v" "asked before (occupied u) u v" "rollback_answer before e v result e'"
    using poll_close_added_spec [OF assms, of before e x] by (auto simp: wp_def split: prod.splits sum.splits)
  have closing: "is_closing (slot_state (slots v ! handle_slot h))"
    if h: "handle_valid h" "names_resource v h" "h \<notin> before" for h
  proof -
    have slot: "handle_slot h \<in> occupied u" "handle_slot h < length (slots v)" "slot_state (slots v ! handle_slot h) \<noteq> Vacant"
      using h(2) v(3) by (auto simp: names_resource_def asked_def)
    have "slot_handle v (handle_slot h) = h"
      using h(1,2) handle_at_valid [OF v(1) slot(2)]
      by (auto intro!: handle.valid_eqI simp: names_resource_def word_unat_eq_iff)
    then have "\<not> is_open (slot_state (slots v ! handle_slot h))"
      using v(3) slot h(3) by (auto simp: asked_def)
    with slot(3) show ?thesis by (cases "slot_state (slots v ! handle_slot h)") auto
  qed
  have "\<forall>h. handle_valid h \<and> names_resource u h \<and> h \<in> before \<longrightarrow>
      names_resource v h \<and> slots v ! handle_slot h = slots u ! handle_slot h"
    using v(2) by (auto simp: untouched_def)
  moreover have "\<forall>h. handle_valid h \<and> names_resource v h \<longrightarrow>
      names_resource u h \<and> (h \<in> before \<or> is_closing (slot_state (slots v ! handle_slot h)))"
    using v(3) closing unfolding asked_def by blast
  moreover have "e \<noteq> None \<longrightarrow> e' = e" "result = (if \<forall>h. handle_valid h \<and> names_resource v h \<longrightarrow> h \<in> before
      then Ready (case e' of None \<Rightarrow> Inr () | Some error \<Rightarrow> Inl error) else Pending)"
    using v(4) by (auto simp: rollback_answer_def)
  ultimately show ?thesis using live_handles_eq [OF assms, of x] run by blast
qed

theorem close_added_spares_snapshot_witness:
  "\<exists>v. poll_close_added plain_host {sample_handle} None (sample_open, ()) = (Inr (Ready (Inr ()), None), (v, ())) \<and>
     names_resource v sample_handle"
proof -
  obtain result e' v where run: "poll_close_added plain_host {sample_handle} None (sample_open, ()) = (Inr (result, e'), (v, ()))"
    and v: "names_resource v sample_handle" and small: "\<And>h. handle_valid h \<and> names_resource v h \<Longrightarrow> names_resource sample_open h"
    and result: "result = (if \<forall>h. handle_valid h \<and> names_resource v h \<longrightarrow> h \<in> {sample_handle}
        then Ready (case e' of None \<Rightarrow> Inr () | Some error \<Rightarrow> Inl error) else Pending)"
    using close_added_spares_snapshot [OF sample_open_ok, of "()" "{sample_handle}" None] sample_handle_fields(1) sample_named
    by auto
  have "fst (poll_close_added plain_host {sample_handle} None (sample_open, ())) = Inr (Ready (Inr ()), None)"
    by (simp add: poll_close_added_def live_indices_def own_def self_def and_then_apply sample_live_indices
        close_added_def sample_handle_at sample_live expect_def ok_or_def ok_def get_or_insert_def)
  with run v show ?thesis by auto
qed

text \<open>
  C21. A closed resource keeps its generation until its slot is reused: after a close that is ready at
  once, the slot is vacant under the generation the handle carries, so the handle still resolves to
  it and further calls report that the resource is already closed, not that the handle is stale.
\<close>

theorem closed_handle_not_stale:
  assumes "handle_valid h" and "begin_close H tid h reason (t, w) = (Inr CloseReady, (u, w'))"
  shows "generation (slots u ! handle_slot h) = generation (slots t ! handle_slot h) \<and>
    slot_state (slots u ! handle_slot h) = Vacant \<and>
    resolve_index h (u, w') = (Inr (handle_slot h), (u, w')) \<and>
    begin_close H tid h reason (u, w') = (Inl (Raised (already_closed_error h)), (u, w'))"
proof -
  let ?i = "handle_slot h"
  have "wp (begin_close H tid h reason) (\<lambda>x (u, w'). x = CloseReady \<longrightarrow> handle_arena_id h = arena_id t \<and>
      ?i < length (slots t) \<and> unat (generation (slots t ! ?i)) = unat (handle_generation h) \<and>
      type_id (slots t ! ?i) = tid \<and> u = vacate ?i t) (\<lambda>_ _. True) (t, w)"
    by (auto simp: begin_close_def close_open_slot_def check_type_def resource_begin_close_def wp_simps
        wp_resolve_index assms(1) split: SlotState.splits sum.splits CloseProgress.splits prod.splits)
  from wp_D(1) [OF this assms(2)]
  have u: "handle_arena_id h = arena_id t" "?i < length (slots t)" "u = vacate ?i t"
      "unat (generation (slots t ! ?i)) = unat (handle_generation h)" "type_id (slots t ! ?i) = tid"
    by auto
  have "wp (resolve_index h) (\<lambda>i s. i = ?i \<and> s = (u, w')) (\<lambda>_ _. False) (u, w')"
    using u by (simp add: wp_resolve_index assms(1) vacate_simps)
  moreover have "wp (begin_close H tid h reason) (\<lambda>_ _. False)
      (\<lambda>e s. e = Raised (already_closed_error h) \<and> s = (u, w')) (u, w')"
    using u by (simp add: begin_close_def close_open_slot_def check_type_def wp_simps wp_resolve_index assms(1)
        vacate_simps)
  ultimately show ?thesis
    using u by (auto simp: vacate_simps wp_def split: prod.splits sum.splits)
qed

theorem closed_handle_not_stale_witness:
  "fst (resolve_index sample_handle
     (fst (snd (begin_close plain_host ''File'' sample_handle Requested (sample_open, ()))), ())) = Inr 0"
proof -
  let ?r = "begin_close plain_host ''File'' sample_handle Requested (sample_open, ())"
  have "fst ?r = Inr CloseReady" by code_simp
  then have "?r = (Inr CloseReady, (fst (snd ?r), ()))" by (rule fst_pair_unit)
  from closed_handle_not_stale [OF sample_handle_fields(1) this] show ?thesis by (simp add: sample_handle_fields)
qed

end
