(* ===== verification/OperationProps.thy ===== *)
theory OperationProps
  imports Operations Soundness
begin

text \<open>
  The operation registry keeps its books: the invariant \<open>registry_ok\<close> ties the free list to the
  slots and the pending operations to the capacity, no method panics under it, and the slot clocks
  only advance. Every method that is given an id works on the slot the id names and on no other.
\<close>

section \<open>The invariant\<close>

definition op_slot_ok :: "('d, 'k) OperationSlot \<Rightarrow> bool" where
  "op_slot_ok s \<longleftrightarrow> 0 < unat (op_generation s) \<and> unat (op_generation s) \<le> unat MAX_GENERATION \<and>
     (case operation s of None \<Rightarrow> True | Some p \<Rightarrow> is_terminal (status p) \<longrightarrow> cleanup p = None)"

definition registry_ok :: "('d, 'k) OperationRegistry \<Rightarrow> bool" where
  "registry_ok r \<longleftrightarrow>
     0 < unat (tag r) \<and> unat (tag r) \<le> unat MAX_REGISTRY_TAG \<and> 0 < max_pending r \<and>
     length (op_slots r) \<le> unat MAX_SLOT_IDENTITY \<and> (\<forall>s \<in> set (op_slots r). op_slot_ok s) \<and>
     distinct (free r) \<and> (\<forall>i \<in> set (free r). i < length (op_slots r) \<and> operation (op_slots r ! i) = None) \<and>
     (\<forall>i < length (op_slots r). operation (op_slots r ! i) = None \<and> i \<notin> set (free r) \<longrightarrow>
        op_generation (op_slots r ! i) = MAX_GENERATION) \<and>
     active_count r \<le> max_pending r"

text \<open>
  The clock of a slot that waits on the free list reads one more than twice its generation; it
  advances by one when the slot is occupied and by one when it is released under the next
  generation or retires. A slot that does not exist yet reads one.
\<close>

definition registry_clock :: "('d, 'k) OperationRegistry \<Rightarrow> nat \<Rightarrow> nat" where
  "registry_clock r i =
     (if i < length (op_slots r)
      then 2 * unat (op_generation (op_slots r ! i)) +
        (if operation (op_slots r ! i) \<noteq> None then 2 else if i \<in> set (free r) then 1 else 3)
      else 1)"

definition names_operation :: "('d, 'k) OperationRegistry \<Rightarrow> OperationId \<Rightarrow> bool" where
  "names_operation r op \<longleftrightarrow> tag r = id_registry_tag op \<and> id_slot op < length (op_slots r) \<and>
     operation (op_slots r ! id_slot op) \<noteq> None \<and>
     op_generation (op_slots r ! id_slot op) = id_generation op"

definition registry_inv :: "('d, 'k) OperationRegistry \<times> 'w \<Rightarrow> bool" where
  "registry_inv s \<longleftrightarrow> registry_ok (fst s)"

definition registry_ages :: "('d, 'k) OperationRegistry \<times> 'w \<Rightarrow> ('d, 'k) OperationRegistry \<times> 'w \<Rightarrow> bool" where
  "registry_ages s u \<longleftrightarrow> ages tag registry_clock (fst s) (fst u)"

text \<open>A calm method lets no new operation in, revives none and leaves the seal as it is.\<close>

definition registry_calm :: "('d, 'k) OperationRegistry \<times> 'w \<Rightarrow> ('d, 'k) OperationRegistry \<times> 'w \<Rightarrow> bool" where
  "registry_calm s u \<longleftrightarrow> registry_ages s u \<and> sealed (fst u) = sealed (fst s) \<and>
     active_count (fst u) \<le> active_count (fst s) \<and>
     (\<forall>op. names_operation (fst u) op \<longrightarrow> names_operation (fst s) op)"

section \<open>Moves of one slot\<close>

lemma with_operation_simps [simp]:
  "length (op_slots (with_operation i o' r)) = length (op_slots r)"
  "tag (with_operation i o' r) = tag r" "max_pending (with_operation i o' r) = max_pending r"
  "sealed (with_operation i o' r) = sealed r" "free (with_operation i o' r) = free r"
  "i < length (op_slots r) \<Longrightarrow> op_slots (with_operation i o' r) ! i = (op_slots r ! i)\<lparr>operation := o'\<rparr>"
  "j \<noteq> i \<Longrightarrow> op_slots (with_operation i o' r) ! j = op_slots r ! j"
  "i < length (op_slots r) \<Longrightarrow> with_operation i o' (with_operation i o'' r) = with_operation i o' r"
  by (simp_all add: with_operation_def)

lemma with_operation_same [simp]: "operation (op_slots r ! i) = o' \<Longrightarrow> with_operation i o' r = r"
  by (auto simp: with_operation_def)

lemma released_with_operation [simp]: "i < length (op_slots r) \<Longrightarrow> released i (with_operation i o' r) = released i r"
  by (simp add: released_def Let_def) (simp add: with_operation_def)

lemma released_simps:
  assumes "i < length (op_slots r)"
  shows "tag (released i r) = tag r" "max_pending (released i r) = max_pending r" "sealed (released i r) = sealed r"
    "length (op_slots (released i r)) = length (op_slots r)"
    "operation (op_slots (released i r) ! i) = None"
    "j \<noteq> i \<Longrightarrow> op_slots (released i r) ! j = op_slots r ! j"
    "op_generation (op_slots (released i r) ! i) =
       (if op_generation (op_slots r ! i) < MAX_GENERATION then op_generation (op_slots r ! i) + 1
        else op_generation (op_slots r ! i))"
    "free (released i r) = (if op_generation (op_slots r ! i) < MAX_GENERATION then free r @ [i] else free r)"
  using assms by (simp_all add: released_def Let_def)

inductive op_move :: "nat \<Rightarrow> ('d, 'k) OperationRegistry \<Rightarrow> ('d, 'k) OperationRegistry \<Rightarrow> bool" for i r where
  stays: "op_move i r r"
| changed: "i < length (op_slots r) \<Longrightarrow> operation (op_slots r ! i) = Some p \<Longrightarrow>
     status q = status p \<and> cleanup q = cleanup p \<or>
       \<not> is_terminal (status p) \<and> is_terminal (status q) \<and> cleanup q = None \<Longrightarrow>
     op_move i r (with_operation i (Some q) r)"
| freed: "i < length (op_slots r) \<Longrightarrow> operation (op_slots r ! i) \<noteq> None \<Longrightarrow> op_move i r (released i r)"

lemma filter_update_le:
  assumes "i < length xs" and "P x \<Longrightarrow> P (xs ! i)"
  shows "length (filter P (xs[i := x])) \<le> length (filter P xs)"
  unfolding length_filter_conv_card
  by (rule card_mono) (use assms in \<open>auto simp: nth_list_update split: if_splits\<close>)

lemma op_move_length: "op_move i r u \<Longrightarrow> length (op_slots u) = length (op_slots r) \<and> tag u = tag r \<and> sealed u = sealed r"
  by (cases rule: op_move.cases) (auto simp: released_simps)

lemma op_move_others: "op_move i r u \<Longrightarrow> j \<noteq> i \<Longrightarrow> op_slots u ! j = op_slots r ! j"
  by (cases rule: op_move.cases) (auto simp: released_simps)


lemma op_move_active: "op_move i r u \<Longrightarrow> active_count u \<le> active_count r"
proof (induction rule: op_move.induct)
  case (changed p q)
  then show ?case
    unfolding active_count_def with_operation_def by (auto intro!: filter_update_le)
next
  case freed
  then show ?case by (auto simp: active_count_def released_def Let_def intro!: filter_update_le)
qed simp

lemma unat_next_generation: "g < MAX_GENERATION \<Longrightarrow> unat (g + 1) = Suc (unat g)"
  by (simp add: word_less_nat_alt id_limits unat_word_ariths)

lemma op_move_ok:
  assumes "op_move i r u" and "registry_ok r"
  shows "registry_ok u"
  using assms(1)
proof cases
  case (changed p q)
  then have "op_slot_ok (op_slots r ! i)" using assms(2) by (simp add: registry_ok_def)
  then have "op_slot_ok ((op_slots r ! i)\<lparr>operation := Some q\<rparr>)"
    using changed by (auto simp: op_slot_ok_def)
  moreover have "op_slots u = (op_slots r)[i := (op_slots r ! i)\<lparr>operation := Some q\<rparr>]"
    using changed by (simp add: with_operation_def)
  ultimately show ?thesis
    using assms(2) changed op_move_active [OF assms(1)]
    by (auto simp: registry_ok_def nth_list_update split: if_splits
        dest!: set_update_subset_insert [THEN subsetD])
next
  case freed
  define s where "s = op_slots (released i r) ! i"
  have i: "i < length (op_slots r)" by fact
  have before: "op_slot_ok (op_slots r ! i)" using assms(2) i by (simp add: registry_ok_def)
  have upd: "op_slots (released i r) = (op_slots r)[i := s]" and vacant: "operation s = None"
    using i by (simp_all add: released_def Let_def s_def)
  have "op_slot_ok s"
    using before by (auto simp: op_slot_ok_def released_simps [OF i] unat_next_generation word_less_nat_alt s_def)
  moreover have "i \<notin> set (free r)" using assms(2) freed by (auto simp: registry_ok_def)
  moreover have "\<not> op_generation (op_slots r ! i) < MAX_GENERATION \<Longrightarrow> op_generation s = MAX_GENERATION"
    using before released_simps(7) [OF i]
    by (simp add: op_slot_ok_def word_less_nat_alt word_unat_eq_iff s_def)
  ultimately show ?thesis
    using assms(2) op_move_active [OF assms(1)] i
    unfolding \<open>u = released i r\<close> registry_ok_def upd released_simps(1,2,3,8) [OF i]
    by (auto simp: vacant nth_list_update dest!: set_update_subset_insert [THEN subsetD] split: if_splits)
qed (use assms(2) in simp)


lemma op_move_ages:
  assumes "op_move i r u" and "registry_ok r"
  shows "ages tag registry_clock r u"
  using assms(1)
proof cases
  case (changed p q)
  then show ?thesis by (auto simp: ages_def registry_clock_def with_operation_def nth_list_update)
next
  case freed
  have "registry_clock r j \<le> registry_clock (released i r) j" for j
  proof (cases "j = i")
    case True
    moreover have "i \<notin> set (free r)" using assms(2) freed by (auto simp: registry_ok_def)
    ultimately show ?thesis
      using freed by (auto simp: registry_clock_def released_simps unat_next_generation)
  next
    case False
    with freed show ?thesis by (auto simp: registry_clock_def released_simps)
  qed
  with freed show ?thesis by (simp add: ages_def released_simps)
qed (simp add: ages_refl)


lemma op_move_names: "op_move i r u \<Longrightarrow> names_operation u op \<Longrightarrow> names_operation r op"
  by (cases rule: op_move.cases) (auto simp: names_operation_def with_operation_def released_def Let_def nth_list_update
      split: if_splits)

lemma op_move_calm: "op_move i r u \<Longrightarrow> registry_ok r \<Longrightarrow> registry_calm (r, w) (u, w')"
  using op_move_ages [of i r u] op_move_length [of i r u] op_move_active [of i r u] op_move_names [of i r u]
  by (simp add: registry_calm_def registry_ages_def)

interpretation registry_frame: preserving registry_inv registry_ages
  by unfold_locales (auto simp: registry_ages_def intro: ages_refl ages_trans)

interpretation op_calm: preserving registry_inv registry_calm
  by unfold_locales (auto simp: registry_calm_def registry_ages_def intro: ages_refl ages_trans)

lemma op_calm_sound: "sound registry_inv registry_calm m \<Longrightarrow> sound registry_inv registry_ages m"
  by (erule sound_mono) (simp add: registry_calm_def)

interpretation op_stale: generations tag registry_clock names_operation id_registry_tag id_slot
  "\<lambda>op. Suc (unat (id_generation op))"
proof
  fix r :: "('d, 'k) OperationRegistry" and op
  show "names_operation r op \<longleftrightarrow> tag r = id_registry_tag op \<and>
      registry_clock r (id_slot op) = 2 * Suc (unat (id_generation op))"
    by (auto simp: names_operation_def registry_clock_def word_unat_eq_iff) presburger+
qed

section \<open>What the methods do to the named slot\<close>

lemma wp_op_slot_at [wp_simps]:
  "wp (op_slot_at i) Q E (r, w) =
     (if i < length (op_slots r) then Q (op_slots r ! i) (r, w) else E Panicked (r, w))"
  by (simp add: op_slot_at_def wp_simps vec_get_def)

lemma wp_occupant [wp_simps]:
  "wp (occupant i) Q E (r, w) =
     (if i < length (op_slots r) then Q (operation (op_slots r ! i)) (r, w) else E Panicked (r, w))"
  by (simp add: occupant_def wp_simps)

lemma wp_set_operation [wp_simps]:
  "wp (set_operation i o') Q E (r, w) =
     (if i < length (op_slots r) then Q () (with_operation i o' r, w) else E Panicked (r, w))"
  by (simp add: set_operation_def wp_simps)

lemma wp_release_slot [wp_simps]:
  "wp (release_slot i) Q E (r, w) =
     (if i < length (op_slots r) then Q () (released i r, w) else E Panicked (r, w))"
  by (simp add: release_slot_def wp_simps)

lemma wp_call_driver [wp_simps]:
  "wp (call_driver i f) Q E (r, w) =
     (if i < length (op_slots r) then
        case operation (op_slots r ! i) of
          None \<Rightarrow> E Panicked (r, w)
        | Some p \<Rightarrow> (case f (driver p) w of (x, d, w') \<Rightarrow> Q x (with_operation i (Some (p\<lparr>driver := d\<rparr>)) r, w'))
      else E Panicked (r, w))"
  by (simp add: call_driver_def wp_simps split: option.splits prod.splits)

definition location_error :: "('d, 'k) OperationRegistry \<Rightarrow> OperationId \<Rightarrow> OperationError" where
  "location_error r op =
     (if id_registry_tag op \<noteq> tag r then operation_wrong_registry op
      else if id_slot op \<ge> length (op_slots r) then operation_not_found op
      else if id_generation op > op_generation (op_slots r ! id_slot op) then operation_not_found op
      else operation_stale op)"

lemma wp_location:
  assumes "id_valid op"
  shows "wp (location op) Q E (r, w) =
    (if names_operation r op then Q (id_slot op) (r, w) else E (Raised (location_error r op)) (r, w))"
  by (cases "id_generation op" "op_generation (op_slots r ! id_slot op)" rule: linorder_cases)
     (auto simp: location_def wp_simps id_slot_index_valid assms names_operation_def location_error_def)

lemma names_simps [simp]:
  assumes "names_operation r op"
  shows "id_slot op < length (op_slots r)"
    "names_operation (with_operation (id_slot op) (Some p) r) op"
    "\<not> names_operation (with_operation (id_slot op) None r) op"
    "\<not> names_operation (released (id_slot op) r) op"
  using assms by (auto simp: names_operation_def released_simps)

lemma named_occupant:
  assumes "names_operation r op"
  obtains p where "operation (op_slots r ! id_slot op) = Some p"
  using assms by (auto simp: names_operation_def)


definition cleanup_error :: "OperationError \<Rightarrow> OperationError" where
  "cleanup_error error = operation_error OperationCleanupFailed (operation_error_display error)"

lemma wp_finish_terminal:
  assumes "id_valid op" and "names_operation r op"
  shows "wp (finish_terminal H op st outcome) Q E (r, w) =
    (case operation (op_slots r ! id_slot op) of
       None \<Rightarrow> Q False (r, w)
     | Some p \<Rightarrow>
         if is_terminal (status p) then Q False (r, w)
         else case cleanup p of
           None \<Rightarrow> Q True (with_operation (id_slot op) (Some (p\<lparr>status := st, cleanup := None\<rparr>)) r, w)
         | Some k \<Rightarrow> (case run_cleanup_fn H k outcome w of
               (Inr _, w') \<Rightarrow> Q True (with_operation (id_slot op) (Some (p\<lparr>status := st, cleanup := None\<rparr>)) r, w')
             | (Inl e, w') \<Rightarrow> E (Raised (cleanup_error e)) (with_operation (id_slot op)
                 (Some (p\<lparr>cleanup := None, status := StatusFailed (cleanup_error e)\<rparr>)) r, w')))"
  using assms
  by (auto simp: finish_terminal_def run_cleanup_def cleanup_error_def wp_simps wp_location Let_def
      split: option.splits sum.splits prod.splits)

lemma wp_consume_terminal [wp_simps]:
  "wp (consume_terminal i) Q E (r, w) =
     (if i < length (op_slots r) then
        case Option.bind (operation (op_slots r ! i)) (\<lambda>p. terminal_outcome (status p)) of
          None \<Rightarrow> E Panicked (r, w)
        | Some outcome \<Rightarrow> Q outcome (released i r, w)
      else E Panicked (r, w))"
  by (simp add: consume_terminal_def wp_simps split: option.splits)

lemma wp_poll_terminal [wp_simps]:
  "wp (poll_terminal H i) Q E (r, w) =
     (if i < length (op_slots r) then
        case operation (op_slots r ! i) of
          None \<Rightarrow> E Panicked (r, w)
        | Some p \<Rightarrow> (case poll_quiescent_fn H (driver p) w of
            (quiescent, d, w') \<Rightarrow> (case quiescent of
                Pending \<Rightarrow> Q Pending (with_operation i (Some (p\<lparr>driver := d\<rparr>)) r, w')
              | Ready _ \<Rightarrow> (case terminal_outcome (status p) of
                  None \<Rightarrow> E Panicked (with_operation i (Some (p\<lparr>driver := d\<rparr>)) r, w')
                | Some outcome \<Rightarrow> Q (Ready outcome) (released i r, w'))))
      else E Panicked (r, w))"
  by (auto simp: poll_terminal_def wp_simps split: option.splits prod.splits Poll.splits)

lemma terminal_outcome_iff [simp]: "terminal_outcome st = None \<longleftrightarrow> \<not> is_terminal st"
  by (cases st) auto

text \<open>
  A method on an id: if the id names nothing, it fails with the error of \<open>location\<close> and changes
  nothing; otherwise it moves the named slot, without a panic.
\<close>

definition id_method :: "OperationId \<Rightarrow> ('d, 'k, 'w, 'a) RegistryMethod \<Rightarrow> bool" where
  "id_method op m \<longleftrightarrow> (\<forall>r w. registry_ok r \<longrightarrow>
     (names_operation r op \<longrightarrow>
        wp m (\<lambda>_ (u, w'). op_move (id_slot op) r u) (\<lambda>e (u, w'). e \<noteq> Panicked \<and> op_move (id_slot op) r u) (r, w)) \<and>
     (\<not> names_operation r op \<longrightarrow> m (r, w) = (Inl (Raised (location_error r op)), (r, w))))"

lemma id_methodI:
  fixes m :: "('d, 'k, 'w, 'a) RegistryMethod"
  assumes "id_valid op" and "m = and_then (location op) f"
    and "\<And>r p w. registry_ok r \<Longrightarrow> names_operation r op \<Longrightarrow> operation (op_slots r ! id_slot op) = Some p \<Longrightarrow>
      wp m (\<lambda>_ (u, w'). op_move (id_slot op) r u) (\<lambda>e (u, w'). e \<noteq> Panicked \<and> op_move (id_slot op) r u) (r, w)"
  shows "id_method op m"
  unfolding id_method_def
proof (intro allI impI)
  fix r :: "('d, 'k) OperationRegistry" and w :: 'w
  assume ok: "registry_ok r"
  have "m (r, w) = (Inl (Raised (location_error r op)), (r, w))" if "\<not> names_operation r op"
  proof -
    have "wp m (\<lambda>_ _. False) (\<lambda>e s. e = Raised (location_error r op) \<and> s = (r, w)) (r, w)"
      using that by (simp add: assms(2) wp_and_then wp_location assms(1))
    then show ?thesis by (auto simp: wp_def split: prod.splits sum.splits)
  qed
  moreover have "wp m (\<lambda>_ (u, w'). op_move (id_slot op) r u)
      (\<lambda>e (u, w'). e \<noteq> Panicked \<and> op_move (id_slot op) r u) (r, w)" if named: "names_operation r op"
    by (rule named_occupant [OF named]) (rule assms(3) [OF ok named])
  ultimately show "(names_operation r op \<longrightarrow>
        wp m (\<lambda>_ (u, w'). op_move (id_slot op) r u) (\<lambda>e (u, w'). e \<noteq> Panicked \<and> op_move (id_slot op) r u) (r, w)) \<and>
      (\<not> names_operation r op \<longrightarrow> m (r, w) = (Inl (Raised (location_error r op)), (r, w)))"
    by blast
qed

lemma id_methodD:
  assumes "id_method op m" and "registry_ok r"
  shows "names_operation r op \<Longrightarrow>
      wp m (\<lambda>_ (u, w'). op_move (id_slot op) r u) (\<lambda>e (u, w'). e \<noteq> Panicked \<and> op_move (id_slot op) r u) (r, w)"
    and "\<not> names_operation r op \<Longrightarrow> m (r, w) = (Inl (Raised (location_error r op)), (r, w))"
  using assms unfolding id_method_def by blast+

lemma operation_status_id: "id_valid op \<Longrightarrow> id_method op (operation_status op)"
  by (rule id_methodI [OF _ operation_status_def]) (auto simp: operation_status_def wp_simps wp_location op_move.intros)

lemma take_outcome_id: "id_valid op \<Longrightarrow> id_method op (take_outcome H op)"
  by (rule id_methodI [OF _ take_outcome_def]) (auto simp: take_outcome_def wp_simps wp_location op_move.intros split: option.splits prod.splits)

lemma take_outcome_after_cancel_and_wait_id: "id_valid op \<Longrightarrow> id_method op (take_outcome_after_cancel_and_wait op)"
  by (rule id_methodI [OF _ take_outcome_after_cancel_and_wait_def])
     (auto simp: take_outcome_after_cancel_and_wait_def wp_simps wp_location op_move.intros split: option.splits)

lemma registry_remove_id: "id_valid op \<Longrightarrow> id_method op (registry_remove H op)"
  by (rule id_methodI [OF _ registry_remove_def])
     (auto simp: registry_remove_def wp_simps wp_location op_move.intros split: option.splits prod.splits)

lemma registry_poll_quiescent_id: "id_valid op \<Longrightarrow> id_method op (registry_poll_quiescent H op)"
  by (rule id_methodI [OF _ registry_poll_quiescent_def])
     (auto simp: registry_poll_quiescent_def wp_simps wp_location op_move.intros split: option.splits prod.splits Poll.splits)


text \<open>The named operation has become terminal: its cleanup is taken, its deadline is kept.\<close>

definition settled_as ::
  "OperationId \<Rightarrow> OperationStatus \<Rightarrow> ('d, 'k) OperationRegistry \<Rightarrow> ('d, 'k) OperationRegistry \<Rightarrow> bool" where
  "settled_as op st r u \<longleftrightarrow> (\<exists>q. u = with_operation (id_slot op) (Some q) r \<and> status q = st \<and> cleanup q = None)"

lemma settledI: "status q = st \<Longrightarrow> cleanup q = None \<Longrightarrow> settled_as op st r (with_operation (id_slot op) (Some q) r)"
  by (auto simp: settled_as_def)

lemma settled_move:
  assumes "settled_as op st r u" and "names_operation r op" and "is_terminal st"
    and "operation (op_slots r ! id_slot op) = Some p" and "\<not> is_terminal (status p)"
  shows "op_move (id_slot op) r u"
  using assms by (auto simp: settled_as_def intro!: op_move.changed)

lemma finish_terminal_settles:
  assumes "id_valid op" and "names_operation r op" and "operation (op_slots r ! id_slot op) = Some p"
    and "\<not> is_terminal (status p)"
  shows "wp (finish_terminal H op st outcome) (\<lambda>x (u, w'). x \<and> settled_as op st r u)
    (\<lambda>e (u, w'). \<exists>f. e = Raised (cleanup_error f) \<and> settled_as op (StatusFailed (cleanup_error f)) r u) (r, w)"
  using assms
  by (auto simp: wp_finish_terminal intro!: settledI split: option.splits sum.splits prod.splits)

lemma cancel_with_wait_settles:
  assumes "id_valid op" and "names_operation r op" and "operation (op_slots r ! id_slot op) = Some p"
    and "\<not> is_terminal (status p)"
  shows "wp (cancel_with_wait H op reason wait) (\<lambda>x (u, w'). x \<and> settled_as op (StatusCancelled reason) r u)
    (\<lambda>e (u, w'). \<exists>f. e = Raised f \<and> settled_as op (StatusFailed f) r u) (r, w)"
  using assms
  by (auto simp: cancel_with_wait_def wp_simps wp_location wp_finish_terminal Let_def intro!: settledI
      split: option.splits sum.splits prod.splits)

lemma cancel_with_wait_terminal:
  assumes "id_valid op" and "names_operation r op" and "operation (op_slots r ! id_slot op) = Some p"
    and "is_terminal (status p)"
  shows "cancel_with_wait H op reason wait (r, w) = (Inr False, (r, w))"
proof -
  have "wp (cancel_with_wait H op reason wait) (\<lambda>x s. x = False \<and> s = (r, w)) (\<lambda>_ _. False) (r, w)"
    using assms by (auto simp: cancel_with_wait_def wp_simps wp_location)
  then show ?thesis by (auto simp: wp_def split: prod.splits sum.splits)
qed

lemma finish_terminal_id: "id_valid op \<Longrightarrow> is_terminal st \<Longrightarrow> id_method op (finish_terminal H op st outcome)"
  by (rule id_methodI [OF _ finish_terminal_def])
     (auto simp: wp_finish_terminal intro!: op_move.intros split: option.splits sum.splits prod.splits)

lemma complete_id: "id_valid op \<Longrightarrow> id_method op (complete H op)"
  and fail_id: "id_valid op \<Longrightarrow> id_method op (fail H op error)"
  by (simp_all add: complete_def fail_def finish_terminal_id)

lemma cancel_with_wait_id:
  fixes H :: "('d, 'k, 'w) HostOperation"
  shows "id_valid op \<Longrightarrow> id_method op (cancel_with_wait H op reason wait)"
proof (rule id_methodI [OF _ cancel_with_wait_def])
  fix r :: "('d, 'k) OperationRegistry" and p and w :: 'w
  assume *: "id_valid op" "names_operation r op" "operation (op_slots r ! id_slot op) = Some p"
  show "wp (cancel_with_wait H op reason wait) (\<lambda>_ (u, w'). op_move (id_slot op) r u)
      (\<lambda>e (u, w'). e \<noteq> Panicked \<and> op_move (id_slot op) r u) (r, w)"
  proof (cases "is_terminal (status p)")
    case True
    with * show ?thesis by (simp add: wp_def cancel_with_wait_terminal op_move.stays)
  next
    case False
    with * show ?thesis
      by (intro wp_use [OF cancel_with_wait_settles]) (auto intro: settled_move)
  qed
qed

lemma cancel_id: "id_valid op \<Longrightarrow> id_method op (cancel H op reason)"
  by (simp add: cancel_def cancel_with_wait_id)

text \<open>A settled operation can be consumed.\<close>

lemma settled_names: "settled_as op st r u \<Longrightarrow> names_operation r op \<Longrightarrow> names_operation u op"
  by (auto simp: settled_as_def)

lemma settled_occupant:
  assumes "settled_as op st r u" and "names_operation r op"
  obtains q where "operation (op_slots u ! id_slot op) = Some q" "status q = st"
    "released (id_slot op) u = released (id_slot op) r"
    "\<And>d. with_operation (id_slot op) (Some (q\<lparr>driver := d\<rparr>)) u = with_operation (id_slot op) (Some (q\<lparr>driver := d\<rparr>)) r"
  using assms by (auto simp: settled_as_def)

lemma abort_pending:
  assumes "id_valid op" and "names_operation r op" and "operation (op_slots r ! id_slot op) = Some p"
    and "\<not> is_terminal (status p)"
  shows "wp (abort H op reason) (\<lambda>x (u, w'). x \<and> u = released (id_slot op) r)
    (\<lambda>e (u, w'). e \<noteq> Panicked \<and> u = released (id_slot op) r) (r, w)"
proof -
  have taken: "wp (take_outcome_after_cancel_and_wait op) Q E (u, w')"
    if "settled_as op st r u" "is_terminal st" "\<And>x. Q x (released (id_slot op) r, w')" for Q E u w' st
    using that assms(1,2) settled_names [OF that(1) assms(2)]
    by (auto simp: take_outcome_after_cancel_and_wait_def wp_simps wp_location elim!: settled_occupant split: option.splits)
  have "is_pending (Some p)" using assms(4) by simp
  then show ?thesis
    using assms(1-3) unfolding abort_def wp_simps
    by (simp add: wp_simps wp_location del: is_pending.simps)
       (rule wp_use [OF cancel_with_wait_settles [OF assms]]; auto intro!: taken simp: wp_simps)
qed

lemma abort_terminal:
  assumes "id_valid op" and "names_operation r op" and "operation (op_slots r ! id_slot op) = Some p"
    and "is_terminal (status p)"
  shows "wp (abort H op reason) Q E (r, w) =
    (case is_quiescent_fn H (driver p) w of (quiescent, w') \<Rightarrow>
       if quiescent then Q False (released (id_slot op) r, w') else E (Raised (pending_outcome op)) (r, w'))"
proof -
  have "cancel_with_wait H op reason True (r, w) = (Inr False, (r, w))"
    by (rule cancel_with_wait_terminal [OF assms])
  then have "wp (cancel_with_wait H op reason True) Q E (r, w) = Q False (r, w)" for Q E
    by (simp add: wp_def)
  then show ?thesis
    using assms by (auto simp: abort_def take_outcome_def wp_simps wp_location split: option.splits prod.splits)
qed

lemma abort_id:
  fixes H :: "('d, 'k, 'w) HostOperation"
  shows "id_valid op \<Longrightarrow> id_method op (abort H op reason)"
proof (rule id_methodI [OF _ abort_def])
  fix r :: "('d, 'k) OperationRegistry" and p and w :: 'w
  assume *: "id_valid op" "names_operation r op" "operation (op_slots r ! id_slot op) = Some p"
  show "wp (abort H op reason) (\<lambda>_ (u, w'). op_move (id_slot op) r u)
      (\<lambda>e (u, w'). e \<noteq> Panicked \<and> op_move (id_slot op) r u) (r, w)"
  proof (cases "is_terminal (status p)")
    case True
    with * show ?thesis by (auto simp: abort_terminal intro!: op_move.intros split: prod.splits)
  next
    case False
    with * show ?thesis
      by (intro wp_use [OF abort_pending]) (auto intro: op_move.freed)
  qed
qed

text \<open>Polling after the operation has settled.\<close>

definition drained ::
  "OperationId \<Rightarrow> OperationStatus \<Rightarrow> ('d, 'k) OperationRegistry \<Rightarrow> OperationOutcome Poll \<Rightarrow> ('d, 'k) OperationRegistry \<Rightarrow> bool" where
  "drained op st r result u \<longleftrightarrow> (case result of
       Ready outcome \<Rightarrow> terminal_outcome st = Some outcome \<and> u = released (id_slot op) r
     | Pending \<Rightarrow> settled_as op st r u)"

lemma settled_again:
  "settled_as op st (with_operation (id_slot op) (Some q) r) u \<Longrightarrow> names_operation r op \<Longrightarrow> settled_as op st r u"
  by (auto simp: settled_as_def)

lemma poll_terminal_drains:
  assumes "settled_as op st r u" and "names_operation r op" and "is_terminal st"
    and "\<And>result v w'. drained op st r result v \<Longrightarrow> Q result (v, w')"
  shows "wp (poll_terminal H (id_slot op)) Q E (u, w)"
proof -
  obtain q where u: "u = with_operation (id_slot op) (Some q) r" and q: "status q = st" "cleanup q = None"
    using assms(1) by (auto simp: settled_as_def)
  show ?thesis
    using assms(2,3) q
    by (auto simp: u wp_poll_terminal drained_def intro!: assms(4) settledI
        split: option.splits prod.splits Poll.splits)
qed

lemma finish_then_poll_drains:
  assumes "id_valid op" and "names_operation r op" and "operation (op_slots r ! id_slot op) = Some p"
    and "\<not> is_terminal (status p)" and "is_terminal st"
    and "\<And>st' result v w'. st' = st \<or> (\<exists>f. st' = StatusFailed (cleanup_error f)) \<Longrightarrow> drained op st' r result v \<Longrightarrow> Q result (v, w')"
  shows "wp (then_do (attempt (finish_terminal H op st outcome)) (and_then (location op) (poll_terminal H))) Q E (r, w)"
proof -
  have drains: "wp (location op) (\<lambda>x. wp (poll_terminal H x) Q E) E (u, w')"
    if "settled_as op st' r u" "is_terminal st'" "st' = st \<or> (\<exists>f. st' = StatusFailed (cleanup_error f))" for st' u w'
    using settled_names [OF that(1) assms(2)] that assms(1)
    by (simp add: wp_location) (rule poll_terminal_drains [OF that(1) assms(2) that(2)], rule assms(6))
  have failed: "wp (location op) (\<lambda>x. wp (poll_terminal H x) Q E) E (u, w')"
    if "settled_as op (StatusFailed (cleanup_error f)) r u" for f u w'
    by (rule drains [OF that]) auto
  show ?thesis
    unfolding wp_simps
    by (rule wp_use [OF finish_terminal_settles [OF assms(1-4)]]) (use assms(5) drains [of st] failed in auto)
qed

lemma poll_after_deadline_drains:
  assumes "id_valid op" and "names_operation r op" and "operation (op_slots r ! id_slot op) = Some p"
    and "\<not> is_terminal (status p)"
    and "\<And>st' result v w'. st' = StatusCancelled CancelDeadline \<or> (\<exists>f. st' = StatusFailed f) \<Longrightarrow>
      drained op st' r result v \<Longrightarrow> Q result (v, w')"
  shows "wp (poll_after_deadline H op) Q E (r, w)"
proof -
  have drains: "wp (poll_after_deadline H op) Q E (r, w)"
    if "poll_after_deadline H op = then_do (attempt (cancel H op CancelDeadline)) (and_then (location op) f)"
      "\<And>st u w'. settled_as op st r u \<Longrightarrow> is_terminal st \<Longrightarrow> st = StatusCancelled CancelDeadline \<or> (\<exists>f. st = StatusFailed f) \<Longrightarrow>
        wp (f (id_slot op)) Q E (u, w')" for f
    unfolding that(1) wp_simps cancel_def
    by (rule wp_use [OF cancel_with_wait_settles [OF assms(1-4)]])
       (use assms(1,2) in \<open>auto simp: wp_location settled_names intro!: that(2)\<close>)
  show ?thesis
  proof (rule drains [OF poll_after_deadline_def])
    fix st u and w' :: 'c
    assume st: "settled_as op st r u" "is_terminal st" "st = StatusCancelled CancelDeadline \<or> (\<exists>f. st = StatusFailed f)"
    obtain q where u: "u = with_operation (id_slot op) (Some q) r" and q: "status q = st" "cleanup q = None"
      using st(1) by (auto simp: settled_as_def)
    show "wp (and_then (occupant (id_slot op)) (\<lambda>o'.
        and_then (case o' of None \<Rightarrow> ok (Ready ()) | Some _ \<Rightarrow> call_driver (id_slot op) (poll_quiescent_fn H)) (\<lambda>quiescent.
        case quiescent of
          Ready _ \<Rightarrow> and_then (consume_terminal (id_slot op)) (\<lambda>outcome. ok (Ready outcome))
        | Pending \<Rightarrow> ok Pending))) Q E (u, w')"
      using assms(2) st(2,3) q
      by (auto simp: u wp_simps drained_def intro!: assms(5) [of st] settledI
          split: option.splits prod.splits Poll.splits)
  qed
qed


text \<open>
  What one poll of a pending operation comes to: the driver's own end wins over the deadline, and
  a deadline that has passed cancels.
\<close>

definition poll_verdict ::
  "('d, 'k, 'w) HostOperation \<Rightarrow> ('d, 'k) Operation \<Rightarrow> 'w \<Rightarrow> OperationStatus \<Rightarrow> bool" where
  "poll_verdict H p w st \<longleftrightarrow> (case poll_fn H (driver p) w of
       (Ready (Inr _), _, _) \<Rightarrow> st = StatusCompleted \<or> (\<exists>f. st = StatusFailed (cleanup_error f))
     | (Ready (Inl e), _, _) \<Rightarrow> st = StatusFailed e \<or> (\<exists>f. st = StatusFailed (cleanup_error f))
     | (Pending, _, w') \<Rightarrow> (\<exists>at. deadline p = Some at \<and> at \<le> fst (now_fn H w')) \<and>
         (st = StatusCancelled CancelDeadline \<or> (\<exists>f. st = StatusFailed f)))"

lemma drained_again:
  "drained op st (with_operation (id_slot op) (Some q) r) result u \<Longrightarrow> names_operation r op \<Longrightarrow> drained op st r result u"
  by (auto simp: drained_def settled_again split: Poll.splits)

lemma registry_poll_pending:
  assumes "id_valid op" and "names_operation r op" and "operation (op_slots r ! id_slot op) = Some p"
    and "\<not> is_terminal (status p)"
  shows "wp (registry_poll H op) (\<lambda>result (u, w').
      (\<exists>st. poll_verdict H p w st \<and> drained op st r result u) \<or>
      result = Pending \<and> (\<exists>d. u = with_operation (id_slot op) (Some (p\<lparr>driver := d\<rparr>)) r)) (\<lambda>_ _. False) (r, w)"
proof -
  obtain res d w1 where polled: "poll_fn H (driver p) w = (res, d, w1)" by (metis surj_pair)
  let ?r = "with_operation (id_slot op) (Some (p\<lparr>driver := d\<rparr>)) r" and ?p = "p\<lparr>driver := d\<rparr>"
  have named: "names_operation ?r op" "operation (op_slots ?r ! id_slot op) = Some ?p" "\<not> is_terminal (status ?p)"
    using assms by simp_all
  define Q where "Q result u \<longleftrightarrow> (\<exists>st. poll_verdict H p w st \<and> drained op st r result u) \<or>
      result = Pending \<and> (\<exists>d. u = with_operation (id_slot op) (Some (p\<lparr>driver := d\<rparr>)) r)" for result u
  have drains: "Q result u" if "poll_verdict H p w st" "drained op st ?r result u" for st result u
    using that drained_again [OF that(2) assms(2)] by (auto simp: Q_def)
  have stays: "Q Pending ?r" by (auto simp: Q_def)
  note finish = finish_then_poll_drains [OF assms(1) named] and late = poll_after_deadline_drains [OF assms(1) named]
  have "wp (registry_poll H op) (\<lambda>result (u, w'). Q result u) (\<lambda>_ _. False) (r, w)"
  proof (cases res)
    case (Ready result)
    then show ?thesis
      using assms polled
      by (cases result) (auto simp: registry_poll_def wp_and_then wp_location wp_occupant wp_call_driver
        poll_verdict_def intro!: finish drains)
  next
    case Pending
    then show ?thesis
      using assms polled
      by (auto simp: registry_poll_def wp_simps wp_location deadline_elapsed_def poll_verdict_def
        intro!: late drains stays split: option.splits prod.splits)
  qed
  then show ?thesis by (simp add: Q_def)
qed


lemma registry_poll_terminal:
  assumes "id_valid op" and "names_operation r op" and "operation (op_slots r ! id_slot op) = Some p"
    and "is_terminal (status p)"
  shows "wp (registry_poll H op) Q E (r, w) = wp (poll_terminal H (id_slot op)) Q E (r, w)"
  using assms by (simp add: registry_poll_def wp_and_then wp_location wp_occupant)

lemma drained_moves:
  assumes "drained op st r result u" and "names_operation r op" and "operation (op_slots r ! id_slot op) = Some p"
    and "is_terminal st" and "\<not> is_terminal (status p)"
  shows "op_move (id_slot op) r u"
  using assms by (auto simp: drained_def intro: op_move.freed settled_move split: Poll.splits)

lemma poll_verdict_terminal: "poll_verdict H p w st \<Longrightarrow> is_terminal st"
  by (auto simp: poll_verdict_def split: prod.splits Poll.splits sum.splits)

lemma registry_poll_id:
  fixes H :: "('d, 'k, 'w) HostOperation"
  shows "id_valid op \<Longrightarrow> id_method op (registry_poll H op)"
proof (rule id_methodI [OF _ registry_poll_def])
  fix r :: "('d, 'k) OperationRegistry" and p and w :: 'w
  assume *: "id_valid op" "names_operation r op" "operation (op_slots r ! id_slot op) = Some p"
  show "wp (registry_poll H op) (\<lambda>_ (u, w'). op_move (id_slot op) r u)
      (\<lambda>e (u, w'). e \<noteq> Panicked \<and> op_move (id_slot op) r u) (r, w)"
  proof (cases "is_terminal (status p)")
    case True
    with * show ?thesis
      by (auto simp: registry_poll_terminal wp_poll_terminal intro!: op_move.intros
          split: option.splits prod.splits Poll.splits)
  next
    case False
    with * show ?thesis
      by (intro wp_use [OF registry_poll_pending])
         (auto intro: drained_moves dest: poll_verdict_terminal intro!: op_move.changed)
  qed
qed

section \<open>Every method is sound\<close>

lemma calm_op_moves:
  fixes m :: "('d, 'k, 'w, 'a) RegistryMethod"
  assumes "\<And>r w. registry_ok r \<Longrightarrow> wp m (\<lambda>_ (u, w'). \<exists>i. op_move i r u)
      (\<lambda>e (u, w'). e \<noteq> Panicked \<and> (\<exists>i. op_move i r u)) (r, w)"
  shows "sound registry_inv registry_calm m"
proof (rule soundI)
  fix s :: "('d, 'k) OperationRegistry \<times> 'w"
  assume inv: "registry_inv s"
  then show "wp m (\<lambda>_ u. registry_inv u \<and> registry_calm s u)
      (\<lambda>e u. e \<noteq> Panicked \<and> registry_inv u \<and> registry_calm s u) s"
    using assms [of "fst s" "snd s"] op_move_ok [of _ "fst s"] op_move_calm [of _ "fst s" _ "snd s"]
    by (auto elim!: wp_use simp: registry_inv_def)
qed

lemma id_method_calm:
  fixes m :: "('d, 'k, 'w, 'a) RegistryMethod"
  assumes "id_method op m"
  shows "sound registry_inv registry_calm m"
proof (rule calm_op_moves)
  fix r :: "('d, 'k) OperationRegistry" and w :: 'w
  assume ok: "registry_ok r"
  show "wp m (\<lambda>_ (u, w'). \<exists>i. op_move i r u) (\<lambda>e (u, w'). e \<noteq> Panicked \<and> (\<exists>i. op_move i r u)) (r, w)"
  proof (cases "names_operation r op")
    case True
    then show ?thesis by (rule wp_use [OF id_methodD(1) [OF assms ok]]) auto
  next
    case False
    then show ?thesis
      unfolding wp_def id_methodD(2) [OF assms ok False] by (auto intro: op_move.stays)
  qed
qed

lemmas id_method_sound = id_method_calm [THEN op_calm_sound]

lemma filter_update_Suc:
  assumes "i < length xs" and "P x" and "\<not> P (xs ! i)"
  shows "length (filter P (xs[i := x])) = Suc (length (filter P xs))"
proof -
  have "{j. j < length xs \<and> P (xs[i := x] ! j)} = insert i {j. j < length xs \<and> P (xs ! j)}"
    using assms by (auto simp: nth_list_update split: if_splits)
  then show ?thesis using assms by (simp add: length_filter_conv_card)
qed

text \<open>A new operation takes the last slot of the free list, or a slot that extends the arena.\<close>

lemma reuse_ok:
  assumes "registry_ok r" and "free r \<noteq> []" and "status p = StatusPending" and "active_count r < max_pending r"
  defines "i \<equiv> last (free r)"
  shows "registry_ok (with_operation i (Some p) (r\<lparr>free := butlast (free r)\<rparr>))"
    and "ages tag registry_clock r (with_operation i (Some p) (r\<lparr>free := butlast (free r)\<rparr>))"
    and "i < length (op_slots r)" and "operation (op_slots r ! i) = None" and "i \<in> set (free r)"
proof -
  show i: "i \<in> set (free r)" using assms(2) by (simp add: i_def)
  then show "i < length (op_slots r)" and vacant: "operation (op_slots r ! i) = None"
    using assms(1) by (auto simp: registry_ok_def)
  note len = \<open>i < length (op_slots r)\<close>
  let ?u = "with_operation i (Some p) (r\<lparr>free := butlast (free r)\<rparr>)"
  have rest: "set (butlast (free r)) = set (free r) - {i}" "distinct (butlast (free r))"
  proof -
    have split: "free r = butlast (free r) @ [i]" using assms(2) by (simp add: i_def)
    have "distinct (butlast (free r) @ [i])" using assms(1) split by (simp add: registry_ok_def)
    moreover have "set (free r) = insert i (set (butlast (free r)))" by (subst split) simp
    ultimately show "set (butlast (free r)) = set (free r) - {i}" "distinct (butlast (free r))" by auto
  qed
  have slots: "op_slots ?u = (op_slots r)[i := (op_slots r ! i)\<lparr>operation := Some p\<rparr>]"
    by (simp add: with_operation_def)
  have "op_slot_ok ((op_slots r ! i)\<lparr>operation := Some p\<rparr>)"
    using assms(1,3) len by (auto simp: registry_ok_def op_slot_ok_def dest: nth_mem)
  moreover have "active_count ?u = Suc (active_count r)"
    unfolding active_count_def slots using len vacant assms(3) by (intro filter_update_Suc) auto
  ultimately show "registry_ok ?u"
    using assms(1,4) unfolding registry_ok_def slots
    by (auto simp: rest nth_list_update len dest!: set_update_subset_insert [THEN subsetD])
  show "ages tag registry_clock r ?u"
    using len vacant i by (auto simp: ages_def registry_clock_def slots nth_list_update rest)
qed

lemma extend_ok:
  assumes "registry_ok r" and "free r = []" and "status p = StatusPending" and "active_count r < max_pending r"
    and "length (op_slots r) < unat MAX_SLOT_IDENTITY"
  defines "u \<equiv> r\<lparr>op_slots := op_slots r @ [\<lparr>op_generation = 1, operation = None\<rparr>]\<rparr>"
  shows "registry_ok (with_operation (length (op_slots r)) (Some p) u)"
    and "ages tag registry_clock r (with_operation (length (op_slots r)) (Some p) u)"
proof -
  let ?u = "with_operation (length (op_slots r)) (Some p) u"
  have slots: "op_slots ?u = op_slots r @ [\<lparr>op_generation = 1, operation = Some p\<rparr>]"
    by (simp add: with_operation_def u_def)
  have "op_slot_ok \<lparr>op_generation = 1, operation = Some p\<rparr>"
    using assms(3) by (simp add: op_slot_ok_def id_limits)
  moreover have "active_count ?u = Suc (active_count r)"
    unfolding active_count_def slots using assms(3) by simp
  ultimately show "registry_ok ?u"
    using assms(1,2,4,5) unfolding registry_ok_def slots
    by (auto simp: u_def nth_append split: if_splits)
  show "ages tag registry_clock r ?u"
    by (auto simp: ages_def registry_clock_def slots nth_append u_def assms(2))
qed


text \<open>What a successful start has done.\<close>

definition new_operation :: "('d, 'k) OperationSpec \<Rightarrow> ('d, 'k) Operation" where
  "new_operation spec = \<lparr>driver = spec_driver spec, deadline = spec_deadline spec, cleanup = spec_cleanup spec,
     status = StatusPending\<rparr>"

definition started ::
  "('d, 'k) OperationSpec \<Rightarrow> ('d, 'k) OperationRegistry \<Rightarrow> OperationId \<Rightarrow> ('d, 'k) OperationRegistry \<Rightarrow> bool" where
  "started spec r op u \<longleftrightarrow> id_valid op \<and> names_operation u op \<and>
     registry_clock r (id_slot op) < 2 * Suc (unat (id_generation op)) \<and>
     operation (op_slots u ! id_slot op) = Some (new_operation spec) \<and> \<not> sealed r \<and> active_count r < max_pending r \<and>
     (\<forall>j < length (op_slots u). j = id_slot op \<or> j < length (op_slots r)) \<and>
     (\<forall>j \<noteq> id_slot op. j < length (op_slots r) \<longrightarrow> op_slots u ! j = op_slots r ! j)"

lemma started_slot:
  assumes "registry_ok r" and "i < length (op_slots u)" and "tag u = tag r" and "length (op_slots u) \<le> unat MAX_SLOT_IDENTITY"
    and "0 < unat (op_generation (op_slots u ! i))" "unat (op_generation (op_slots u ! i)) \<le> unat MAX_GENERATION"
    and "registry_clock r i < 2 * Suc (unat (op_generation (op_slots u ! i)))"
    and "\<not> sealed r" "active_count r < max_pending r"
    and "\<And>j. j \<noteq> i \<Longrightarrow> j < length (op_slots r) \<Longrightarrow> op_slots u ! j = op_slots r ! j"
    and "\<And>j. j < length (op_slots u) \<Longrightarrow> j = i \<or> j < length (op_slots r)"
  obtains op where "id_encode (tag r) i (op_generation (op_slots u ! i)) = Some op"
    "started spec r op (with_operation i (Some (new_operation spec)) u)"
proof -
  have "0 < unat (tag r)" "unat (tag r) \<le> unat MAX_REGISTRY_TAG" "i < unat MAX_SLOT_IDENTITY"
    using assms(1,2,4) by (auto simp: registry_ok_def)
  then obtain op where "id_encode (tag r) i (op_generation (op_slots u ! i)) = Some op" "id_valid op"
      "id_registry_tag op = tag r" "id_slot op = i" "id_generation op = op_generation (op_slots u ! i)"
    using op_id.encodable [of "tag r" i "op_generation (op_slots u ! i)"] assms(5,6) by blast
  with assms show ?thesis
    by (intro that) (auto simp: started_def names_operation_def)
qed

lemma start_spec:
  assumes "registry_ok r"
  shows "wp (start spec) (\<lambda>op (u, w'). w' = w \<and> registry_ok u \<and> ages tag registry_clock r u \<and> started spec r op u)
    (\<lambda>e s. e \<noteq> Panicked \<and> s = (r, w)) (r, w)"
proof (cases "sealed r \<or> max_pending r \<le> active_count r")
  case True
  then show ?thesis by (auto simp: start_def wp_simps)
next
  case False
  then have room: "\<not> sealed r" "active_count r < max_pending r" by auto
  have new: "\<lparr>driver = spec_driver spec, deadline = spec_deadline spec, cleanup = spec_cleanup spec,
      status = StatusPending\<rparr> = new_operation spec" by (simp add: new_operation_def)
  have pending: "status (new_operation spec) = StatusPending" by (simp add: new_operation_def)
  show ?thesis
  proof (cases "free r = []")
    case True
    show ?thesis
    proof (cases "length (op_slots r) < unat MAX_SLOT_IDENTITY")
      case False
      with room True show ?thesis by (simp add: start_def acquire_slot_def wp_simps)
    next
      case extend: True
      let ?u = "r\<lparr>op_slots := op_slots r @ [\<lparr>op_generation = 1, operation = None\<rparr>]\<rparr>"
      obtain op where "id_encode (tag r) (length (op_slots r)) 1 = Some op"
          "started spec r op (with_operation (length (op_slots r)) (Some (new_operation spec)) ?u)"
        by (rule started_slot [OF assms, of "length (op_slots r)" ?u])
           (use extend room in \<open>auto simp: id_limits registry_clock_def nth_append\<close>)
      then show ?thesis
        using extend room True extend_ok [OF assms True pending room(2) extend]
        by (simp add: start_def acquire_slot_def wp_simps new not_le)
    qed
  next
    case False
    let ?i = "last (free r)" and ?u = "r\<lparr>free := butlast (free r)\<rparr>"
    note reuse = reuse_ok [OF assms False pending room(2)]
    have "op_slot_ok (op_slots r ! ?i)" using assms reuse(3) by (simp add: registry_ok_def)
    then have gen: "0 < unat (op_generation (op_slots r ! ?i))"
        "unat (op_generation (op_slots r ! ?i)) \<le> unat MAX_GENERATION"
      by (simp_all add: op_slot_ok_def)
    obtain op where "id_encode (tag r) ?i (op_generation (op_slots r ! ?i)) = Some op"
        "started spec r op (with_operation ?i (Some (new_operation spec)) ?u)"
      by (rule started_slot [OF assms, of ?i ?u])
         (use reuse(3-) gen room assms in \<open>auto simp: registry_clock_def registry_ok_def\<close>)
    then show ?thesis
      using room reuse False by (simp add: start_def acquire_slot_def wp_simps new)
  qed
qed


section \<open>Loops over the occupied slots\<close>

definition live_ids :: "('d, 'k) OperationRegistry \<Rightarrow> OperationId list" where
  "live_ids r = map (\<lambda>i. the (id_encode (tag r) i (op_generation (op_slots r ! i)))) (occupied_indices (op_slots r))"

lemma occupied_indices_set: "i \<in> set (occupied_indices ss) \<longleftrightarrow> i < length ss \<and> operation (ss ! i) \<noteq> None"
  by (auto simp: occupied_indices_def)

lemma slot_id:
  assumes "registry_ok r" and "i < length (op_slots r)"
  obtains op where "id_encode (tag r) i (op_generation (op_slots r ! i)) = Some op" "id_valid op"
    "id_registry_tag op = tag r" "id_slot op = i" "id_generation op = op_generation (op_slots r ! i)"
proof -
  have "op_slot_ok (op_slots r ! i)" using assms by (simp add: registry_ok_def)
  then have "0 < unat (tag r)" "unat (tag r) \<le> unat MAX_REGISTRY_TAG" "i < unat MAX_SLOT_IDENTITY"
      "0 < unat (op_generation (op_slots r ! i))" "unat (op_generation (op_slots r ! i)) \<le> unat MAX_GENERATION"
    using assms by (auto simp: registry_ok_def op_slot_ok_def)
  then show ?thesis using op_id.encodable that by blast
qed

lemma live_ids_slots: "registry_ok r \<Longrightarrow> map id_slot (live_ids r) = occupied_indices (op_slots r)"
  by (auto simp: live_ids_def occupied_indices_set intro!: map_idI elim: slot_id)

lemma live_ids_image:
  "registry_ok r \<Longrightarrow> id_slot ` set (live_ids r) = {i. i < length (op_slots r) \<and> operation (op_slots r ! i) \<noteq> None}"
  using arg_cong [OF live_ids_slots, of r set] by (auto simp: occupied_indices_set)

lemma live_ids_named:
  assumes "registry_ok r" and "op \<in> set (live_ids r)"
  shows "id_valid op" and "names_operation r op"
  using assms by (auto simp: live_ids_def occupied_indices_set names_operation_def elim!: slot_id)

lemma live_ids_distinct: "registry_ok r \<Longrightarrow> distinct (map id_slot (live_ids r))"
  by (simp add: live_ids_slots occupied_indices_def)

lemma wp_occupied_ids: "registry_ok r \<Longrightarrow> wp occupied_ids Q E (r, w) = Q (live_ids r) (r, w)"
proof -
  assume ok: "registry_ok r"
  have "id_at i (op_generation (op_slots r ! i)) (r, w) =
      (Inr (the (id_encode (tag r) i (op_generation (op_slots r ! i)))), (r, w))"
    if "i \<in> set (occupied_indices (op_slots r))" for i
    using that ok by (auto simp: id_at_def own_def meth_defs expect_def occupied_indices_set elim: slot_id)
  then have "wp occupied_ids (\<lambda>x s. x = live_ids r \<and> s = (r, w)) (\<lambda>_ _. False) (r, w)"
    unfolding occupied_ids_def wp_and_then wp_own
    by (rule wp_collect_each) (simp_all add: live_ids_def)
  then have "occupied_ids (r, w) = (Inr (live_ids r), (r, w))"
    by (auto simp: wp_def split: prod.splits sum.splits)
  then show ?thesis by (simp add: wp_def)
qed

text \<open>
  A loop whose body works on the slot of its id alone: \<open>T\<close> relates that slot before and after, \<open>A n\<close>
  relates the variable of the loop before and after \<open>n\<close> units of work.
\<close>

definition same_arena :: "('d, 'k) OperationRegistry \<Rightarrow> ('d, 'k) OperationRegistry \<Rightarrow> bool" where
  "same_arena r u \<longleftrightarrow> registry_ok u \<and> registry_calm (r, ()) (u, ()) \<and> length (op_slots u) = length (op_slots r)"

lemma same_arena_move: "op_move i r u \<Longrightarrow> registry_ok r \<Longrightarrow> same_arena r u"
  using op_move_ok [of i r u] op_move_calm [of i r u] op_move_length [of i r u] by (simp add: same_arena_def)

lemma same_arena_trans: "same_arena r u \<Longrightarrow> same_arena u v \<Longrightarrow> same_arena r v"
  by (auto simp: same_arena_def intro: op_calm.relates_trans)

lemma loop_over_ids:
  fixes body :: "OperationId \<Rightarrow> 'y \<Rightarrow> ('d, 'k, 'w, 'y) RegistryMethod"
  assumes body: "\<And>op y r w. id_valid op \<Longrightarrow> registry_ok r \<Longrightarrow> names_operation r op \<Longrightarrow>
      wp (body op y) (\<lambda>y' (u, w'). op_move (id_slot op) r u \<and> T (op_slots r ! id_slot op) (op_slots u ! id_slot op) \<and>
        A (weight (op_slots r ! id_slot op)) y y') (\<lambda>_ _. False) (r, w)"
    and A: "\<And>y. A 0 y y" "\<And>m n y y' y''. A m y y' \<Longrightarrow> A n y' y'' \<Longrightarrow> A (m + n) y y''"
  shows "registry_ok r \<Longrightarrow> distinct (map id_slot ops) \<Longrightarrow> (\<And>op. op \<in> set ops \<Longrightarrow> id_valid op \<and> names_operation r op) \<Longrightarrow>
    wp (fold_each ops body y) (\<lambda>y' (u, w'). same_arena r u \<and>
      (\<forall>i. i \<notin> id_slot ` set ops \<longrightarrow> op_slots u ! i = op_slots r ! i) \<and>
      (\<forall>op \<in> set ops. T (op_slots r ! id_slot op) (op_slots u ! id_slot op)) \<and>
      A (\<Sum>op \<leftarrow> ops. weight (op_slots r ! id_slot op)) y y') (\<lambda>_ _. False) (r, w)"
proof (induction ops arbitrary: r y w)
  case Nil
  then show ?case by (simp add: wp_simps A same_arena_def op_calm.relates_refl)
next
  case (Cons op ops)
  have op: "id_valid op" "names_operation r op" using Cons.prems by auto
  show ?case
    unfolding fold_each.simps wp_and_then
  proof (rule wp_use [OF body [OF op(1) Cons.prems(1) op(2)]])
    fix y' and s :: "('d, 'k) OperationRegistry \<times> 'w"
    assume "case s of (u, w') \<Rightarrow> op_move (id_slot op) r u \<and> T (op_slots r ! id_slot op) (op_slots u ! id_slot op) \<and>
        A (weight (op_slots r ! id_slot op)) y y'"
    then obtain u w' where s: "s = (u, w')" and move: "op_move (id_slot op) r u"
      and T: "T (op_slots r ! id_slot op) (op_slots u ! id_slot op)" and A': "A (weight (op_slots r ! id_slot op)) y y'"
      by auto
    have same: "op_slots u ! i = op_slots r ! i" if "i \<noteq> id_slot op" for i
      using op_move_others [OF move that] .
    have other: "id_slot op' \<noteq> id_slot op" if "op' \<in> set ops" for op'
      using Cons.prems(2) that by (force simp: image_iff)
    have arena: "same_arena r u" by (rule same_arena_move [OF move Cons.prems(1)])
    have named: "id_valid op' \<and> names_operation u op'" if "op' \<in> set ops" for op'
      using Cons.prems(3) [of op'] that other [OF that] op_move_length [OF move] same
      by (simp add: names_operation_def)
    have weights: "(\<Sum>op \<leftarrow> ops. weight (op_slots u ! id_slot op)) = (\<Sum>op \<leftarrow> ops. weight (op_slots r ! id_slot op))"
      using other by (intro arg_cong [where f = sum_list] map_cong) (auto simp: same)
    show "wp (fold_each ops body y') (\<lambda>y' (v, w'). same_arena r v \<and>
        (\<forall>i. i \<notin> id_slot ` set (op # ops) \<longrightarrow> op_slots v ! i = op_slots r ! i) \<and>
        (\<forall>op \<in> set (op # ops). T (op_slots r ! id_slot op) (op_slots v ! id_slot op)) \<and>
        A (\<Sum>op \<leftarrow> op # ops. weight (op_slots r ! id_slot op)) y y') (\<lambda>_ _. False) s"
      unfolding s
    proof (rule wp_use [OF Cons.IH [of u y' w']])
      show "registry_ok u" using arena by (simp add: same_arena_def)
      show "distinct (map id_slot ops)" using Cons.prems(2) by simp
    qed (use named T A' same other other [THEN not_sym] arena weights in
        \<open>auto intro: same_arena_trans A(2) simp: image_iff\<close>)
  qed
qed


section \<open>Batches\<close>

text \<open>\<open>n\<close> operations have been counted, each as cancelled or as failed, and the first error is kept.\<close>

definition counts :: "nat \<Rightarrow> OperationCancelSummary \<Rightarrow> OperationCancelSummary \<Rightarrow> bool" where
  "counts n y y' \<longleftrightarrow> matched y' = matched y + n \<and>
     cancelled y' + cancel_failed y' = cancelled y + cancel_failed y + n \<and>
     cancel_failed y \<le> cancel_failed y' \<and>
     (\<forall>e. cancel_first_error y = Some e \<longrightarrow> cancel_first_error y' = Some e) \<and>
     (cancel_first_error y = None \<longrightarrow> (cancel_first_error y' = None \<longleftrightarrow> cancel_failed y' = cancel_failed y))"

lemma counts_refl: "counts 0 y y"
  by (simp add: counts_def)

lemma counts_trans: "counts m y y' \<Longrightarrow> counts n y' y'' \<Longrightarrow> counts (m + n) y y''"
  by (cases "cancel_first_error y"; cases "cancel_first_error y'") (auto simp: counts_def)

lemma counts_record: "result \<noteq> Inr False \<Longrightarrow> counts 1 y (summary_record result y)"
  by (cases result) (auto simp: counts_def summary_record_def Let_def split: bool.splits option.splits)

definition pending_weight :: "('d, 'k) OperationSlot \<Rightarrow> nat" where
  "pending_weight s = (if is_pending (operation s) then 1 else 0)"

text \<open>
  A slot in a batch: a pending operation has been ended the way \<open>P\<close> says, anything else is
  untouched. A cancelled operation keeps its slot, an aborted one has lost it.
\<close>

definition slot_ended ::
  "(('d, 'k) OperationSlot \<Rightarrow> bool) \<Rightarrow> ('d, 'k) OperationSlot \<Rightarrow> ('d, 'k) OperationSlot \<Rightarrow> bool" where
  "slot_ended P s s' \<longleftrightarrow> (if is_pending (operation s) then P s' \<and> \<not> is_pending (operation s') else s' = s)"

lemma slot_ended_not_pending: "slot_ended P s s' \<Longrightarrow> \<not> is_pending (operation s')"
  by (auto simp: slot_ended_def split: if_splits)

lemma slot_ended_vacant: "operation s = None \<Longrightarrow> slot_ended P s s"
  by (simp add: slot_ended_def)

definition cancelled_slot :: "OperationCancelReason \<Rightarrow> ('d, 'k) OperationSlot \<Rightarrow> bool" where
  "cancelled_slot reason s \<longleftrightarrow> (case operation s of
       None \<Rightarrow> False
     | Some p \<Rightarrow> status p = StatusCancelled reason \<or> (\<exists>e. status p = StatusFailed e))"

definition vacated_slot :: "('d, 'k) OperationSlot \<Rightarrow> bool" where
  "vacated_slot s \<longleftrightarrow> operation s = None"

lemma active_count_live: "registry_ok r \<Longrightarrow> (\<Sum>op \<leftarrow> live_ids r. pending_weight (op_slots r ! id_slot op)) = active_count r"
proof -
  assume ok: "registry_ok r"
  have weights: "(\<Sum>s \<leftarrow> ss. pending_weight s) = length (filter (\<lambda>s. is_pending (operation s)) ss)"
    for ss :: "('a, 'b) OperationSlot list"
    by (induction ss) (simp_all add: pending_weight_def)
  have "(\<Sum>op \<leftarrow> live_ids r. pending_weight (op_slots r ! id_slot op)) =
      (\<Sum>i \<leftarrow> occupied_indices (op_slots r). pending_weight (op_slots r ! i))"
    by (simp add: live_ids_slots [OF ok, symmetric] comp_def)
  also have "\<dots> = (\<Sum>i \<leftarrow> [0..<length (op_slots r)]. pending_weight (op_slots r ! i))"
    unfolding occupied_indices_def by (rule sum_list_map_filter) (auto simp: pending_weight_def)
  also have "\<dots> = (\<Sum>s \<leftarrow> op_slots r. pending_weight s)"
    by (subst (2) map_nth [of "op_slots r", symmetric]) (simp add: comp_def)
  also have "\<dots> = active_count r"
    by (simp add: active_count_def weights)
  finally show ?thesis .
qed


lemma active_count_0: "active_count r = 0 \<longleftrightarrow> (\<forall>i < length (op_slots r). \<not> is_pending (operation (op_slots r ! i)))"
  by (simp add: active_count_def filter_empty_conv all_set_conv_all_nth)

text \<open>From the slots of the live ids to all slots.\<close>

lemma live_slots_all:
  assumes "registry_ok r" and "\<forall>i. i \<notin> id_slot ` set (live_ids r) \<longrightarrow> op_slots u ! i = op_slots r ! i"
    and "\<forall>op \<in> set (live_ids r). T (op_slots r ! id_slot op) (op_slots u ! id_slot op)"
    and "\<And>s. operation s = None \<Longrightarrow> T s s" and "i < length (op_slots r)"
  shows "T (op_slots r ! i) (op_slots u ! i)"
proof (cases "i \<in> id_slot ` set (live_ids r)")
  case True
  then show ?thesis using assms(3) by auto
next
  case False
  then have "operation (op_slots r ! i) = None" using assms(1,5) by (simp add: live_ids_image)
  then show ?thesis using assms(2,4) False by simp
qed

definition ends_pending ::
  "(('d, 'k) OperationSlot \<Rightarrow> bool) \<Rightarrow> (OperationId \<Rightarrow> ('d, 'k, 'w, bool) RegistryMethod) \<Rightarrow> bool" where
  "ends_pending P one \<longleftrightarrow> (\<forall>op r w p. id_valid op \<longrightarrow> names_operation r op \<longrightarrow>
     operation (op_slots r ! id_slot op) = Some p \<longrightarrow> \<not> is_terminal (status p) \<longrightarrow>
     wp (one op)
       (\<lambda>x (u, w'). x \<and> op_move (id_slot op) r u \<and> slot_ended P (op_slots r ! id_slot op) (op_slots u ! id_slot op))
       (\<lambda>e (u, w'). e \<noteq> Panicked \<and> op_move (id_slot op) r u \<and>
          slot_ended P (op_slots r ! id_slot op) (op_slots u ! id_slot op)) (r, w))"

definition batch_done ::
  "(('d, 'k) OperationSlot \<Rightarrow> bool) \<Rightarrow> ('d, 'k) OperationRegistry \<Rightarrow> OperationCancelSummary \<Rightarrow> ('d, 'k) OperationRegistry \<Rightarrow> bool" where
  "batch_done P r y u \<longleftrightarrow> same_arena r u \<and> active_count u = 0 \<and>
     (\<forall>i < length (op_slots r). slot_ended P (op_slots r ! i) (op_slots u ! i)) \<and>
     counts (active_count r) summary_default y"

lemma cancel_batch_spec:
  fixes one :: "OperationId \<Rightarrow> ('d, 'k, 'w, bool) RegistryMethod"
  assumes ok: "registry_ok r" and one: "ends_pending P one"
  shows "wp (cancel_batch one) (\<lambda>y (u, w'). batch_done P r y u) (\<lambda>_ _. False) (r, w)"
proof -
  define body where "body op y = and_then (pending_at op) (\<lambda>pending.
      if \<not> pending then ok y else and_then (attempt (one op)) (\<lambda>result. ok (summary_record result y)))" for op y
  have step: "wp (body op y) (\<lambda>y' (u, w'). op_move (id_slot op) r u \<and>
      slot_ended P (op_slots r ! id_slot op) (op_slots u ! id_slot op) \<and>
      counts (pending_weight (op_slots r ! id_slot op)) y y') (\<lambda>_ _. False) (r, w)"
    if *: "id_valid op" "registry_ok r" "names_operation r op" for op y r w
  proof -
    obtain p where p: "operation (op_slots r ! id_slot op) = Some p" by (rule named_occupant [OF *(3)])
    show ?thesis
    proof (cases "is_terminal (status p)")
      case True
      then show ?thesis
        using * p by (simp add: body_def pending_at_def wp_simps wp_location op_move.stays slot_ended_def
            pending_weight_def counts_refl)
    next
      case False
      then have "pending_weight (op_slots r ! id_slot op) = 1" by (simp add: pending_weight_def p)
      with False * p show ?thesis
        by (simp add: body_def pending_at_def wp_simps wp_location)
           (rule wp_use [OF one [unfolded ends_pending_def, rule_format, OF *(1,3) p False]];
            auto simp: wp_simps p intro!: counts_record [unfolded One_nat_def] split: fault.splits)
    qed
  qed
  have "wp (fold_each (live_ids r) body summary_default) (\<lambda>y (u, w'). same_arena r u \<and>
      (\<forall>i. i \<notin> id_slot ` set (live_ids r) \<longrightarrow> op_slots u ! i = op_slots r ! i) \<and>
      (\<forall>op \<in> set (live_ids r). slot_ended P (op_slots r ! id_slot op) (op_slots u ! id_slot op)) \<and>
      counts (\<Sum>op \<leftarrow> live_ids r. pending_weight (op_slots r ! id_slot op)) summary_default y) (\<lambda>_ _. False) (r, w)"
    by (rule loop_over_ids [where T = "slot_ended P" and A = counts and weight = pending_weight])
       (use ok in \<open>auto intro: step counts_refl counts_trans live_ids_distinct live_ids_named\<close>)
  then show ?thesis
    unfolding cancel_batch_def wp_and_then body_def [symmetric] wp_occupied_ids [OF ok]
  proof (rule wp_use)
    fix y and s :: "('d, 'k) OperationRegistry \<times> 'w"
    assume *: "case s of (u, w') \<Rightarrow> same_arena r u \<and>
      (\<forall>i. i \<notin> id_slot ` set (live_ids r) \<longrightarrow> op_slots u ! i = op_slots r ! i) \<and>
      (\<forall>op \<in> set (live_ids r). slot_ended P (op_slots r ! id_slot op) (op_slots u ! id_slot op)) \<and>
      counts (\<Sum>op \<leftarrow> live_ids r. pending_weight (op_slots r ! id_slot op)) summary_default y"
    obtain u w' where s: "s = (u, w')" by fastforce
    have ended: "slot_ended P (op_slots r ! i) (op_slots u ! i)" if "i < length (op_slots r)" for i
      by (rule live_slots_all [OF ok _ _ _ that]) (use * s slot_ended_vacant in auto)
    have "active_count u = 0"
      unfolding active_count_0 using * s ended slot_ended_not_pending by (auto simp: same_arena_def)
    with * ended show "case s of (u, w') \<Rightarrow> batch_done P r y u"
      by (simp add: s batch_done_def active_count_live [OF ok])
  qed
qed

lemma settled_slot:
  "settled_as op st r u \<Longrightarrow> names_operation r op \<Longrightarrow> \<exists>q. operation (op_slots u ! id_slot op) = Some q \<and> status q = st"
  by (auto simp: settled_as_def)

lemma cancel_ends_pending: "ends_pending (cancelled_slot reason) (\<lambda>op. cancel H op reason)"
  unfolding ends_pending_def cancel_def
  by (intro allI impI wp_use [OF cancel_with_wait_settles])
     (auto intro: settled_move simp: slot_ended_def cancelled_slot_def dest: settled_slot)

lemma abort_ends_pending: "ends_pending vacated_slot (\<lambda>op. abort H op reason)"
  unfolding ends_pending_def
  by (intro allI impI wp_use [OF abort_pending])
     (auto intro: op_move.freed simp: released_simps slot_ended_def vacated_slot_def)

lemmas cancel_all_spec = cancel_batch_spec [OF _ cancel_ends_pending, folded cancel_all_def]
  and cancel_all_and_wait_spec = cancel_batch_spec [OF _ abort_ends_pending, folded cancel_all_and_wait_def]

section \<open>Waiting for quiescence\<close>

text \<open>
  One round of \<open>poll_quiescence\<close> on a slot: a pending operation is left alone; a terminal one is
  released, unless its driver was polled and is still at work.
\<close>

definition slot_quieted :: "('d, 'k, 'w) HostOperation \<Rightarrow> ('d, 'k) OperationSlot \<Rightarrow> ('d, 'k) OperationSlot \<Rightarrow> bool" where
  "slot_quieted H s s' \<longleftrightarrow> (case operation s of
       None \<Rightarrow> s' = s
     | Some p \<Rightarrow>
         if \<not> is_terminal (status p) then s' = s
         else operation s' = None \<or>
           (\<exists>d w w'. s' = s\<lparr>operation := Some (p\<lparr>driver := d\<rparr>)\<rparr> \<and> poll_quiescent_fn H (driver p) w = (Pending, d, w')))"

lemma slot_quieted_vacant: "operation s = None \<Longrightarrow> slot_quieted H s s"
  by (simp add: slot_quieted_def)

lemma quiesce_one_spec:
  assumes "id_valid op" and "names_operation r op"
  shows "wp (quiesce_one H op y) (\<lambda>y' (u, w'). op_move (id_slot op) r u \<and>
      slot_quieted H (op_slots r ! id_slot op) (op_slots u ! id_slot op)) (\<lambda>_ _. False) (r, w)"
proof -
  obtain p where p: "operation (op_slots r ! id_slot op) = Some p" by (rule named_occupant [OF assms(2)])
  show ?thesis
    using assms p
    by (auto simp: quiesce_one_def wp_simps wp_location slot_quieted_def released_simps intro!: op_move.intros
        split: prod.splits Poll.splits option.splits)
qed

lemma poll_quiescence_spec:
  fixes H :: "('d, 'k, 'w) HostOperation"
  assumes "registry_ok r"
  shows "wp (poll_quiescence H) (\<lambda>x (u, w'). same_arena r u \<and> (x \<longleftrightarrow> registry_is_empty u) \<and>
      (\<forall>i < length (op_slots r). slot_quieted H (op_slots r ! i) (op_slots u ! i))) (\<lambda>_ _. False) (r, w)"
proof -
  have "wp (fold_each (live_ids r) (quiesce_one H) ()) (\<lambda>_ (u, w'). same_arena r u \<and>
      (\<forall>i. i \<notin> id_slot ` set (live_ids r) \<longrightarrow> op_slots u ! i = op_slots r ! i) \<and>
      (\<forall>op \<in> set (live_ids r). slot_quieted H (op_slots r ! id_slot op) (op_slots u ! id_slot op)) \<and> True)
      (\<lambda>_ _. False) (r, w)"
    by (rule loop_over_ids [where T = "slot_quieted H" and A = "\<lambda>_ _ _. True" and weight = "\<lambda>_. 0"])
       (use assms in \<open>auto intro: wp_use [OF quiesce_one_spec] live_ids_distinct live_ids_named\<close>)
  then show ?thesis
    unfolding poll_quiescence_def wp_and_then wp_then_do wp_occupied_ids [OF assms]
  proof (rule wp_use)
    fix y and s :: "('d, 'k) OperationRegistry \<times> 'w"
    assume *: "case s of (u, w') \<Rightarrow> same_arena r u \<and>
      (\<forall>i. i \<notin> id_slot ` set (live_ids r) \<longrightarrow> op_slots u ! i = op_slots r ! i) \<and>
      (\<forall>op \<in> set (live_ids r). slot_quieted H (op_slots r ! id_slot op) (op_slots u ! id_slot op)) \<and> True"
    have "slot_quieted H (op_slots r ! i) (op_slots (fst s) ! i)" if "i < length (op_slots r)" for i
      by (rule live_slots_all [OF assms _ _ _ that]) (use * slot_quieted_vacant in auto)
    with * show "wp (own registry_is_empty) (\<lambda>x (u, w'). same_arena r u \<and> (x \<longleftrightarrow> registry_is_empty u) \<and>
        (\<forall>i < length (op_slots r). slot_quieted H (op_slots r ! i) (op_slots u ! i))) (\<lambda>_ _. False) s"
      by (cases s) (simp add: wp_own)
  qed
qed

section \<open>The rest of the methods\<close>

lemma calm_same_arena:
  fixes m :: "('d, 'k, 'w, 'a) RegistryMethod"
  assumes "\<And>r w. registry_ok r \<Longrightarrow> wp m (\<lambda>_ (u, w'). same_arena r u) (\<lambda>_ _. False) (r, w)"
  shows "sound registry_inv registry_calm m"
proof (rule soundI)
  fix s :: "('d, 'k) OperationRegistry \<times> 'w"
  assume "registry_inv s"
  then show "wp m (\<lambda>_ u. registry_inv u \<and> registry_calm s u)
      (\<lambda>e u. e \<noteq> Panicked \<and> registry_inv u \<and> registry_calm s u) s"
    using assms [of "fst s" "snd s"]
    by (auto elim!: wp_use simp: registry_inv_def registry_calm_def registry_ages_def same_arena_def)
qed

lemma cancel_all_calm: "sound registry_inv registry_calm (cancel_all H reason)"
  by (rule calm_same_arena) (rule wp_use [OF cancel_all_spec], auto simp: batch_done_def)

lemma cancel_all_and_wait_calm: "sound registry_inv registry_calm (cancel_all_and_wait H reason)"
  by (rule calm_same_arena) (rule wp_use [OF cancel_all_and_wait_spec], auto simp: batch_done_def)

lemma poll_quiescence_calm: "sound registry_inv registry_calm (poll_quiescence H)"
  by (rule calm_same_arena) (rule wp_use [OF poll_quiescence_spec], auto)

lemmas cancel_all_sound = cancel_all_calm [THEN op_calm_sound]
  and cancel_all_and_wait_sound = cancel_all_and_wait_calm [THEN op_calm_sound]
  and poll_quiescence_sound = poll_quiescence_calm [THEN op_calm_sound]

lemma start_sound:
  fixes spec :: "('d, 'k) OperationSpec"
  shows "sound registry_inv registry_ages (start spec :: ('d, 'k, 'w, OperationId) RegistryMethod)"
proof (rule soundI)
  fix s :: "('d, 'k) OperationRegistry \<times> 'w"
  assume "registry_inv s"
  then show "wp (start spec) (\<lambda>_ u. registry_inv u \<and> registry_ages s u)
      (\<lambda>e u. e \<noteq> Panicked \<and> registry_inv u \<and> registry_ages s u) s"
    using start_spec [of "fst s" spec "snd s"]
    by (auto elim!: wp_use simp: registry_inv_def registry_ages_def ages_refl)
qed

lemma seal_sound: "sound registry_inv registry_ages seal"
  by (auto simp: sound_def seal_def wp_set_own registry_inv_def registry_ages_def registry_ok_def active_count_def
      ages_def registry_clock_def)

lemmas registry_sound = seal_sound start_sound cancel_all_sound cancel_all_and_wait_sound poll_quiescence_sound
  id_method_sound [OF operation_status_id] id_method_sound [OF take_outcome_id] id_method_sound [OF registry_poll_id]
  id_method_sound [OF registry_poll_quiescent_id] id_method_sound [OF cancel_id] id_method_sound [OF abort_id]
  id_method_sound [OF complete_id] id_method_sound [OF fail_id] id_method_sound [OF registry_remove_id]

end
