(* ===== verification/RegistryProps.thy ===== *)
theory RegistryProps
  imports OperationProps
begin

text \<open>
  The properties of the operation registry: along any sequence of calls its books are kept, an id
  whose operation is gone stays dead, a terminal status is final, an outcome is delivered once, and
  the batch operations end every pending operation and report what they did.
\<close>

section \<open>Sequences of calls\<close>

inductive registry_step ::
  "('d, 'k, 'w) HostOperation \<Rightarrow> ('d, 'k) OperationRegistry \<times> 'w \<Rightarrow> ('d, 'k) OperationRegistry \<times> 'w \<Rightarrow> bool"
  for H where
  reg_outside: "registry_step H (r, w) (r, w')"
| reg_seal: "seal s = (x, u) \<Longrightarrow> registry_step H s u"
| reg_start: "start spec s = (x, u) \<Longrightarrow> registry_step H s u"
| reg_status: "id_valid op \<Longrightarrow> operation_status op s = (x, u) \<Longrightarrow> registry_step H s u"
| reg_take_outcome: "id_valid op \<Longrightarrow> take_outcome H op s = (x, u) \<Longrightarrow> registry_step H s u"
| reg_poll: "id_valid op \<Longrightarrow> registry_poll H op s = (x, u) \<Longrightarrow> registry_step H s u"
| reg_poll_quiescent: "id_valid op \<Longrightarrow> registry_poll_quiescent H op s = (x, u) \<Longrightarrow> registry_step H s u"
| reg_cancel: "id_valid op \<Longrightarrow> cancel H op reason s = (x, u) \<Longrightarrow> registry_step H s u"
| reg_abort: "id_valid op \<Longrightarrow> abort H op reason s = (x, u) \<Longrightarrow> registry_step H s u"
| reg_cancel_all: "cancel_all H reason s = (x, u) \<Longrightarrow> registry_step H s u"
| reg_cancel_all_and_wait: "cancel_all_and_wait H reason s = (x, u) \<Longrightarrow> registry_step H s u"
| reg_poll_quiescence: "poll_quiescence H s = (x, u) \<Longrightarrow> registry_step H s u"
| reg_complete: "id_valid op \<Longrightarrow> complete H op s = (x, u) \<Longrightarrow> registry_step H s u"
| reg_fail: "id_valid op \<Longrightarrow> fail H op error s = (x, u) \<Longrightarrow> registry_step H s u"
| reg_remove: "id_valid op \<Longrightarrow> registry_remove H op s = (x, u) \<Longrightarrow> registry_step H s u"

abbreviation registry_steps ::
  "('d, 'k, 'w) HostOperation \<Rightarrow> ('d, 'k) OperationRegistry \<times> 'w \<Rightarrow> ('d, 'k) OperationRegistry \<times> 'w \<Rightarrow> bool" where
  "registry_steps H \<equiv> (registry_step H)\<^sup>*\<^sup>*"

definition status_of :: "('d, 'k) OperationRegistry \<Rightarrow> OperationId \<Rightarrow> OperationStatus option" where
  "status_of r op = (if names_operation r op then map_option status (operation (op_slots r ! id_slot op)) else None)"

text \<open>An operation that was terminal and is still there has kept its status.\<close>

definition keeps_final :: "('d, 'k) OperationRegistry \<Rightarrow> ('d, 'k) OperationRegistry \<Rightarrow> bool" where
  "keeps_final r u \<longleftrightarrow> (\<forall>op st. status_of r op = Some st \<longrightarrow> is_terminal st \<longrightarrow> names_operation u op \<longrightarrow> status_of u op = Some st)"

section \<open>Samples\<close>

text \<open>A host whose operations count down, to their end and then to quiescence.\<close>

definition countdown_host :: "(nat, unit, unit) HostOperation" where
  "countdown_host = \<lparr>
     poll_fn = (\<lambda>d w. (if d = 0 then Ready (Inr ()) else Pending, d - 1, w)),
     cancel_fn = (\<lambda>reason d w. (Inr (), d, w)),
     is_quiescent_fn = (\<lambda>d w. (d = 0, w)),
     poll_quiescent_fn = (\<lambda>d w. (if d = 0 then Ready () else Pending, d - 1, w)),
     cancel_and_wait_fn = default_cancel_and_wait (\<lambda>reason d w. (Inr (), d, w)),
     run_cleanup_fn = (\<lambda>k outcome w. (Inr (), w)),
     now_fn = (\<lambda>w. (0, w))\<rparr>"

lemma countdown_simps [simp]:
  "poll_fn countdown_host d w = (if d = 0 then Ready (Inr ()) else Pending, d - 1, w)"
  "cancel_fn countdown_host reason d w = (Inr (), d, w)"
  "is_quiescent_fn countdown_host d w = (d = 0, w)"
  "poll_quiescent_fn countdown_host d w = (if d = 0 then Ready () else Pending, d - 1, w)"
  "run_cleanup_fn countdown_host k outcome w = (Inr (), w)"
  by (simp_all add: countdown_host_def)

definition sample_registry :: "(nat, unit) OperationRegistry" where
  "sample_registry = \<lparr>max_pending = 1, tag = 1, sealed = False, op_slots = [], free = []\<rparr>"

definition sample_id :: OperationId where
  "sample_id = OperationId 8796097216513"

definition sample_operation :: "OperationStatus \<Rightarrow> nat \<Rightarrow> (nat, unit) Operation" where
  "sample_operation st d = \<lparr>driver = d, deadline = None, cleanup = None, status = st\<rparr>"

lemma sample_operation_simps [simp]:
  "driver (sample_operation st d) = d" "status (sample_operation st d) = st"
  "deadline (sample_operation st d) = None" "cleanup (sample_operation st d) = None"
  by (simp_all add: sample_operation_def)

definition sample_holding :: "OperationStatus \<Rightarrow> nat \<Rightarrow> (nat, unit) OperationRegistry" where
  "sample_holding st d = sample_registry\<lparr>op_slots := [\<lparr>op_generation = 1, operation = Some (sample_operation st d)\<rparr>]\<rparr>"

definition sample_spent :: "(nat, unit) OperationRegistry" where
  "sample_spent = sample_registry\<lparr>op_slots := [\<lparr>op_generation = 2, operation = None\<rparr>], free := [0]\<rparr>"

lemma sample_id_fields: "id_valid sample_id" "id_registry_tag sample_id = 1" "id_slot sample_id = 0" "id_generation sample_id = 1"
proof -
  have "id_encode 1 0 1 = Some sample_id"
    by (simp add: id_encode_eq sample_id_def le_mask_iff)
  then show "id_valid sample_id" "id_registry_tag sample_id = 1" "id_slot sample_id = 0" "id_generation sample_id = 1"
    by (simp_all add: op_id.encode_Some)
qed

lemma sample_id_encode: "id_encode 1 0 1 = Some sample_id"
  by (simp add: op_id.encode_Some sample_id_fields)

lemma sample_holding_ok: "registry_ok (sample_holding st d)" and sample_registry_ok: "registry_ok sample_registry"
  by (auto simp: registry_ok_def sample_holding_def sample_registry_def op_slot_ok_def sample_operation_def
      active_count_def id_limits)

lemma sample_id_named: "names_operation (sample_holding st d) sample_id" "\<not> names_operation sample_spent sample_id"
  by (simp_all add: names_operation_def sample_id_fields sample_holding_def sample_spent_def sample_registry_def)

lemma sample_start: "start (spec_new 0) (sample_registry, ()) = (Inr sample_id, (sample_holding StatusPending 0, ()))"
  by (simp add: start_def acquire_slot_def op_slot_at_def set_operation_def with_operation_def meth_defs own_def set_own_def
      expect_def vec_get_def sample_registry_def active_count_def id_limits sample_id_encode spec_new_def
      sample_holding_def sample_operation_def)

lemma sample_released: "released (id_slot sample_id) (sample_holding st d) = sample_spent"
  by (simp add: released_def sample_id_fields sample_holding_def sample_spent_def sample_registry_def word_less_nat_alt id_limits)

lemma sample_occupant: "operation (op_slots (sample_holding st d) ! id_slot sample_id) = Some (sample_operation st d)"
  by (simp add: sample_holding_def sample_id_fields)

lemma sample_poll:
  "registry_poll countdown_host sample_id (sample_holding StatusPending 0, ()) = (Inr (Ready Completed), (sample_spent, ()))"
  by (rule wp_returns)
     (simp add: registry_poll_def wp_simps wp_location wp_finish_terminal sample_id_fields(1) sample_id_named sample_occupant
       sample_released)

section \<open>Every step\<close>

lemma status_of_Some:
  "status_of r op = Some st \<longleftrightarrow> names_operation r op \<and> (\<exists>p. operation (op_slots r ! id_slot op) = Some p \<and> status p = st)"
  by (auto simp: status_of_def)

lemma keeps_finalI:
  assumes "\<And>op p. names_operation r op \<Longrightarrow> names_operation u op \<Longrightarrow> operation (op_slots r ! id_slot op) = Some p \<Longrightarrow>
      is_terminal (status p) \<Longrightarrow> \<exists>q. operation (op_slots u ! id_slot op) = Some q \<and> status q = status p"
  shows "keeps_final r u"
  using assms by (auto simp: keeps_final_def status_of_Some)

lemma op_move_final:
  assumes "op_move i r u"
  shows "keeps_final r u"
proof (rule keeps_finalI)
  fix op p
  assume *: "names_operation u op" "operation (op_slots r ! id_slot op) = Some p" "is_terminal (status p)"
  from assms show "\<exists>q. operation (op_slots u ! id_slot op) = Some q \<and> status q = status p"
  proof cases
    case (changed p' q)
    with * show ?thesis by (cases "id_slot op = i") auto
  next
    case freed
    with * show ?thesis by (cases "id_slot op = i") (auto simp: names_operation_def released_simps)
  qed (use * in auto)
qed

lemma slots_final:
  assumes "same_arena r u"
    and "\<And>i p. i < length (op_slots r) \<Longrightarrow> operation (op_slots r ! i) = Some p \<Longrightarrow> is_terminal (status p) \<Longrightarrow>
      operation (op_slots u ! i) = None \<or> (\<exists>q. operation (op_slots u ! i) = Some q \<and> status q = status p)"
  shows "keeps_final r u"
proof (rule keeps_finalI)
  fix op p
  assume *: "names_operation r op" "names_operation u op" "operation (op_slots r ! id_slot op) = Some p" "is_terminal (status p)"
  then show "\<exists>q. operation (op_slots u ! id_slot op) = Some q \<and> status q = status p"
    using assms(2) [OF _ *(3,4)] by (auto simp: names_operation_def)
qed

lemma started_final:
  assumes "started spec r op u"
  shows "keeps_final r u"
proof (rule keeps_finalI)
  fix op' p
  assume *: "names_operation r op'" "names_operation u op'" "operation (op_slots r ! id_slot op') = Some p"
  have "id_slot op' \<noteq> id_slot op"
  proof
    assume same: "id_slot op' = id_slot op"
    then have "id_generation op' = id_generation op"
      using * assms by (simp add: names_operation_def started_def)
    then show False
      using * assms same op_stale.live_iff [of r op'] by (simp add: started_def)
  qed
  then show "\<exists>q. operation (op_slots u ! id_slot op') = Some q \<and> status q = status p"
    using * assms by (simp add: started_def)
qed

definition good_step :: "('d, 'k) OperationRegistry \<times> 'w \<Rightarrow> ('d, 'k) OperationRegistry \<times> 'w \<Rightarrow> bool" where
  "good_step s u \<longleftrightarrow> registry_ok (fst u) \<and> ages tag registry_clock (fst s) (fst u) \<and> keeps_final (fst s) (fst u)"

lemma good_stepI:
  fixes m :: "('d, 'k, 'w, 'a) RegistryMethod"
  assumes "sound registry_inv registry_ages m" and "registry_ok (fst s)" and "m s = (x, u)"
    and "keeps_final (fst s) (fst u)"
  shows "good_step s u"
  using sound_result [OF assms(1) _ assms(3)] assms(2,4)
  by (simp add: good_step_def registry_inv_def registry_ages_def)

lemma id_method_good:
  fixes m :: "('d, 'k, 'w, 'a) RegistryMethod"
  assumes "id_method op m" and "registry_ok (fst s)" and "m s = (x, u)"
  shows "good_step s u"
proof (rule good_stepI [OF id_method_sound [OF assms(1)] assms(2,3)])
  show "keeps_final (fst s) (fst u)"
  proof (cases "names_operation (fst s) op")
    case True
    then show ?thesis
      using id_methodD(1) [OF assms(1,2) True, of "snd s"] assms(3)
      by (auto simp: wp_def intro: op_move_final split: prod.splits sum.splits)
  next
    case False
    then show ?thesis
      using id_methodD(2) [OF assms(1,2) False, of "snd s"] assms(3)
      by (auto simp: keeps_final_def)
  qed
qed

lemma batch_good:
  fixes m :: "('d, 'k, 'w, OperationCancelSummary) RegistryMethod"
  assumes "wp m (\<lambda>y (u, w'). batch_done P (fst s) y u) (\<lambda>_ _. False) s" and "registry_ok (fst s)" and "m s = (x, u)"
  shows "good_step s u"
proof -
  have "same_arena (fst s) (fst u)" "\<forall>i < length (op_slots (fst s)). slot_ended P (op_slots (fst s) ! i) (op_slots (fst u) ! i)"
    using assms(1,3) by (cases u; auto simp: wp_def batch_done_def split: sum.splits)+
  moreover from this have "keeps_final (fst s) (fst u)"
    by (intro slots_final) (auto simp: slot_ended_def)
  ultimately show ?thesis by (simp add: good_step_def same_arena_def registry_calm_def registry_ages_def)
qed

lemma slot_quieted_terminal:
  "slot_quieted H s s' \<Longrightarrow> operation s = Some p \<Longrightarrow> is_terminal (status p) \<Longrightarrow>
   operation s' = None \<or> (\<exists>q. operation s' = Some q \<and> status q = status p)"
  by (auto simp: slot_quieted_def)

lemma quiescence_good:
  assumes "registry_ok (fst s)" and "poll_quiescence H s = (x, u)"
  shows "good_step s u"
proof -
  have "same_arena (fst s) (fst u)" "\<forall>i < length (op_slots (fst s)). slot_quieted H (op_slots (fst s) ! i) (op_slots (fst u) ! i)"
    using poll_quiescence_spec [OF assms(1), of H "snd s"] assms(2) by (cases u; auto simp: wp_def split: sum.splits)+
  moreover from this have "keeps_final (fst s) (fst u)"
    by (intro slots_final slot_quieted_terminal [of H]) auto
  ultimately show ?thesis by (simp add: good_step_def same_arena_def registry_calm_def registry_ages_def)
qed

lemma start_good:
  assumes "registry_ok (fst s)" and "start spec s = (x, u)"
  shows "good_step s u"
  using start_spec [OF assms(1), of spec "snd s"] assms
  by (cases u) (auto simp: wp_def good_step_def ages_refl keeps_final_def [of r r for r] intro: started_final
      split: sum.splits)

lemma seal_good:
  assumes "registry_ok (fst s)" and "seal s = (x, u)"
  shows "good_step s u"
  by (rule good_stepI [OF seal_sound assms])
     (use assms in \<open>auto simp: seal_def set_own_def update_def keeps_final_def status_of_def names_operation_def
       split: prod.splits\<close>)

lemma registry_step_good: "registry_step H s u \<Longrightarrow> registry_ok (fst s) \<Longrightarrow> good_step s u"
proof (induction rule: registry_step.induct)
  case (reg_outside r w w')
  then show ?case by (simp add: good_step_def ages_refl keeps_final_def)
next
  case (reg_cancel_all reason s x u)
  then show ?case using cancel_all_spec [of "fst s" H reason "snd s"] by (intro batch_good [where m = "cancel_all H reason"]) auto
next
  case (reg_cancel_all_and_wait reason s x u)
  then show ?case using cancel_all_and_wait_spec [of "fst s" H reason "snd s"] by (intro batch_good [where m = "cancel_all_and_wait H reason"]) auto
qed (auto intro: seal_good start_good quiescence_good id_method_good [OF operation_status_id]
    id_method_good [OF take_outcome_id] id_method_good [OF registry_poll_id] id_method_good [OF registry_poll_quiescent_id]
    id_method_good [OF cancel_id] id_method_good [OF abort_id] id_method_good [OF complete_id]
    id_method_good [OF fail_id] id_method_good [OF registry_remove_id])

lemma keeps_final_trans:
  assumes "keeps_final r u" and "keeps_final u v" and "ages tag registry_clock r u" and "ages tag registry_clock u v"
  shows "keeps_final r v"
proof -
  have "names_operation u op" if "names_operation r op" "names_operation v op" for op
    using op_stale.stale_for_good [OF that(1) assms(3) _ assms(4)] that(2) by blast
  then show ?thesis
    using assms(1,2) unfolding keeps_final_def by (metis status_of_Some)
qed

lemma registry_steps_good: "registry_steps H s u \<Longrightarrow> registry_ok (fst s) \<Longrightarrow> good_step s u"
proof (induction rule: rtranclp_induct)
  case base
  then show ?case by (simp add: good_step_def ages_refl keeps_final_def)
next
  case (step u v)
  then show ?case
    using registry_step_good [OF step.hyps(2)]
    by (auto simp: good_step_def intro: ages_trans keeps_final_trans)
qed


lemma registry_no_panic:
  assumes "registry_ok (fst s)" and "sound registry_inv registry_ages m"
  shows "fst (m s) \<noteq> Inl Panicked"
  using sound_result(3) [OF assms(2), of s "fst (m s)" "snd (m s)"] assms(1) by (simp add: registry_inv_def)

lemma released_stale:
  assumes "names_operation r op" and "registry_ok r"
  shows "location_error (released (id_slot op) r) op = operation_stale op"
proof -
  have "\<not> op_generation (op_slots (released (id_slot op) r) ! id_slot op) < id_generation op"
    using assms by (auto simp: names_operation_def released_simps word_less_nat_alt unat_next_generation)
  then show ?thesis using assms by (auto simp: location_error_def names_operation_def released_simps)
qed

lemma registry_with_limit_ok:
  assumes "registry_with_limit limit c = (Inr r, c')" and "0 < c"
  shows "registry_ok r" and "tag r = c"
proof -
  have "unat c \<noteq> 0" using assms(2) by (simp add: unat_eq_0)
  with assms(1) show "registry_ok r" and "tag r = c"
    by (auto simp: registry_with_limit_def allocate_registry_tag_def meth_defs throw_def registry_ok_def
        active_count_def word_le_nat_alt split: if_splits)
qed

section \<open>Properties\<close>

text \<open>
  C22. The registry keeps its books. Whatever calls are made on a freshly constructed registry, and
  whatever drivers and cleanups do, the free list names vacant slots only, a vacant slot off the
  list has used up its generations, the pending operations are within the capacity, and a terminal
  operation has no cleanup left to run.
\<close>

theorem registry_books_kept:
  assumes "registry_with_limit limit c = (Inr r, c')" and "0 < c" and "registry_steps H (r, w) (u, w')"
  shows "registry_ok u \<and> tag u = c"
proof -
  have "registry_ok r" and "tag r = c" using registry_with_limit_ok [OF assms(1,2)] by blast+
  then show ?thesis
    using registry_steps_good [OF assms(3)] by (simp add: good_step_def ages_def)
qed

theorem registry_books_kept_witness: "registry_ok (sample_holding StatusPending 0) \<and> tag (sample_holding StatusPending 0) = 1"
proof (rule registry_books_kept)
  show "registry_with_limit 1 1 = (Inr sample_registry, 2)"
    by (simp add: registry_with_limit_def allocate_registry_tag_def meth_defs sample_registry_def id_limits word_le_nat_alt)
  show "registry_steps countdown_host (sample_registry, ()) (sample_holding StatusPending 0, ())"
    by (rule r_into_rtranclp) (rule reg_start [OF sample_start])
qed simp

text \<open>
  C23. No panic: on a registry with its books in order no public method reaches an \<open>expect\<close> on
  nothing, an index out of range or an unsigned underflow, whatever drivers and cleanups do.
\<close>

theorem registry_never_panics:
  assumes "registry_ok (fst s)" and "id_valid op"
  shows "fst (start spec s) \<noteq> Inl Panicked \<and> fst (operation_status op s) \<noteq> Inl Panicked \<and>
    fst (take_outcome H op s) \<noteq> Inl Panicked \<and> fst (registry_poll H op s) \<noteq> Inl Panicked \<and>
    fst (registry_poll_quiescent H op s) \<noteq> Inl Panicked \<and> fst (cancel H op reason s) \<noteq> Inl Panicked \<and>
    fst (abort H op reason s) \<noteq> Inl Panicked \<and> fst (cancel_all H reason s) \<noteq> Inl Panicked \<and>
    fst (cancel_all_and_wait H reason s) \<noteq> Inl Panicked \<and> fst (poll_quiescence H s) \<noteq> Inl Panicked \<and>
    fst (complete H op s) \<noteq> Inl Panicked \<and> fst (fail H op error s) \<noteq> Inl Panicked \<and>
    fst (registry_remove H op s) \<noteq> Inl Panicked"
  by (intro conjI registry_no_panic [OF assms(1)] registry_sound assms(2))

theorem registry_never_panics_witness:
  "fst (registry_poll countdown_host sample_id (sample_holding StatusPending 0, ())) \<noteq> Inl Panicked \<and>
   fst (cancel_all countdown_host CancelVmDrop (sample_holding StatusPending 0, ())) \<noteq> Inl Panicked"
  using registry_never_panics [of "(sample_holding StatusPending 0, ())" sample_id] sample_holding_ok sample_id_fields(1)
  by simp

text \<open>
  C24. A stale id stays dead. Once the operation of an id is gone, the id never names an operation
  again, whatever is started later: every method it is given to fails with the same error and
  changes nothing.
\<close>

theorem stale_id_stays_dead:
  assumes "registry_ok (fst s)" and "id_valid op" and "names_operation (fst s) op"
    and "registry_steps H s u" and "\<not> names_operation (fst u) op" and "registry_steps H u v"
  shows "\<not> names_operation (fst v) op \<and> (\<exists>e. operation_status op v = (Inl (Raised e), v) \<and>
    take_outcome H op v = (Inl (Raised e), v) \<and> registry_poll H op v = (Inl (Raised e), v) \<and>
    registry_poll_quiescent H op v = (Inl (Raised e), v) \<and> cancel H op reason v = (Inl (Raised e), v) \<and>
    abort H op reason v = (Inl (Raised e), v) \<and> complete H op v = (Inl (Raised e), v) \<and>
    fail H op error v = (Inl (Raised e), v) \<and> registry_remove H op v = (Inl (Raised e), v))"
proof -
  have su: "registry_ok (fst u)" "ages tag registry_clock (fst s) (fst u)"
    using registry_steps_good [OF assms(4,1)] by (simp_all add: good_step_def)
  have uv: "registry_ok (fst v)" "ages tag registry_clock (fst u) (fst v)"
    using registry_steps_good [OF assms(6) su(1)] by (simp_all add: good_step_def)
  have dead: "\<not> names_operation (fst v) op"
    by (rule op_stale.stale_for_good [OF assms(3) su(2) assms(5) uv(2)])
  show ?thesis
    using dead id_methodD(2) [OF operation_status_id [OF assms(2)] uv(1) dead, of "snd v"]
      id_methodD(2) [OF take_outcome_id [OF assms(2)] uv(1) dead, of H "snd v"]
      id_methodD(2) [OF registry_poll_id [OF assms(2)] uv(1) dead, of H "snd v"]
      id_methodD(2) [OF registry_poll_quiescent_id [OF assms(2)] uv(1) dead, of H "snd v"]
      id_methodD(2) [OF cancel_id [OF assms(2)] uv(1) dead, of H reason "snd v"]
      id_methodD(2) [OF abort_id [OF assms(2)] uv(1) dead, of H reason "snd v"]
      id_methodD(2) [OF complete_id [OF assms(2)] uv(1) dead, of H "snd v"]
      id_methodD(2) [OF fail_id [OF assms(2)] uv(1) dead, of H error "snd v"]
      id_methodD(2) [OF registry_remove_id [OF assms(2)] uv(1) dead, of H "snd v"]
    by simp
qed


theorem stale_id_stays_dead_witness:
  "\<not> names_operation sample_spent sample_id \<and>
   (\<exists>e. cancel countdown_host sample_id CancelRequested (sample_spent, ()) = (Inl (Raised e), (sample_spent, ())))"
proof -
  have "registry_steps countdown_host (sample_holding StatusPending 0, ()) (sample_spent, ())"
    by (rule r_into_rtranclp) (rule reg_poll [OF sample_id_fields(1) sample_poll])
  then show ?thesis
    using stale_id_stays_dead [of "(sample_holding StatusPending 0, ())" sample_id countdown_host "(sample_spent, ())"
        "(sample_spent, ())" CancelRequested "operation_stale sample_id"] sample_holding_ok sample_id_fields(1) sample_id_named
    by auto
qed

text \<open>
  C25. A terminal status is final: as long as the operation is there, no later call, cancellation
  included, changes the status it ended with.
\<close>

theorem terminal_status_final:
  assumes "registry_ok (fst s)" and "status_of (fst s) op = Some st" and "is_terminal st" and "registry_steps H s u"
  shows "status_of (fst u) op = Some st \<or> \<not> names_operation (fst u) op"
  using registry_steps_good [OF assms(4,1)] assms(2,3) by (auto simp: good_step_def keeps_final_def)

theorem terminal_status_final_witness:
  "status_of (fst (snd (cancel countdown_host sample_id CancelVmDrop (sample_holding StatusCompleted 0, ())))) sample_id =
     Some StatusCompleted"
proof -
  let ?s = "(sample_holding StatusCompleted 0, ())"
  have "cancel countdown_host sample_id CancelVmDrop ?s = (Inr False, ?s)"
    unfolding cancel_def
    by (rule cancel_with_wait_terminal [OF sample_id_fields(1) sample_id_named(1) sample_occupant])
       (simp add: sample_operation_def)
  then have "registry_steps countdown_host ?s (snd (cancel countdown_host sample_id CancelVmDrop ?s))"
    by (intro r_into_rtranclp reg_cancel [OF sample_id_fields(1)]) simp
  moreover have "status_of (sample_holding StatusCompleted 0) sample_id = Some StatusCompleted"
    by (simp add: status_of_def sample_id_named sample_occupant)
  ultimately show ?thesis
    using terminal_status_final [of ?s sample_id StatusCompleted countdown_host] sample_holding_ok
      \<open>cancel countdown_host sample_id CancelVmDrop ?s = (Inr False, ?s)\<close> sample_id_named by simp
qed





text \<open>
  C28. An abort gives the slot back, with an exception. A pending operation is released whatever its
  driver and its cleanup say; but a terminal one whose driver still works is not: the call fails as
  pending and the operation stays.
\<close>

theorem abort_releases_pending:
  assumes "registry_ok r" and "id_valid op" and "names_operation r op"
    and "operation (op_slots r ! id_slot op) = Some p" and "abort H op reason (r, w) = (x, (u, w'))"
  shows "if is_terminal (status p)
    then (if fst (is_quiescent_fn H (driver p) w) then x = Inr False \<and> u = released (id_slot op) r
          else x = Inl (Raised (pending_outcome op)) \<and> u = r)
    else u = released (id_slot op) r \<and> (x = Inr True \<or> (\<exists>e. x = Inl (Raised e)))"
proof (cases "is_terminal (status p)")
  case True
  have "wp (abort H op reason) (\<lambda>x (u, w'). x = False \<and> fst (is_quiescent_fn H (driver p) w) \<and> u = released (id_slot op) r)
      (\<lambda>e (u, w'). e = Raised (pending_outcome op) \<and> \<not> fst (is_quiescent_fn H (driver p) w) \<and> u = r) (r, w)"
    by (auto simp: abort_terminal [OF assms(2-4) True] split: prod.splits)
  with assms(5) True show ?thesis by (auto simp: wp_def split: sum.splits)
next
  case False
  have "wp (abort H op reason) (\<lambda>x (u, w'). x \<and> u = released (id_slot op) r)
      (\<lambda>e (u, w'). (\<exists>f. e = Raised f) \<and> u = released (id_slot op) r) (r, w)"
    by (rule wp_use [OF abort_pending [OF assms(2-4) False]]) (auto, metis fault.exhaust)
  with assms(5) False show ?thesis by (auto simp: wp_def split: sum.splits)
qed

theorem abort_releases_pending_witness:
  "fst (abort countdown_host sample_id CancelRequested (sample_holding StatusCompleted 1, ())) =
     Inl (Raised (pending_outcome sample_id))"
proof -
  let ?s = "(sample_holding StatusCompleted 1, ())"
  let ?x = "abort countdown_host sample_id CancelRequested ?s"
  have "?x = (fst ?x, (fst (snd ?x), ()))" by (rule fst_pair_unit) (rule refl)
  from abort_releases_pending [OF sample_holding_ok sample_id_fields(1) sample_id_named(1) sample_occupant this]
  show ?thesis by (simp add: countdown_host_def sample_operation_def)
qed

end
