(* ===== verification/ScopeInv.thy ===== *)
theory ScopeInv
  imports Scope TableProps RegistryProps
begin

text \<open>
  The invariant of an execution scope, and that every method keeps it without a panic. The laws of
  the table and of the registry are used through their soundness only.
\<close>

section \<open>The invariant\<close>

text \<open>
  What each phase of the lifecycle promises. While active the scope has closed nothing; while
  closing it is sealed, a sweep of the table runs under the reason of the close, no operation is
  pending once the operations have been cancelled, and the failure latch is exact; once quiescent
  both registries are empty for good.
\<close>

definition phase_ok :: "('d, 'k, 'r, 's) ExecutionScope \<Rightarrow> bool" where
  "phase_ok sc = (case state sc of
       Active \<Rightarrow> close_reason sc = None \<and> \<not> operations_drained sc \<and> terminal sc = None \<and>
         close_all_state (resources sc) = None \<and> scope_first_error sc = None \<and> failed_count sc = 0
     | ScopeClosing \<Rightarrow> sealed (operations sc) \<and> terminal sc = None \<and>
         (\<exists>reason. close_reason sc = Some reason \<and> \<not> sweep_conflict (resources sc) reason) \<and>
         (operations_drained sc \<longrightarrow> active_count (operations sc) = 0) \<and>
         (\<not> operations_drained sc \<longrightarrow> failed_count sc = 0) \<and>
         report_ok (sweep_start (resources sc)) \<and> (scope_first_error sc = None \<longleftrightarrow> failed_count sc = 0)
     | Quiescent \<Rightarrow> close_reason sc \<noteq> None \<and> terminal sc \<noteq> None \<and> close_all_state (resources sc) = None \<and>
         registry_is_empty (operations sc) \<and> occupied (resources sc) = {})"

definition scope_ok :: "('r, 'w) HostResource \<Rightarrow> ('d, 'k, 'r, 's) ExecutionScope \<Rightarrow> bool" where
  "scope_ok HR sc \<longleftrightarrow> table_ok HR (resources sc) \<and> registry_ok (operations sc) \<and> phase_ok sc"

text \<open>
  What a call may do to a scope: the tokens of both registries age, the lifecycle only advances, a
  scope that has stopped being active takes nothing new in, the first reason stays, and a
  quiescent scope keeps its outcome.
\<close>

fun phase :: "ScopeState \<Rightarrow> nat" where
  "phase Active = 0"
| "phase ScopeClosing = 1"
| "phase Quiescent = 2"

definition scope_moves :: "('d, 'k, 'r, 's) ExecutionScope \<Rightarrow> ('d, 'k, 'r, 's) ExecutionScope \<Rightarrow> bool" where
  "scope_moves sc sc' \<longleftrightarrow>
     ages arena_id table_clock (resources sc) (resources sc') \<and>
     ages tag registry_clock (operations sc) (operations sc') \<and>
     phase (state sc) \<le> phase (state sc') \<and>
     (state sc \<noteq> Active \<longrightarrow> close_reason sc' = close_reason sc \<and>
        (\<forall>h. names_resource (resources sc') h \<longrightarrow> names_resource (resources sc) h) \<and>
        (\<forall>op. names_operation (operations sc') op \<longrightarrow> names_operation (operations sc) op)) \<and>
     (state sc = Quiescent \<longrightarrow> terminal sc' = terminal sc)"

definition scope_inv :: "('r, 'w) HostResource \<Rightarrow> ('d, 'k, 'r, 's) ExecutionScope \<times> 'w \<Rightarrow> bool" where
  "scope_inv HR s \<longleftrightarrow> scope_ok HR (fst s)"

definition scope_moved :: "('d, 'k, 'r, 's) ExecutionScope \<times> 'w \<Rightarrow> ('d, 'k, 'r, 's) ExecutionScope \<times> 'w \<Rightarrow> bool" where
  "scope_moved s u \<longleftrightarrow> scope_moves (fst s) (fst u)"

lemma phase_inj: "phase a = phase b \<longleftrightarrow> a = b"
  by (cases a; cases b) auto

lemma scope_moves_refl: "scope_moves sc sc"
  by (simp add: scope_moves_def ages_refl)

lemma scope_moves_trans: "scope_moves a b \<Longrightarrow> scope_moves b c \<Longrightarrow> scope_moves a c"
  by (cases "state a"; cases "state b") (auto simp: scope_moves_def intro: ages_trans)

interpretation scope_frame: preserving "scope_inv HR" scope_moved for HR
  by unfold_locales (auto simp: scope_moved_def scope_moves_refl intro: scope_moves_trans)

text \<open>Calls that only consume leave the lifecycle where it is and take nothing in, even while the scope is active.\<close>

definition scope_kept :: "('d, 'k, 'r, 's) ExecutionScope \<times> 'w \<Rightarrow> ('d, 'k, 'r, 's) ExecutionScope \<times> 'w \<Rightarrow> bool" where
  "scope_kept s u \<longleftrightarrow> scope_moved s u \<and> state (fst u) = state (fst s) \<and>
     (\<forall>h. names_resource (resources (fst u)) h \<longrightarrow> names_resource (resources (fst s)) h) \<and>
     (\<forall>op. names_operation (operations (fst u)) op \<longrightarrow> names_operation (operations (fst s)) op)"

interpretation kept: preserving "scope_inv HR" scope_kept for HR
  by unfold_locales (auto simp: scope_kept_def intro: scope_frame.relates_refl scope_frame.relates_trans)

lemma kept_sound: "sound (scope_inv HR) scope_kept m \<Longrightarrow> sound (scope_inv HR) scope_moved m"
  by (erule sound_mono) (simp add: scope_kept_def)

section \<open>Calls of a field\<close>

lemma occupied_named: "table_ok H t \<Longrightarrow> i \<in> occupied t \<Longrightarrow> names_resource t (slot_handle t i)"
  using handle_at_valid(3-5) [of H t i] by (simp add: names_resource_def)

lemma nothing_named: "table_ok H t \<Longrightarrow> occupied t = {} \<longleftrightarrow> (\<forall>h. \<not> names_resource t h)"
  by (metis occupied_named names_resource_def all_not_in_conv)

lemma nothing_registered:
  assumes "registry_ok r"
  shows "registry_is_empty r \<longleftrightarrow> (\<forall>op. \<not> names_operation r op)"
proof
  assume none: "\<forall>op. \<not> names_operation r op"
  have "operation (op_slots r ! i) = None" if i: "i < length (op_slots r)" for i
  proof -
    obtain op where "id_registry_tag op = tag r" "id_slot op = i" "id_generation op = op_generation (op_slots r ! i)"
      by (rule slot_id [OF assms i])
    with none [rule_format, of op] i show ?thesis by (simp add: names_operation_def)
  qed
  then show "registry_is_empty r" by (simp add: registry_is_empty_def list_ex_iff all_set_conv_all_nth)
qed (use nth_mem in \<open>fastforce simp only: registry_is_empty_def names_operation_def list_ex_iff\<close>)

lemma map_fault_Panicked [simp]: "map_fault f e = Panicked \<longleftrightarrow> e = Panicked"
  by (cases e) auto

lemma calm_names:
  "table_calm (t, w) (u, w') \<Longrightarrow> names_resource u h \<Longrightarrow> names_resource t h"
  "registry_calm (r, w) (q, w') \<Longrightarrow> names_operation q op \<Longrightarrow> names_operation r op"
  by (simp_all add: table_calm_def registry_calm_def)

lemma kept_on_resources:
  fixes m :: "('r, 's, 'w, 'a) TableMethod"
  assumes "sound (table_inv HR 0) table_calm m"
  shows "sound (scope_inv HR) scope_kept (on_resources m :: ('d, 'k, 'r, 's, 'w, 'a) ScopeMethod)"
proof (rule soundI)
  fix s :: "('d, 'k, 'r, 's) ExecutionScope \<times> 'w"
  assume inv: "scope_inv HR s"
  obtain sc w where s: "s = (sc, w)" by fastforce
  have keep: "scope_ok HR (sc\<lparr>resources := t\<rparr>) \<and> scope_moves sc (sc\<lparr>resources := t\<rparr>)"
    if "table_inv HR 0 (t, w')" "table_calm (resources sc, w) (t, w')" for t and w' :: 'w
  proof -
    have tables: "table_ok HR (resources sc)" "table_ok HR t"
      and names: "\<And>h. names_resource t h \<Longrightarrow> names_resource (resources sc) h"
      using that inv by (simp_all add: s scope_inv_def scope_ok_def table_inv_def table_calm_def)
    have "occupied t = {}" if "occupied (resources sc) = {}"
      using that names unfolding nothing_named [OF tables(1)] nothing_named [OF tables(2)] by blast
    with that inv show ?thesis
      by (auto simp: scope_inv_def scope_ok_def phase_ok_def s table_inv_def table_calm_def table_ages_def
          sweep_conflict_def sweep_start_def scope_moves_def ages_refl split: ScopeState.splits)
  qed
  show "wp (on_resources m) (\<lambda>_ u. scope_inv HR u \<and> scope_kept s u)
      (\<lambda>e u. e \<noteq> Panicked \<and> scope_inv HR u \<and> scope_kept s u) s"
    unfolding s on_resources_def wp_zoom
    by (rule sound_wp [OF assms]) (use inv keep in \<open>auto simp: s scope_inv_def scope_kept_def scope_moved_def scope_ok_def table_inv_def dest: calm_names\<close>)
qed

lemma kept_on_operations:
  fixes m :: "('d, 'k, 'w, 'a) RegistryMethod"
  assumes "sound registry_inv registry_calm m"
  shows "sound (scope_inv HR) scope_kept (on_operations m :: ('d, 'k, 'r, 's, 'w, 'a) ScopeMethod)"
proof (rule soundI)
  fix s :: "('d, 'k, 'r, 's) ExecutionScope \<times> 'w"
  assume inv: "scope_inv HR s"
  obtain sc w where s: "s = (sc, w)" by fastforce
  have keep: "scope_ok HR (sc\<lparr>operations := r\<rparr>) \<and> scope_moves sc (sc\<lparr>operations := r\<rparr>)"
    if "registry_inv (r, w')" "registry_calm (operations sc, w) (r, w')" for r and w' :: 'w
  proof -
    have registries: "registry_ok (operations sc)" "registry_ok r"
      and names: "\<And>op. names_operation r op \<Longrightarrow> names_operation (operations sc) op"
      using that inv by (simp_all add: s scope_inv_def scope_ok_def registry_inv_def registry_calm_def)
    have "registry_is_empty r" if "registry_is_empty (operations sc)"
      using that names unfolding nothing_registered [OF registries(1)] nothing_registered [OF registries(2)] by blast
    with that inv show ?thesis
      by (auto simp: scope_inv_def scope_ok_def phase_ok_def s registry_inv_def registry_calm_def registry_ages_def
          scope_moves_def ages_refl split: ScopeState.splits)
  qed
  show "wp (on_operations m) (\<lambda>_ u. scope_inv HR u \<and> scope_kept s u)
      (\<lambda>e u. e \<noteq> Panicked \<and> scope_inv HR u \<and> scope_kept s u) s"
    unfolding s on_operations_def wp_zoom
    by (rule sound_wp [OF assms]) (use inv keep in \<open>auto simp: s scope_inv_def scope_kept_def scope_moved_def scope_ok_def registry_inv_def dest: calm_names\<close>)
qed


section \<open>Methods that leave the lifecycle alone\<close>

lemma ensure_accepting_kept: "sound (scope_inv HR) scope_kept ensure_accepting"
  unfolding ensure_accepting_def own_def by (intro kept.sound_intros)

lemma consumers_kept:
  "sound (scope_inv HR) scope_kept (scope_insert_state tid init f)"
  "sound (scope_inv HR) scope_kept (scope_get_state tid)"
  "sound (scope_inv HR) scope_kept (scope_modify_state tid f)"
  "sound (scope_inv HR) scope_kept (scope_take_state tid)"
  "handle_valid h \<Longrightarrow> sound (scope_inv HR) scope_kept (take_resource tid h)"
  "handle_valid h \<Longrightarrow> sound (scope_inv HR) scope_kept (poll_resource_close HR tid h)"
  "id_valid op \<Longrightarrow> sound (scope_inv HR) scope_kept (cancel_operation HO op reason)"
  "id_valid op \<Longrightarrow> sound (scope_inv HR) scope_kept (complete_operation HO op)"
  "id_valid op \<Longrightarrow> sound (scope_inv HR) scope_kept (take_operation_outcome HO op)"
  "id_valid op \<Longrightarrow> sound (scope_inv HR) scope_kept (poll_operation HO op)"
  "id_valid op \<Longrightarrow> sound (scope_inv HR) scope_kept (poll_operation_quiescence HO op)"
  "id_valid op \<Longrightarrow> sound (scope_inv HR) scope_kept (abort_operation HO op reason)"
  unfolding scope_insert_state_def scope_get_state_def scope_modify_state_def scope_take_state_def take_resource_def
    poll_resource_close_def cancel_operation_def complete_operation_def take_operation_outcome_def poll_operation_def
    poll_operation_quiescence_def abort_operation_def
  apply (intro kept.sound_then_do ensure_accepting_kept kept_on_resources
      scope_state_methods_calm table_take_calm poll_close_calm; assumption)+
  by (rule kept_on_operations, rule id_method_calm,
      (rule cancel_id | rule complete_id | rule take_outcome_id | rule registry_poll_id | rule registry_poll_quiescent_id |
       rule abort_id), assumption)+

lemma close_resource_eq:
  "close_resource HR tid h reason =
     then_do (on_resources (validate_active tid h)) (on_resources (begin_close HR tid h reason))"
  by (rule ext) (simp add: close_resource_def typed_def on_resources_def zoom_def meth_defs split: prod.splits sum.splits)

lemma close_resource_kept:
  "handle_valid h \<Longrightarrow> sound (scope_inv HR) scope_kept (close_resource HR tid h reason)"
  unfolding close_resource_eq
  by (intro kept.sound_then_do kept_on_resources validate_active_calm begin_close_calm)

section \<open>Inserts\<close>

lemma push_spec:
  assumes "table_ok H t"
  shows "wp (push H tid v) (\<lambda>h (u, w'). w' = w \<and> table_ok H u \<and> ages arena_id table_clock t u \<and>
      close_all_state u = close_all_state t \<and> handle_valid h \<and> names_resource u h \<and>
      (\<forall>h'. names_resource u h' \<longrightarrow> names_resource t h' \<or> handle_slot h' = handle_slot h))
    (\<lambda>e s. e \<noteq> Panicked \<and> s = (t, w)) (t, w)"
proof -
  obtain r u w' where run: "allocate H tid v (t, w) = (r, (u, w'))" by (metis surj_pair)
  show ?thesis
  proof (cases r)
    case (Inl e)
    have "w' = w" "u = t" "e \<noteq> Panicked"
      using wp_D(2) [OF wp_allocate [OF assms, of tid v w] run [unfolded Inl]] by (auto split: if_splits)
    then show ?thesis by (simp add: wp_def push_def run Inl)
  next
    case (Inr h)
    note new = allocated [OF assms run [unfolded Inr]]
    have "close_all_state u = close_all_state t"
      using wp_D(1) [OF wp_allocate [OF assms, of tid v w] run [unfolded Inr]]
      by (auto simp: add_slot_def reuse_slot_def split: if_splits)
    moreover have "names_resource t h'" if "names_resource u h'" "handle_slot h' \<noteq> handle_slot h" for h'
      using that new(5,9,11) by (auto simp: names_resource_def ages_def)
    ultimately show ?thesis using new(1-3,5,7) by (auto simp: wp_def push_def run Inr)
  qed
qed

lemma push_resource_sound: "sound (scope_inv HR) scope_moved (push_resource HR tid v)"
proof (rule soundI)
  fix s
  assume inv: "scope_inv HR s"
  obtain sc w where s: "s = (sc, w)" by fastforce
  show "wp (push_resource HR tid v) (\<lambda>_ u. scope_inv HR u \<and> scope_moved s u)
      (\<lambda>e u. e \<noteq> Panicked \<and> scope_inv HR u \<and> scope_moved s u) s"
  proof (cases "state sc = Active")
    case True
    then show ?thesis
      unfolding s push_resource_def ensure_accepting_def on_resources_def wp_simps
      by (auto intro!: wp_use [OF push_spec] simp: scope_moved_def scope_moves_refl)
         (use inv True in \<open>auto simp: s scope_inv_def scope_ok_def phase_ok_def scope_moves_def ages_refl\<close>)
  qed (use inv in \<open>simp add: s push_resource_def ensure_accepting_def wp_simps scope_moved_def scope_moves_refl\<close>)
qed

lemma start_operation_sound:
  fixes HR :: "('r, 'w) HostResource" and spec :: "('d, 'k) OperationSpec"
  shows "sound (scope_inv HR) scope_moved (start_operation spec :: ('d, 'k, 'r, 's, 'w, OperationId) ScopeMethod)"
proof (rule soundI)
  fix s :: "('d, 'k, 'r, 's) ExecutionScope \<times> 'w"
  assume inv: "scope_inv HR s"
  obtain sc w where s: "s = (sc, w)" by fastforce
  show "wp (start_operation spec) (\<lambda>_ u. scope_inv HR u \<and> scope_moved s u)
      (\<lambda>e u. e \<noteq> Panicked \<and> scope_inv HR u \<and> scope_moved s u) s"
  proof (cases "state sc = Active")
    case True
    then show ?thesis
      unfolding s start_operation_def ensure_accepting_def on_operations_def wp_simps
      by (auto intro!: wp_use [OF start_spec] simp: scope_moved_def scope_moves_refl)
         (use inv True in \<open>auto simp: s scope_inv_def scope_ok_def phase_ok_def scope_moves_def ages_refl\<close>)
  qed (use inv in \<open>simp add: s start_operation_def ensure_accepting_def wp_simps scope_moved_def scope_moves_refl\<close>)
qed

lemma registry_ok_seal [simp]: "registry_ok (r\<lparr>sealed := b\<rparr>) = registry_ok r"
  "registry_clock (r\<lparr>sealed := b\<rparr>) = registry_clock r" "names_operation (r\<lparr>sealed := b\<rparr>) = names_operation r"
  "active_count (r\<lparr>sealed := b\<rparr>) = active_count r"
  by (auto simp: registry_ok_def active_count_def registry_clock_def names_operation_def fun_eq_iff)

lemma phase_ok_cases:
  "state sc = Active \<Longrightarrow> phase_ok sc \<longleftrightarrow> close_reason sc = None \<and> \<not> operations_drained sc \<and> terminal sc = None \<and>
     close_all_state (resources sc) = None \<and> scope_first_error sc = None \<and> failed_count sc = 0"
  "state sc = ScopeClosing \<Longrightarrow> phase_ok sc \<longleftrightarrow> sealed (operations sc) \<and> terminal sc = None \<and>
     (\<exists>reason. close_reason sc = Some reason \<and> \<not> sweep_conflict (resources sc) reason) \<and>
     (operations_drained sc \<longrightarrow> active_count (operations sc) = 0) \<and>
     (\<not> operations_drained sc \<longrightarrow> failed_count sc = 0) \<and>
     report_ok (sweep_start (resources sc)) \<and> (scope_first_error sc = None \<longleftrightarrow> failed_count sc = 0)"
  "state sc = Quiescent \<Longrightarrow> phase_ok sc \<longleftrightarrow> close_reason sc \<noteq> None \<and> terminal sc \<noteq> None \<and>
     close_all_state (resources sc) = None \<and> registry_is_empty (operations sc) \<and> occupied (resources sc) = {}"
  by (simp_all add: phase_ok_def)

definition begun :: "ResourceCloseReason \<Rightarrow> ('d, 'k, 'r, 's) ExecutionScope \<Rightarrow> ('d, 'k, 'r, 's) ExecutionScope" where
  "begun reason sc = sc\<lparr>state := ScopeClosing, close_reason := Some reason, operations := (operations sc)\<lparr>sealed := True\<rparr>\<rparr>"

lemma begun_ok: "scope_ok HR sc \<Longrightarrow> state sc = Active \<Longrightarrow> scope_ok HR (begun reason sc) \<and> scope_moves sc (begun reason sc)"
  by (simp add: begun_def scope_ok_def phase_ok_cases sweep_conflict_def sweep_start_def report_ok_def scope_moves_def ages_def)

lemma wp_scope_begin_close:
  "wp (scope_begin_close reason) Q E (sc, w) =
     (if state sc = Active then Q True (begun reason sc, w)
      else if close_reason sc = Some reason then Q False (sc, w)
      else E (Raised (CloseAlreadyInProgress (close_reason sc) reason)) (sc, w))"
  by (simp add: scope_begin_close_def on_operations_def seal_def wp_simps begun_def)

lemma scope_begin_close_sound: "sound (scope_inv HR) scope_moved (scope_begin_close reason)"
  by (rule soundI) (auto simp: wp_scope_begin_close scope_inv_def scope_moved_def scope_moves_refl
      intro: begun_ok [THEN conjunct1] begun_ok [THEN conjunct2])

section \<open>Closing\<close>

lemma wp_total:
  assumes "wp m Q (\<lambda>_ _. False) (s, w)"
  obtains x t w' where "m (s, w) = (Inr x, (t, w'))" "Q x (t, w')"
  using assms by (auto simp: wp_def split: prod.splits sum.splits)

text \<open>Between two points of a close: nothing recorded is lost.\<close>

definition latched :: "('d, 'k, 'r, 's) ExecutionScope \<Rightarrow> ('d, 'k, 'r, 's) ExecutionScope \<Rightarrow> bool" where
  "latched sc sc' \<longleftrightarrow> failed_count sc \<le> failed_count sc' \<and>
     (\<forall>e. scope_first_error sc = Some e \<longrightarrow> scope_first_error sc' = Some e)"

lemma wp_record_failures [wp_simps]:
  "wp (record_failures first n) Q E (sc, w) =
     Q () (sc\<lparr>scope_first_error := (case first of None \<Rightarrow> scope_first_error sc | Some e \<Rightarrow> get_or_insert (scope_first_error sc) e),
       failed_count := failed_count sc + (if first = None then n else max 1 n)\<rparr>, w)"
  by (cases first) (auto simp: record_failures_def record_failure_def wp_simps max_def)

lemma cancel_operations_once_spec:
  assumes ok: "scope_ok HR sc" and closing: "state sc = ScopeClosing"
  shows "wp (cancel_operations_once HO reason) (\<lambda>_ (sc', w'). scope_ok HR sc' \<and> scope_moves sc sc' \<and>
      state sc' = ScopeClosing \<and> operations_drained sc' \<and> resources sc' = resources sc \<and>
      close_reason sc' = close_reason sc \<and> latched sc sc' \<and>
      failed_count sc' \<le> failed_count sc + active_count (operations sc)) (\<lambda>_ _. False) (sc, w)"
proof (cases "operations_drained sc")
  case True
  with assms show ?thesis
    by (simp add: cancel_operations_once_def wp_simps scope_moves_refl latched_def)
next
  case False
  have registry: "registry_ok (operations sc)" and phase: "phase_ok sc" using ok by (simp_all add: scope_ok_def)
  have "scope_ok HR sc' \<and> scope_moves sc sc' \<and> state sc' = ScopeClosing \<and> operations_drained sc' \<and>
      resources sc' = resources sc \<and> close_reason sc' = close_reason sc \<and> latched sc sc' \<and>
      failed_count sc' \<le> failed_count sc + active_count (operations sc)"
    if batch: "batch_done P (operations sc) y r" and sc': "sc' = sc\<lparr>operations := r,
        scope_first_error := (case map_option CloseOperation (cancel_first_error y) of
          None \<Rightarrow> scope_first_error sc | Some e \<Rightarrow> get_or_insert (scope_first_error sc) e),
        failed_count := failed_count sc + (if cancel_first_error y = None then cancel_failed y else max 1 (cancel_failed y)),
        operations_drained := True\<rparr>" for P y r sc'
  proof -
    have "registry_ok r" "registry_calm (operations sc, ()) (r, ())" "active_count r = 0"
      "cancel_first_error y = None \<longleftrightarrow> cancel_failed y = 0" "cancel_failed y \<le> active_count (operations sc)"
      using batch by (simp_all add: batch_done_def same_arena_def counts_def summary_default_def)
    moreover have "failed_count sc = 0" "scope_first_error sc = None" "sealed (operations sc)"
      using phase closing False by (simp_all add: phase_ok_cases)
    ultimately show ?thesis
      using ok closing False phase
      by (cases "cancel_first_error y") (simp_all add: sc' scope_ok_def phase_ok_cases scope_moves_def ages_refl
          registry_calm_def registry_ages_def latched_def get_or_insert_def)
  qed
  then show ?thesis
    unfolding cancel_operations_once_def on_operations_def record_operation_summary_def
    by (simp add: wp_simps False) (rule wp_use [OF cancel_all_spec [OF registry]]; force simp: wp_simps)
qed


text \<open>
  One poll of a closing scope: the operations are cancelled and drained, and only when the registry
  is empty does the poll go on to the table.
\<close>

lemma scope_poll_cases:
  assumes ok: "scope_ok HR sc" and closing: "state sc = ScopeClosing" "close_reason sc = Some reason"
  obtains sc' r w'' where "scope_ok HR sc'" "scope_moves sc sc'" "state sc' = ScopeClosing" "operations_drained sc'"
      "resources sc' = resources sc" "close_reason sc' = Some reason" "latched sc sc'"
      "failed_count sc' \<le> failed_count sc + active_count (operations sc)" "operations_drained sc \<longrightarrow> sc' = sc"
      "registry_ok r" "registry_calm (operations sc', ()) (r, ())"
      "\<forall>i < length (op_slots (operations sc')). slot_quieted HO (op_slots (operations sc') ! i) (op_slots r ! i)"
      "length (op_slots r) = length (op_slots (operations sc'))"
      "scope_poll_close HR HO (sc, w) =
         (if registry_is_empty r then poll_close_resources HR reason (sc'\<lparr>operations := r\<rparr>, w'')
          else (Inr Pending, (sc'\<lparr>operations := r\<rparr>, w'')))"
proof -
  obtain sc' w' where run1: "cancel_operations_once HO reason (sc, w) = (Inr (), (sc', w'))"
    and sc': "scope_ok HR sc'" "scope_moves sc sc'" "state sc' = ScopeClosing" "operations_drained sc'"
      "resources sc' = resources sc" "close_reason sc' = Some reason" "latched sc sc'"
      "failed_count sc' \<le> failed_count sc + active_count (operations sc)"
    by (rule wp_total [OF cancel_operations_once_spec [OF ok closing(1), of HO reason w]]) (use closing(2) in auto)
  have same: "sc' = sc" if "operations_drained sc"
    using run1 that by (simp add: cancel_operations_once_def meth_defs own_def)
  have registry: "registry_ok (operations sc')" using sc'(1) by (simp add: scope_ok_def)
  obtain r w'' where run2: "poll_quiescence HO (operations sc', w') = (Inr (registry_is_empty r), (r, w''))"
    and r: "same_arena (operations sc') r"
      "\<forall>i < length (op_slots (operations sc')). slot_quieted HO (op_slots (operations sc') ! i) (op_slots r ! i)"
    by (rule wp_total [OF poll_quiescence_spec [OF registry, of HO w']]) auto
  have run: "scope_poll_close HR HO (sc, w) =
         (if registry_is_empty r then poll_close_resources HR reason (sc'\<lparr>operations := r\<rparr>, w'')
          else (Inr Pending, (sc'\<lparr>operations := r\<rparr>, w'')))"
    using closing run1 run2
    by (simp add: scope_poll_close_def and_then_apply then_do_def own_def self_def expect_def ok_or_def ok_def
        on_operations_def zoom_def)
  show thesis
    by (rule that [OF sc' _ _ _ r(2) _ run]) (use r(1) same in \<open>simp_all add: same_arena_def\<close>)
qed


text \<open>The outcome of a close with \<open>n\<close> failures in all, the first of them latched earlier or not.\<close>

definition outcome_for :: "ScopeCloseError option \<Rightarrow> nat \<Rightarrow> ScopeCloseOutcome \<Rightarrow> bool" where
  "outcome_for first n outcome = (case outcome of
       CloseSuccess \<Rightarrow> n = 0
     | SuccessWithErrors f \<Rightarrow> 0 < n \<and> failure_failed f = n \<and> (\<forall>e. first = Some e \<longrightarrow> failure_first f = e))"

definition finished ::
  "('d, 'k, 'r, 's) ExecutionScope \<Rightarrow> ('r, 's) ResourceTable \<Rightarrow> nat \<Rightarrow> ScopeCloseOutcome \<Rightarrow> ('d, 'k, 'r, 's) ExecutionScope" where
  "finished sc t n outcome = sc\<lparr>resources := t, state := Quiescent, scope_first_error := None, failed_count := n,
     terminal := Some outcome\<rparr>"

lemma poll_resources_cases:
  assumes ok: "scope_ok HR sc" and closing: "state sc = ScopeClosing" "close_reason sc = Some reason"
  obtains
    (ready) t w' n outcome where "poll_close_resources HR reason (sc, w) = (Inr (Ready outcome), (finished sc t n outcome, w'))"
      "table_ok HR t" "occupied t = {}" "close_all_state t = None" "ages arena_id table_clock (resources sc) t"
      "failed_count sc + failed (sweep_start (resources sc)) \<le> n"
      "n \<le> failed_count sc + failed (sweep_start (resources sc)) + card (occupied (resources sc))"
      "outcome_for (scope_first_error sc) n outcome"
  | (pending) t w' where "poll_close_resources HR reason (sc, w) = (Inr Pending, (sc\<lparr>resources := t\<rparr>, w'))"
      "poll_close_all_report HR reason (resources sc, w) = (Inr Pending, (t, w'))"
      "table_ok HR t" "occupied t \<noteq> {}" "\<not> sweep_conflict t reason" "report_ok (sweep_start t)"
      "failed (sweep_start (resources sc)) \<le> failed (sweep_start t)" "no_open t"
      "ages arena_id table_clock (resources sc) t" "\<And>h. names_resource t h \<Longrightarrow> names_resource (resources sc) h"
proof -
  have table: "table_ok HR (resources sc)" "\<not> sweep_conflict (resources sc) reason" "report_ok (sweep_start (resources sc))"
    and latch: "scope_first_error sc = None \<longleftrightarrow> failed_count sc = 0"
    using ok closing by (auto simp: scope_ok_def phase_ok_cases)
  obtain x t w' where run: "poll_close_all_report HR reason (resources sc, w) = (x, (t, w'))" by (metis surj_pair)
  have aged: "ages arena_id table_clock (resources sc) t"
    using sound_result(2) [OF poll_close_all_report_sound [of HR 0] _ run] table(1)
    by (simp add: table_inv_def table_ages_def)
  from table(1,2) show thesis
  proof (cases rule: poll_cases [where w = w])
    case (ready y u w')
    let ?n = "failed_count sc + failed y"
    obtain first where first: "first = (case first_error y of None \<Rightarrow> scope_first_error sc
        | Some e \<Rightarrow> get_or_insert (scope_first_error sc) (CloseResource e))" by simp
    define outcome where "outcome = (case first of
        Some e \<Rightarrow> SuccessWithErrors \<lparr>failure_first = e, failure_failed = ?n\<rparr> | None \<Rightarrow> CloseSuccess)"
    have report: "first_error y = None \<longleftrightarrow> failed y = 0" using ready(7) [OF table(3)] by (simp add: report_ok_def)
    have "poll_close_resources HR reason (sc, w) = (Inr (Ready outcome), (finished sc u ?n outcome, w'))"
      using report ready(1)
      by (cases "first_error y"; cases "scope_first_error sc"; cases sc)
        (simp_all add: poll_close_resources_def on_resources_def zoom_def attempt_def and_then_apply record_failures_def record_failure_def finish_close_def then_do_def own_def set_own_def self_def
        update_def expect_def ok_or_def ok_def finished_def outcome_def first get_or_insert_def)
    then show thesis
    proof (rule that(1))
      show "ages arena_id table_clock (resources sc) u" using aged run ready(1) by simp
      show "outcome_for (scope_first_error sc) ?n outcome"
        using report latch by (cases "first_error y"; cases "scope_first_error sc")
          (auto simp: outcome_for_def outcome_def first get_or_insert_def)
    qed (use ready in auto)
  next
    case (pending u w')
    have "poll_close_resources HR reason (sc, w) = (Inr Pending, (sc\<lparr>resources := u\<rparr>, w'))"
      by (simp add: poll_close_resources_def on_resources_def zoom_def attempt_def pending(1) and_then_apply ok_def)
    then show thesis
    proof (rule that(2))
      show "ages arena_id table_clock (resources sc) u" using aged run pending(1) by simp
    qed (use pending table(3) in \<open>auto simp: sweep_conflict_def\<close>)
  qed
qed


text \<open>
  The three ways a poll of a closing scope ends: operations are still being drained and no resource
  has been touched, the table is being swept, or the scope is quiescent.
\<close>

lemma closing_cases:
  fixes HR :: "('r, 'w) HostResource" and HO :: "('d, 'k, 'w) HostOperation" and sc :: "('d, 'k, 'r, 's) ExecutionScope"
  assumes ok: "scope_ok HR sc" and closing: "state sc = ScopeClosing" "close_reason sc = Some reason"
  obtains
    (draining) sc' w' where "scope_poll_close HR HO (sc, w) = (Inr Pending, (sc', w'))" "scope_ok HR sc'" "scope_moves sc sc'"
      "state sc' = ScopeClosing" "close_reason sc' = Some reason" "operations_drained sc'" "latched sc sc'"
      "\<not> registry_is_empty (operations sc')" "resources sc' = resources sc"
      "operations_drained sc \<Longrightarrow> length (op_slots (operations sc')) = length (op_slots (operations sc)) \<and>
         (\<forall>i < length (op_slots (operations sc)). slot_quieted HO (op_slots (operations sc) ! i) (op_slots (operations sc') ! i))"
  | (sweeping) sc' w' w'' where "scope_poll_close HR HO (sc, w) = (Inr Pending, (sc', w'))" "scope_ok HR sc'" "scope_moves sc sc'"
      "state sc' = ScopeClosing" "close_reason sc' = Some reason" "operations_drained sc'" "latched sc sc'"
      "registry_is_empty (operations sc')" "occupied (resources sc') \<noteq> {}" "no_open (resources sc')"
      "failed (sweep_start (resources sc)) \<le> failed (sweep_start (resources sc'))"
      "poll_close_all_report HR reason (resources sc, w'') = (Inr Pending, (resources sc', w'))"
  | (ready) sc' w' outcome where "scope_poll_close HR HO (sc, w) = (Inr (Ready outcome), (sc', w'))" "scope_ok HR sc'"
      "scope_moves sc sc'" "state sc' = Quiescent" "terminal sc' = Some outcome" "scope_first_error sc' = None"
      "failed_count sc + failed (sweep_start (resources sc)) \<le> failed_count sc'"
      "failed_count sc' \<le> failed_count sc + active_count (operations sc) +
         failed (sweep_start (resources sc)) + card (occupied (resources sc))"
      "outcome_for (scope_first_error sc) (failed_count sc') outcome"
proof -
  obtain sc1 r w2 where sc1: "scope_ok HR sc1" "scope_moves sc sc1" "state sc1 = ScopeClosing" "operations_drained sc1"
      "resources sc1 = resources sc" "close_reason sc1 = Some reason" "latched sc sc1"
      "failed_count sc1 \<le> failed_count sc + active_count (operations sc)" "operations_drained sc \<longrightarrow> sc1 = sc"
    and r: "registry_ok r" "registry_calm (operations sc1, ()) (r, ())"
      "\<forall>i < length (op_slots (operations sc1)). slot_quieted HO (op_slots (operations sc1) ! i) (op_slots r ! i)"
      "length (op_slots r) = length (op_slots (operations sc1))"
    and run: "scope_poll_close HR HO (sc, w) =
         (if registry_is_empty r then poll_close_resources HR reason (sc1\<lparr>operations := r\<rparr>, w2)
          else (Inr Pending, (sc1\<lparr>operations := r\<rparr>, w2)))"
    using assms by (rule scope_poll_cases [where w = w and HO = HO])
  let ?sc2 = "sc1\<lparr>operations := r\<rparr>"
  have sc2: "scope_ok HR ?sc2" "scope_moves sc1 ?sc2"
    using sc1 r(1,2) by (auto simp: scope_ok_def phase_ok_cases scope_moves_def registry_calm_def registry_ages_def ages_refl)
  then have moves: "scope_moves sc ?sc2" using sc1(2) scope_moves_trans by blast
  have latch: "latched sc ?sc2" using sc1(7) by (simp add: latched_def)
  show thesis
  proof (cases "registry_is_empty r")
    case False
    show thesis
      by (rule draining [of ?sc2 w2]) (use False run sc1 sc2 moves latch r in auto)
  next
    case True
    from sc2(1) have "state ?sc2 = ScopeClosing" "close_reason ?sc2 = Some reason" using sc1 by simp_all
    with sc2(1) show thesis
    proof (cases rule: poll_resources_cases [where w = w2])
      case (ready t w3 n outcome)
      have "registry_ok r" "table_ok HR t" using r(1) ready(2) by auto
      then have "scope_ok HR (finished ?sc2 t n outcome)" "scope_moves ?sc2 (finished ?sc2 t n outcome)"
        using True sc1 ready(3-5) nothing_named [OF ready(2)]
        by (auto simp: scope_ok_def phase_ok_cases finished_def scope_moves_def ages_refl)
      then show thesis
        by (intro that(3) [of outcome "finished ?sc2 t n outcome" w3])
           (use run True ready moves latch sc1(5,8) scope_moves_trans in \<open>auto simp: finished_def latched_def outcome_for_def
             split: ScopeCloseOutcome.splits\<close>)
    next
      case (pending t w3)
      have "scope_ok HR (?sc2\<lparr>resources := t\<rparr>)" "scope_moves ?sc2 (?sc2\<lparr>resources := t\<rparr>)"
        using sc2 sc1 pending by (auto simp: scope_ok_def phase_ok_cases scope_moves_def ages_refl)
      then show thesis
        by (intro that(2) [of "?sc2\<lparr>resources := t\<rparr>" w3 w2])
           (use run True pending moves latch sc1 scope_moves_trans in \<open>auto simp: latched_def\<close>)
    qed
  qed
qed

lemma scope_poll_close_sound:
  fixes HR :: "('r, 'w) HostResource" and HO :: "('d, 'k, 'w) HostOperation"
  shows "sound (scope_inv HR) scope_moved (scope_poll_close HR HO :: ('d, 'k, 'r, 's, 'w, ScopeCloseOutcome Poll) ScopeMethod)"
proof (rule soundI)
  fix s :: "('d, 'k, 'r, 's) ExecutionScope \<times> 'w"
  assume inv: "scope_inv HR s"
  obtain sc w where s: "s = (sc, w)" by fastforce
  have ok: "scope_ok HR sc" using inv by (simp add: s scope_inv_def)
  show "wp (scope_poll_close HR HO) (\<lambda>_ u. scope_inv HR u \<and> scope_moved s u)
      (\<lambda>e u. e \<noteq> Panicked \<and> scope_inv HR u \<and> scope_moved s u) s"
  proof (cases "state sc")
    case ScopeClosing
    then obtain reason where reason: "close_reason sc = Some reason" using ok by (auto simp: scope_ok_def phase_ok_cases)
    from ok ScopeClosing reason show ?thesis
      by (cases rule: closing_cases [where w = w and HO = HO]) (simp_all add: s wp_def scope_inv_def scope_moved_def)
  qed (use inv in \<open>auto simp: s scope_poll_close_def wp_simps scope_moved_def scope_moves_refl scope_inv_def scope_ok_def phase_ok_cases\<close>)
qed

section \<open>Drop\<close>

lemma begin_drop_resource_close_nonblocking_kept:
  "sound (scope_inv HR) scope_kept (begin_drop_resource_close_nonblocking HR)"
  unfolding begin_drop_resource_close_nonblocking_def own_def
  by (intro kept.sound_and_then kept.sound_self kept_on_resources begin_close_remaining_for_drop_calm)

text \<open>Once the fields themselves are dropped, all that is left to promise is that nothing panics.\<close>

definition fields_inv :: "('r, 'w) HostResource \<Rightarrow> ('d, 'k, 'r, 's) ExecutionScope \<times> 'w \<Rightarrow> bool" where
  "fields_inv HR s \<longleftrightarrow> table_ok HR (resources (fst s)) \<and> registry_ok (operations (fst s))"

interpretation fields_frame: preserving "fields_inv HR" "\<lambda>_ _. True" for HR
  by unfold_locales auto

lemma fields_sound:
  "sound (table_inv HR 0) table_ages m \<Longrightarrow> sound (fields_inv HR) (\<lambda>_ _. True) (on_resources m)"
  "sound registry_inv registry_ages n \<Longrightarrow> sound (fields_inv HR) (\<lambda>_ _. True) (on_operations n)"
proof -
  show "sound (fields_inv HR) (\<lambda>_ _. True) (on_resources m)" if "sound (table_inv HR 0) table_ages m"
    by (rule soundI) (use that in \<open>auto simp: on_resources_def wp_zoom fields_inv_def table_inv_def elim!: sound_wp\<close>)
  show "sound (fields_inv HR) (\<lambda>_ _. True) (on_operations n)" if "sound registry_inv registry_ages n"
    by (rule soundI) (use that in \<open>auto simp: on_operations_def wp_zoom fields_inv_def registry_inv_def elim!: sound_wp\<close>)
qed

lemma drop_registry_sound: "sound registry_inv registry_ages (drop_registry HO)"
  unfolding drop_registry_def by (intro registry_frame.sound_then_do registry_frame.sound_ok cancel_all_sound)

lemma drop_scope_safe:
  fixes HR :: "('r, 'w) HostResource" and HO :: "('d, 'k, 'w) HostOperation" and sc :: "('d, 'k, 'r, 's) ExecutionScope"
  assumes "scope_ok HR sc"
  shows "wp (drop_scope HR HO) (\<lambda>_ _. True) (\<lambda>e _. e \<noteq> Panicked) (sc, w)"
proof -
  let ?sc = "if state sc = Active then begun VmDrop sc else sc"
  let ?close = "\<lambda>st. if st \<noteq> ScopeClosing then ok () else then_do (attempt (scope_poll_close HR HO))
     (and_then (own state) (\<lambda>st. if st = ScopeClosing
        then then_do (attempt (begin_drop_resource_close_nonblocking HR)) (ok ()) else ok ()))"
  let ?fields = "then_do (on_operations (drop_registry HO)) (on_resources (drop_table HR)) :: ('d, 'k, 'r, 's, 'w, unit) ScopeMethod"
  have close: "sound (scope_inv HR) scope_moved (?close st :: ('d, 'k, 'r, 's, 'w, unit) ScopeMethod)" for st
    by (auto simp: own_def intro!: scope_frame.sound_intros scope_poll_close_sound begin_drop_resource_close_nonblocking_kept [THEN kept_sound])
  have fields: "sound (fields_inv HR) (\<lambda>_ _. True) ?fields"
    by (intro fields_frame.sound_then_do fields_sound drop_registry_sound drop_table_sound)
  have "wp (?close (state ?sc)) (\<lambda>_. wp ?fields (\<lambda>_ _. True) (\<lambda>e _. e \<noteq> Panicked)) (\<lambda>e _. e \<noteq> Panicked) (?sc, w)"
  proof (rule sound_wp [OF close])
    show "scope_inv HR (?sc, w)" using assms begun_ok [of HR sc VmDrop] by (simp add: scope_inv_def)
    show "wp ?fields (\<lambda>_ _. True) (\<lambda>e _. e \<noteq> Panicked) t" if "scope_inv HR t" for t :: "('d, 'k, 'r, 's) ExecutionScope \<times> 'w"
      by (rule sound_wp [OF fields]) (use that in \<open>auto simp: fields_inv_def scope_inv_def scope_ok_def\<close>)
  qed simp
  then show ?thesis
    by (cases "state sc = Active") (simp_all add: drop_scope_def wp_simps on_operations_def seal_def begun_def cong: if_cong)
qed

end
