(* ===== verification/ScopeProps.thy ===== *)
theory ScopeProps
  imports ScopeInv
begin

text \<open>
  The properties of the execution scope: it stays well formed, it refines an abstract lifecycle, it
  takes nothing in once its close has begun, it closes resources only after the operations are
  gone, its outcome is exact and fixed, and a close gets to its end.
\<close>

section \<open>Sequences of calls\<close>

inductive scope_step ::
  "('r, 'w) HostResource \<Rightarrow> ('d, 'k, 'w) HostOperation \<Rightarrow> ('d, 'k, 'r, 's) ExecutionScope \<times> 'w \<Rightarrow>
     ('d, 'k, 'r, 's) ExecutionScope \<times> 'w \<Rightarrow> bool"
  for HR HO where
  sc_outside: "scope_step HR HO (sc, w) (sc, w')"
| sc_push: "push_resource HR tid v s = (x, u) \<Longrightarrow> scope_step HR HO s u"
| sc_start: "start_operation spec s = (x, u) \<Longrightarrow> scope_step HR HO s u"
| sc_insert_state: "scope_insert_state tid init f s = (x, u) \<Longrightarrow> scope_step HR HO s u"
| sc_modify_state: "scope_modify_state tid f s = (x, u) \<Longrightarrow> scope_step HR HO s u"
| sc_take_state: "scope_take_state tid s = (x, u) \<Longrightarrow> scope_step HR HO s u"
| sc_take: "handle_valid h \<Longrightarrow> take_resource tid h s = (x, u) \<Longrightarrow> scope_step HR HO s u"
| sc_close_resource: "handle_valid h \<Longrightarrow> close_resource HR tid h reason s = (x, u) \<Longrightarrow> scope_step HR HO s u"
| sc_poll_resource: "handle_valid h \<Longrightarrow> poll_resource_close HR tid h s = (x, u) \<Longrightarrow> scope_step HR HO s u"
| sc_cancel: "id_valid op \<Longrightarrow> cancel_operation HO op cancel_reason s = (x, u) \<Longrightarrow> scope_step HR HO s u"
| sc_complete: "id_valid op \<Longrightarrow> complete_operation HO op s = (x, u) \<Longrightarrow> scope_step HR HO s u"
| sc_take_outcome: "id_valid op \<Longrightarrow> take_operation_outcome HO op s = (x, u) \<Longrightarrow> scope_step HR HO s u"
| sc_poll: "id_valid op \<Longrightarrow> poll_operation HO op s = (x, u) \<Longrightarrow> scope_step HR HO s u"
| sc_poll_quiescence: "id_valid op \<Longrightarrow> poll_operation_quiescence HO op s = (x, u) \<Longrightarrow> scope_step HR HO s u"
| sc_abort: "id_valid op \<Longrightarrow> abort_operation HO op cancel_reason s = (x, u) \<Longrightarrow> scope_step HR HO s u"
| sc_begin_close: "scope_begin_close reason s = (x, u) \<Longrightarrow> scope_step HR HO s u"
| sc_poll_close: "scope_poll_close HR HO s = (x, u) \<Longrightarrow> scope_step HR HO s u"
| sc_begin_drop: "begin_drop_resource_close_nonblocking HR s = (x, u) \<Longrightarrow> scope_step HR HO s u"

abbreviation scope_steps ::
  "('r, 'w) HostResource \<Rightarrow> ('d, 'k, 'w) HostOperation \<Rightarrow> ('d, 'k, 'r, 's) ExecutionScope \<times> 'w \<Rightarrow>
     ('d, 'k, 'r, 's) ExecutionScope \<times> 'w \<Rightarrow> bool" where
  "scope_steps HR HO \<equiv> (scope_step HR HO)\<^sup>*\<^sup>*"

section \<open>The abstract lifecycle\<close>

text \<open>
  What the scope promises its clients, without slots, generations or sweeps: a set of operations, a
  set of resources and a phase. While it accepts, a step adds at most one operation or one
  resource; while it drains nothing is added; it is done only when both sets are empty, and then
  it never changes again.
\<close>

datatype LifecyclePhase = Accepting | Draining ResourceCloseReason | Done ResourceCloseReason ScopeCloseOutcome

record Lifecycle =
  lc_phase :: LifecyclePhase
  lc_operations :: "OperationId set"
  lc_resources :: "ResourceHandle set"

inductive lifecycle_step :: "Lifecycle \<Rightarrow> Lifecycle \<Rightarrow> bool" where
  lc_work: "lc_phase a = Accepting \<Longrightarrow> lc_phase b = Accepting \<Longrightarrow>
    lc_operations b \<subseteq> insert op (lc_operations a) \<Longrightarrow> lc_resources b \<subseteq> lc_resources a \<Longrightarrow> lifecycle_step a b"
| lc_acquire: "lc_phase a = Accepting \<Longrightarrow> lc_phase b = Accepting \<Longrightarrow>
    lc_operations b \<subseteq> lc_operations a \<Longrightarrow> lc_resources b \<subseteq> insert h (lc_resources a) \<Longrightarrow> lifecycle_step a b"
| lc_close: "lc_phase a = Accepting \<Longrightarrow> lifecycle_step a (a\<lparr>lc_phase := Draining reason\<rparr>)"
| lc_drain: "lc_phase a = Draining reason \<Longrightarrow> lc_phase b = Draining reason \<Longrightarrow>
    lc_operations b \<subseteq> lc_operations a \<Longrightarrow> lc_resources b \<subseteq> lc_resources a \<Longrightarrow> lifecycle_step a b"
| lc_finish: "lc_phase a = Draining reason \<Longrightarrow>
    lifecycle_step a \<lparr>lc_phase = Done reason outcome, lc_operations = {}, lc_resources = {}\<rparr>"
| lc_done: "lc_phase a = Done reason outcome \<Longrightarrow> lifecycle_step a a"

definition lifecycle_of :: "('d, 'k, 'r, 's) ExecutionScope \<Rightarrow> Lifecycle" where
  "lifecycle_of sc = \<lparr>lc_phase = (case state sc of
       Active \<Rightarrow> Accepting
     | ScopeClosing \<Rightarrow> Draining (the (close_reason sc))
     | Quiescent \<Rightarrow> Done (the (close_reason sc)) (the (terminal sc))),
     lc_operations = {op. id_valid op \<and> names_operation (operations sc) op},
     lc_resources = {h. handle_valid h \<and> names_resource (resources sc) h}\<rparr>"

lemma lifecycle_of_simps [simp]:
  "lc_operations (lifecycle_of sc) = {op. id_valid op \<and> names_operation (operations sc) op}"
  "lc_resources (lifecycle_of sc) = {h. handle_valid h \<and> names_resource (resources sc) h}"
  "state sc = Active \<Longrightarrow> lc_phase (lifecycle_of sc) = Accepting"
  "state sc = ScopeClosing \<Longrightarrow> lc_phase (lifecycle_of sc) = Draining (the (close_reason sc))"
  "state sc = Quiescent \<Longrightarrow> lc_phase (lifecycle_of sc) = Done (the (close_reason sc)) (the (terminal sc))"
  by (simp_all add: lifecycle_of_def)

section \<open>Every step is sound\<close>

lemma scope_run:
  assumes "m s = (x, u)" and "sound (scope_inv HR) scope_moved m" and "scope_inv HR s"
  shows "scope_inv HR u \<and> scope_moved s u"
  using sound_result(1,2) [OF assms(2,3,1)] by simp

lemma scope_run_kept:
  assumes "m s = (x, u)" and "sound (scope_inv HR) scope_kept m" and "scope_inv HR s"
  shows "scope_kept s u"
  using sound_result(2) [OF assms(2,3,1)] by simp

lemmas scope_runs = scope_run [OF _ consumers_kept(1) [THEN kept_sound]]
  scope_run [OF _ consumers_kept(2) [THEN kept_sound]]
  scope_run [OF _ consumers_kept(3) [THEN kept_sound]]
  scope_run [OF _ consumers_kept(4) [THEN kept_sound]]
  scope_run [OF _ consumers_kept(5) [THEN kept_sound]]
  scope_run [OF _ consumers_kept(6) [THEN kept_sound]]
  scope_run [OF _ consumers_kept(7) [THEN kept_sound]]
  scope_run [OF _ consumers_kept(8) [THEN kept_sound]]
  scope_run [OF _ consumers_kept(9) [THEN kept_sound]]
  scope_run [OF _ consumers_kept(10) [THEN kept_sound]]
  scope_run [OF _ consumers_kept(11) [THEN kept_sound]]
  scope_run [OF _ consumers_kept(12) [THEN kept_sound]]
  scope_run [OF _ close_resource_kept [THEN kept_sound]]
  scope_run [OF _ begin_drop_resource_close_nonblocking_kept [THEN kept_sound]]
  scope_run [OF _ push_resource_sound]
  scope_run [OF _ start_operation_sound]
  scope_run [OF _ scope_begin_close_sound]
  scope_run [OF _ scope_poll_close_sound]

lemma scope_step_sound:
  assumes "scope_step HR HO s u" and "scope_ok HR (fst s)"
  shows "scope_ok HR (fst u)" and "scope_moves (fst s) (fst u)"
proof -
  have inv: "scope_inv HR s" using assms(2) by (simp add: scope_inv_def)
  have "scope_inv HR u \<and> scope_moved s u"
    using assms(1)
  proof cases
    case (sc_outside sc w w')
    with inv show ?thesis by (simp add: scope_inv_def scope_moved_def scope_moves_refl)
  qed (rule scope_runs, assumption, assumption?, rule inv)+
  then show "scope_ok HR (fst u)" and "scope_moves (fst s) (fst u)" by (simp_all add: scope_inv_def scope_moved_def)
qed

lemma scope_steps_sound:
  assumes "scope_steps HR HO s u" and "scope_ok HR (fst s)"
  shows "scope_ok HR (fst u)" and "scope_moves (fst s) (fst u)"
proof -
  have "scope_ok HR (fst u) \<and> scope_moves (fst s) (fst u)"
    using assms by (induction rule: rtranclp_induct)
      (auto simp: scope_moves_refl dest: scope_step_sound intro: scope_moves_trans)
  then show "scope_ok HR (fst u)" and "scope_moves (fst s) (fst u)" by simp_all
qed

lemma scope_new_ok:
  assumes "scope_new (arenas, tags) = (Inr sc, c)" and "0 < arenas" and "0 < tags"
  shows "scope_ok HR sc" and "state sc = Active" and "arena_id (resources sc) = arenas" and "tag (operations sc) = tags"
proof -
  obtain t a r b where new: "table_new arenas = (Inr t, a)" "registry_with_limit DEFAULT_MAX_PENDING_OPERATIONS tags = (Inr r, b)"
    and sc: "sc = \<lparr>operations = r, resources = t, state = Active, close_reason = None,
              operations_drained = False, scope_first_error = None, failed_count = 0, terminal = None\<rparr>"
    using assms(1) by (auto simp: scope_new_def split: prod.splits sum.splits)
  note table = table_with_limit_ok [OF new(1) [unfolded table_new_def] assms(2)]
    and registry = registry_with_limit_ok [OF new(2) assms(3)]
  show "scope_ok HR sc" and "state sc = Active" and "arena_id (resources sc) = arenas" and "tag (operations sc) = tags"
    using table registry by (simp_all add: sc scope_ok_def phase_ok_cases)
qed

section \<open>Simulation\<close>

lemma one_name_per_slot:
  "names_resource t h \<Longrightarrow> names_resource t k \<Longrightarrow> handle_valid h \<Longrightarrow> handle_valid k \<Longrightarrow> handle_slot h = handle_slot k \<Longrightarrow> h = k"
  "names_operation r op \<Longrightarrow> names_operation r p \<Longrightarrow> id_valid op \<Longrightarrow> id_valid p \<Longrightarrow> id_slot op = id_slot p \<Longrightarrow> op = p"
  by (rule handle.valid_eqI; simp add: names_resource_def word_unat_eq_iff)
     (rule op_id.valid_eqI; simp add: names_operation_def)

lemma kept_lifecycle:
  assumes "scope_kept s u" and "state (fst s) = Active"
  shows "lifecycle_step (lifecycle_of (fst s)) (lifecycle_of (fst u))"
  by (rule lc_work) (use assms in \<open>auto simp: scope_kept_def\<close>)

lemma push_lifecycle:
  assumes "scope_ok HR (fst s)" and "state (fst s) = Active" and "push_resource HR tid v s = (x, u)"
  shows "lifecycle_step (lifecycle_of (fst s)) (lifecycle_of (fst u))"
proof -
  obtain sc w where s: "s = (sc, w)" by fastforce
  have ok: "table_ok HR (resources sc)" and active: "state sc = Active" using assms(1,2) by (simp_all add: s scope_ok_def)
  have "lifecycle_step (lifecycle_of sc) (lifecycle_of (sc\<lparr>resources := t\<rparr>))"
    if "handle_valid h" "names_resource t h"
      "\<forall>h'. names_resource t h' \<longrightarrow> names_resource (resources sc) h' \<or> handle_slot h' = handle_slot h" for t h
    by (rule lc_acquire [where h = h]) (use that active one_name_per_slot(1) in auto)
  moreover have "lifecycle_step (lifecycle_of sc) (lifecycle_of sc)" by (rule lc_work) (use active in auto)
  ultimately have "wp (push_resource HR tid v) (\<lambda>_ u. lifecycle_step (lifecycle_of sc) (lifecycle_of (fst u)))
      (\<lambda>_ u. lifecycle_step (lifecycle_of sc) (lifecycle_of (fst u))) (sc, w)"
    unfolding push_resource_def ensure_accepting_def on_resources_def wp_simps
    using active by (auto intro!: wp_use [OF push_spec [OF ok]])
  then show ?thesis using assms(3) by (auto simp: s wp_def split: sum.splits)
qed

lemma start_lifecycle:
  assumes "scope_ok HR (fst s)" and "state (fst s) = Active" and "start_operation spec s = (x, u)"
  shows "lifecycle_step (lifecycle_of (fst s)) (lifecycle_of (fst u))"
proof -
  obtain sc w where s: "s = (sc, w)" by fastforce
  have ok: "registry_ok (operations sc)" and active: "state sc = Active" using assms(1,2) by (simp_all add: s scope_ok_def)
  have "lifecycle_step (lifecycle_of sc) (lifecycle_of (sc\<lparr>operations := r\<rparr>))"
    if r: "ages tag registry_clock (operations sc) r" "started spec (operations sc) op r" for r op
  proof (rule lc_work [where op = op])
    have "names_operation (operations sc) p" if "names_operation r p" "id_slot p \<noteq> id_slot op" for p
    proof -
      have "id_slot p < length (op_slots r)" using that(1) by (simp add: names_operation_def)
      then have "id_slot p < length (op_slots (operations sc))" "op_slots r ! id_slot p = op_slots (operations sc) ! id_slot p"
        using that(2) r(2) unfolding started_def by blast+
      with that(1) r(1) show ?thesis by (simp add: names_operation_def ages_def)
    qed
    moreover have "id_valid op" "names_operation r op" using r(2) unfolding started_def by blast+
    ultimately show "lc_operations (lifecycle_of (sc\<lparr>operations := r\<rparr>)) \<subseteq> insert op (lc_operations (lifecycle_of sc))"
      using one_name_per_slot(2) [of r _ op] by auto
  qed (use active in auto)
  moreover have "lifecycle_step (lifecycle_of sc) (lifecycle_of sc)" by (rule lc_work) (use active in auto)
  ultimately have "wp (start_operation spec) (\<lambda>_ u. lifecycle_step (lifecycle_of sc) (lifecycle_of (fst u)))
      (\<lambda>_ u. lifecycle_step (lifecycle_of sc) (lifecycle_of (fst u))) (sc, w)"
    unfolding start_operation_def ensure_accepting_def on_operations_def wp_simps
    using active by (auto intro!: wp_use [OF start_spec [OF ok]])
  then show ?thesis using assms(3) by (auto simp: s wp_def split: sum.splits)
qed

lemma kept_run_lifecycle:
  assumes "m s = (x, u)" and "sound (scope_inv HR) scope_kept m" and "scope_inv HR s" and "state (fst s) = Active"
  shows "lifecycle_step (lifecycle_of (fst s)) (lifecycle_of (fst u))"
  by (rule kept_lifecycle [OF scope_run_kept [OF assms(1-3)] assms(4)])

lemmas consumer_lifecycle = kept_run_lifecycle [OF _ consumers_kept(1)]
  kept_run_lifecycle [OF _ consumers_kept(2)]
  kept_run_lifecycle [OF _ consumers_kept(3)]
  kept_run_lifecycle [OF _ consumers_kept(4)]
  kept_run_lifecycle [OF _ begin_drop_resource_close_nonblocking_kept]
  and consumer_lifecycle2 = kept_run_lifecycle [OF _ consumers_kept(5)]
  kept_run_lifecycle [OF _ consumers_kept(6)]
  kept_run_lifecycle [OF _ consumers_kept(7)]
  kept_run_lifecycle [OF _ consumers_kept(8)]
  kept_run_lifecycle [OF _ consumers_kept(9)]
  kept_run_lifecycle [OF _ consumers_kept(10)]
  kept_run_lifecycle [OF _ consumers_kept(11)]
  kept_run_lifecycle [OF _ consumers_kept(12)]
  kept_run_lifecycle [OF _ close_resource_kept]

lemma active_lifecycle:
  assumes "scope_step HR HO s u" and ok: "scope_ok HR (fst s)" and active: "state (fst s) = Active"
  shows "lifecycle_step (lifecycle_of (fst s)) (lifecycle_of (fst u))"
proof -
  have inv: "scope_inv HR s" using ok by (simp add: scope_inv_def)
  have same: "lifecycle_step (lifecycle_of (fst s)) (lifecycle_of (fst s))" by (rule lc_work) (use active in auto)
  show ?thesis
    using assms(1)
  proof cases
    case (sc_outside sc w w')
    with same show ?thesis by simp
  next
    case (sc_push tid v x)
    then show ?thesis by (rule push_lifecycle [OF ok active])
  next
    case (sc_start spec x)
    then show ?thesis by (rule start_lifecycle [OF ok active])
  next
    case (sc_begin_close reason x)
    have "wp (scope_begin_close reason) (\<lambda>_ v. v = (begun reason (fst s), snd s)) (\<lambda>_ _. False) s"
      using active by (cases s) (simp add: wp_scope_begin_close)
    with sc_begin_close have "fst u = begun reason (fst s)" by (auto simp: wp_def split: sum.splits)
    moreover have "lifecycle_of (begun reason (fst s)) = (lifecycle_of (fst s))\<lparr>lc_phase := Draining reason\<rparr>"
      by (simp add: lifecycle_of_def begun_def)
    ultimately show ?thesis by (simp only: lc_close [OF lifecycle_of_simps(3) [OF active]])
  next
    case (sc_poll_close x)
    then have "u = s" using active by (cases s) (auto simp: scope_poll_close_def meth_defs own_def throw_def)
    with same show ?thesis by simp
  qed (rule consumer_lifecycle [OF _ inv active] consumer_lifecycle2 [OF _ _ inv active]; assumption)+
qed

lemma quiescent_empty:
  assumes "scope_ok HR sc" and "state sc = Quiescent"
  shows "lc_operations (lifecycle_of sc) = {}" and "lc_resources (lifecycle_of sc) = {}"
proof -
  have "registry_ok (operations sc)" "registry_is_empty (operations sc)" "table_ok HR (resources sc)" "occupied (resources sc) = {}"
    using assms by (simp_all add: scope_ok_def phase_ok_cases)
  then show "lc_operations (lifecycle_of sc) = {}" and "lc_resources (lifecycle_of sc) = {}"
    using nothing_registered [of "operations sc"] nothing_named [of HR "resources sc"] by simp_all
qed

lemma closing_lifecycle:
  assumes ok: "scope_ok HR sc" "scope_ok HR sc'" and moves: "scope_moves sc sc'" and closing: "state sc \<noteq> Active"
  shows "lifecycle_step (lifecycle_of sc) (lifecycle_of sc')"
proof (cases "state sc")
  case ScopeClosing
  show ?thesis
  proof (cases "state sc'")
    case Active
    with moves ScopeClosing show ?thesis by (simp add: scope_moves_def)
  next
    case *: ScopeClosing
    show ?thesis by (rule lc_drain) (use ScopeClosing * moves in \<open>auto simp: scope_moves_def\<close>)
  next
    case Quiescent
    have "lifecycle_of sc' = \<lparr>lc_phase = Done (the (close_reason sc)) (the (terminal sc')), lc_operations = {}, lc_resources = {}\<rparr>"
      using quiescent_empty [OF ok(2) Quiescent] Quiescent moves ScopeClosing
      by (simp add: lifecycle_of_def scope_moves_def)
    then show ?thesis by (simp only: lc_finish [OF lifecycle_of_simps(4) [OF ScopeClosing]])
  qed
next
  case Quiescent
  then have "state sc' = Quiescent" using moves by (cases "state sc'") (auto simp: scope_moves_def)
  with quiescent_empty [OF ok(2)] quiescent_empty [OF ok(1) Quiescent] Quiescent moves
  have "lifecycle_of sc' = lifecycle_of sc"
    by (simp only: scope_moves_def lifecycle_of_def ScopeState.case Lifecycle.simps) simp
  then show ?thesis by (simp only: lc_done [OF lifecycle_of_simps(5) [OF Quiescent]])
qed (use closing in simp)

lemma stays_empty:
  assumes ok: "scope_ok HR sc" "scope_ok HR sc'" and moves: "scope_moves sc sc'" and closing: "state sc \<noteq> Active"
  shows "registry_is_empty (operations sc) \<Longrightarrow> registry_is_empty (operations sc')"
    and "occupied (resources sc) = {} \<Longrightarrow> occupied (resources sc') = {}"
proof -
  have fields: "registry_ok (operations sc)" "registry_ok (operations sc')" "table_ok HR (resources sc)" "table_ok HR (resources sc')"
    using ok by (simp_all add: scope_ok_def)
  have names: "\<forall>h. names_resource (resources sc') h \<longrightarrow> names_resource (resources sc) h"
      "\<forall>op. names_operation (operations sc') op \<longrightarrow> names_operation (operations sc) op"
    using moves closing by (simp_all add: scope_moves_def)
  show "registry_is_empty (operations sc')" if "registry_is_empty (operations sc)"
    using that names(2) unfolding nothing_registered [OF fields(1)] nothing_registered [OF fields(2)] by blast
  show "occupied (resources sc') = {}" if "occupied (resources sc) = {}"
    using that names(1) unfolding nothing_named [OF fields(3)] nothing_named [OF fields(4)] by blast
qed

section \<open>Closing makes headway\<close>

text \<open>Drives a close the way its caller does, for at most \<open>k\<close> polls.\<close>

fun poll_scope_until_ready ::
  "('r, 'w) HostResource \<Rightarrow> ('d, 'k, 'w) HostOperation \<Rightarrow> nat \<Rightarrow> ('d, 'k, 'r, 's) ExecutionScope \<times> 'w \<Rightarrow>
     ScopeCloseOutcome option \<times> ('d, 'k, 'r, 's) ExecutionScope \<times> 'w" where
  "poll_scope_until_ready HR HO 0 s = (None, s)"
| "poll_scope_until_ready HR HO (Suc k) s =
     (case scope_poll_close HR HO s of
        (Inr (Ready outcome), u) \<Rightarrow> (Some outcome, u)
      | (Inr Pending, u) \<Rightarrow> poll_scope_until_ready HR HO k u
      | (Inl e, u) \<Rightarrow> (None, u))"

text \<open>Drivers that come to rest: each pending poll for quiescence lowers a rank of the driver.\<close>

definition comes_to_rest :: "('d, 'k, 'w) HostOperation \<Rightarrow> ('d \<Rightarrow> nat) \<Rightarrow> bool" where
  "comes_to_rest HO rank \<longleftrightarrow> (\<forall>d w d' w'. poll_quiescent_fn HO d w = (Pending, d', w') \<longrightarrow> rank d' < rank d)"

definition drivers_within :: "('d \<Rightarrow> nat) \<Rightarrow> nat \<Rightarrow> ('d, 'k) OperationRegistry \<Rightarrow> bool" where
  "drivers_within rank m r \<longleftrightarrow> (\<forall>s \<in> set (op_slots r). case operation s of None \<Rightarrow> True | Some p \<Rightarrow> rank (driver p) < m)"

lemma drivers_bounded: "\<exists>m. drivers_within rank m r"
proof -
  define m where "m = Suc (\<Sum>s \<leftarrow> op_slots r. case operation s of None \<Rightarrow> 0 | Some p \<Rightarrow> rank (driver p))"
  have "(case operation s of None \<Rightarrow> 0 | Some p \<Rightarrow> rank (driver p)) < m" if "s \<in> set (op_slots r)" for s
    unfolding m_def less_Suc_eq_le using that by (intro member_le_sum_list) auto
  then have "case operation s of None \<Rightarrow> True | Some p \<Rightarrow> rank (driver p) < m" if "s \<in> set (op_slots r)" for s
    using that by (cases "operation s") force+
  then show ?thesis unfolding drivers_within_def by blast
qed

lemma quieted_within:
  assumes "drivers_within rank m r" and "comes_to_rest HO rank" and "active_count r = 0"
    and len: "length (op_slots u) = length (op_slots r)"
    and "\<forall>i < length (op_slots r). slot_quieted HO (op_slots r ! i) (op_slots u ! i)" and "\<not> registry_is_empty u"
  shows "drivers_within rank (m - 1) u \<and> 0 < m"
proof -
  have slot: "rank (driver q) < m - 1" if i: "i < length (op_slots r)" and q: "operation (op_slots u ! i) = Some q" for i q
  proof (cases "operation (op_slots r ! i)")
    case None
    moreover have "slot_quieted HO (op_slots r ! i) (op_slots u ! i)" using assms(5) i by blast
    ultimately show ?thesis using q by (simp add: slot_quieted_def)
  next
    case (Some p)
    have "\<not> is_pending (operation (op_slots r ! i))" using assms(3) i by (simp add: active_count_0)
    then have "is_terminal (status p)" by (simp add: Some)
    moreover have "rank (driver p) < m" using assms(1) nth_mem [OF i] Some by (fastforce simp: drivers_within_def)
    moreover have "slot_quieted HO (op_slots r ! i) (op_slots u ! i)" using assms(5) i by blast
    ultimately obtain d w w' where "q = p\<lparr>driver := d\<rparr>" "poll_quiescent_fn HO (driver p) w = (Pending, d, w')"
      using Some q by (auto simp: slot_quieted_def)
    with assms(2) \<open>rank (driver p) < m\<close> show ?thesis by (fastforce simp: comes_to_rest_def)
  qed
  obtain i q where "i < length (op_slots u)" "operation (op_slots u ! i) = Some q"
    using assms(6) by (auto simp: registry_is_empty_def list_ex_iff in_set_conv_nth)
  then have "0 < m" using slot [of i q] len by simp
  moreover have "drivers_within rank (m - 1) u"
    unfolding drivers_within_def
  proof
    fix s assume "s \<in> set (op_slots u)"
    then obtain i where "i < length (op_slots u)" "op_slots u ! i = s" by (auto simp: in_set_conv_nth)
    then show "case operation s of None \<Rightarrow> True | Some p \<Rightarrow> rank (driver p) < m - 1"
      using slot [of i] len by (cases "operation s") auto
  qed
  ultimately show ?thesis by simp
qed

text \<open>Once the operations are gone the close is a close-all of the table.\<close>

lemma sweep_reaches_ready:
  assumes "scope_ok HR sc" "state sc = ScopeClosing" "close_reason sc = Some reason" "operations_drained sc"
    and "registry_is_empty (operations sc)" and "makes_headway HR rank" and "all_within rank m (resources sc)"
  shows "\<exists>outcome u. poll_scope_until_ready HR HO (Suc m) (sc, w) = (Some outcome, u)"
  using assms
proof (induction m arbitrary: sc w rule: less_induct)
  case (less m)
  have table: "table_ok HR (resources sc)" "\<not> sweep_conflict (resources sc) reason"
    using less.prems(1-3) by (auto simp: scope_ok_def phase_ok_cases)
  from less.prems(1-3) show ?case
  proof (cases rule: closing_cases [where w = w and HO = HO])
    case (draining sc' w')
    have "registry_is_empty (operations sc')"
      by (rule stays_empty(1) [OF less.prems(1) draining(2,3) _ less.prems(5)]) (simp add: less.prems(2))
    with draining(8) show ?thesis ..
  next
    case (sweeping sc' w' w'')
    have "all_within rank (m - 1) (resources sc')" "0 < m"
      using poll_within [OF table less.prems(6,7) sweeping(12)] by simp_all
    then have "\<exists>outcome u. poll_scope_until_ready HR HO (Suc (m - 1)) (sc', w') = (Some outcome, u)"
      by (intro less.IH) (use sweeping less.prems(6) in auto)
    with sweeping(1) \<open>0 < m\<close> show ?thesis by simp
  qed auto
qed

lemma drain_reaches_ready:
  assumes "scope_ok HR sc" "state sc = ScopeClosing" "close_reason sc = Some reason" "operations_drained sc"
    and "makes_headway HR rank" and "comes_to_rest HO drank" and "drivers_within drank m (operations sc)"
  shows "\<exists>k outcome u. poll_scope_until_ready HR HO k (sc, w) = (Some outcome, u)"
  using assms
proof (induction m arbitrary: sc w rule: less_induct)
  case (less m)
  from less.prems(1-3) show ?case
  proof (cases rule: closing_cases [where w = w and HO = HO])
    case (draining sc' w')
    have "active_count (operations sc) = 0" using less.prems(1,2,4) by (simp add: scope_ok_def phase_ok_cases)
    then have "drivers_within drank (m - 1) (operations sc')" "0 < m"
      using quieted_within [OF less.prems(7,6)] draining(8,10) less.prems(4) by blast+
    then have "\<exists>k outcome u. poll_scope_until_ready HR HO k (sc', w') = (Some outcome, u)"
      by (intro less.IH) (use draining less.prems(5,6) in auto)
    then obtain k outcome u where "poll_scope_until_ready HR HO k (sc', w') = (Some outcome, u)" by blast
    then have "poll_scope_until_ready HR HO (Suc k) (sc, w) = (Some outcome, u)" using draining(1) by simp
    then show ?thesis by blast
  next
    case (sweeping sc' w' w'')
    obtain m' where "all_within rank m' (resources sc')" using ranks_bounded [OF sweeping(10)] by blast
    then obtain outcome u where "poll_scope_until_ready HR HO (Suc m') (sc', w') = (Some outcome, u)"
      using sweep_reaches_ready [OF sweeping(2,4,5,6,8) less.prems(5)] by blast
    then have "poll_scope_until_ready HR HO (Suc (Suc m')) (sc, w) = (Some outcome, u)" using sweeping(1) by simp
    then show ?thesis by blast
  next
    case (ready sc' w' outcome)
    then have "poll_scope_until_ready HR HO 1 (sc, w) = (Some outcome, (sc', w'))" by simp
    then show ?thesis by blast
  qed
qed

lemma close_reaches_ready:
  assumes "scope_ok HR sc" "state sc = ScopeClosing" and "makes_headway HR rank" and "comes_to_rest HO drank"
  shows "\<exists>k outcome u. poll_scope_until_ready HR HO k (sc, w) = (Some outcome, u)"
proof -
  obtain reason where reason: "close_reason sc = Some reason" using assms(1,2) by (auto simp: scope_ok_def phase_ok_cases)
  have later: "\<exists>k outcome u. poll_scope_until_ready HR HO k (sc, w) = (Some outcome, u)"
    if next_scope: "scope_poll_close HR HO (sc, w) = (Inr Pending, (sc', w'))" "scope_ok HR sc'" "state sc' = ScopeClosing"
      "close_reason sc' = Some reason" "operations_drained sc'" for sc' w'
  proof -
    obtain m where "drivers_within drank m (operations sc')" using drivers_bounded by blast
    then obtain k outcome u where "poll_scope_until_ready HR HO k (sc', w') = (Some outcome, u)"
      using drain_reaches_ready [OF next_scope(2-5) assms(3,4)] by blast
    then have "poll_scope_until_ready HR HO (Suc k) (sc, w) = (Some outcome, u)" using next_scope(1) by simp
    then show ?thesis by blast
  qed
  from assms(1,2) reason show ?thesis
  proof (cases rule: closing_cases [where w = w and HO = HO])
    case (ready sc' w' outcome)
    then have "poll_scope_until_ready HR HO 1 (sc, w) = (Some outcome, (sc', w'))" by simp
    then show ?thesis by blast
  qed (rule later; assumption)+
qed

lemma scope_table_empty: "scope_ok HR sc \<Longrightarrow> table_is_empty (resources sc) \<longleftrightarrow> occupied (resources sc) = {}"
  using table_is_empty_iff [of HR "resources sc"] by (simp add: scope_ok_def)

section \<open>Samples\<close>

text \<open>A scope with one operation and one resource, and one whose registries are empty, before and after its close has begun.\<close>

definition busy_scope :: "(nat, unit, nat, nat) ExecutionScope" where
  "busy_scope = \<lparr>operations = sample_holding StatusPending 2, resources = sample_open, state = Active, close_reason = None,
     operations_drained = False, scope_first_error = None, failed_count = 0, terminal = None\<rparr>"

definition idle_scope :: "(nat, unit, nat, nat) ExecutionScope" where
  "idle_scope = busy_scope\<lparr>operations := sample_registry, resources := sample_table\<rparr>"

lemma busy_scope_ok: "scope_ok plain_host busy_scope" "state busy_scope = Active"
  by (simp_all add: busy_scope_def scope_ok_def sample_open_ok sample_holding_ok phase_ok_cases)
     (simp add: sample_open_def sample_table_def)

lemma idle_scope_ok: "scope_ok plain_host idle_scope" "state idle_scope = Active"
  by (simp_all add: idle_scope_def busy_scope_def scope_ok_def sample_table_ok sample_registry_ok phase_ok_cases)
     (simp add: sample_table_def)

lemma begun_simps [simp]:
  "state (begun reason sc) = ScopeClosing" "close_reason (begun reason sc) = Some reason"
  "resources (begun reason sc) = resources sc" "operations_drained (begun reason sc) = operations_drained sc"
  "operations (begun reason sc) = (operations sc)\<lparr>sealed := True\<rparr>"
  "scope_first_error (begun reason sc) = scope_first_error sc" "failed_count (begun reason sc) = failed_count sc"
  by (simp_all add: begun_def)

lemma begun_run: "state sc = Active \<Longrightarrow> scope_begin_close reason (sc, w) = (Inr True, (begun reason sc, w))"
  by (rule wp_returns) (simp add: wp_scope_begin_close)

lemma plain_headway: "makes_headway plain_host (\<lambda>tid r. 0)"
  by (simp add: makes_headway_def plain_host_def default_poll_close_def)

lemma countdown_rests: "comes_to_rest countdown_host id"
  by (auto simp: comes_to_rest_def split: if_splits)

lemma idle_close: "\<exists>outcome u. scope_poll_close plain_host countdown_host (begun VmReset idle_scope, ()) = (Inr (Ready outcome), u)"
proof -
  let ?sc = "begun VmReset idle_scope"
  have ok: "scope_ok plain_host ?sc" using begun_ok [OF idle_scope_ok] by blast
  from ok begun_simps(1,2) show ?thesis
  proof (cases rule: closing_cases [where w = "()" and HO = countdown_host])
    case (draining sc' w')
    have "registry_is_empty (operations sc')"
      by (rule stays_empty(1) [OF ok draining(2,3)]) (simp_all add: idle_scope_def registry_is_empty_def sample_registry_def)
    with draining(8) show ?thesis ..
  next
    case (sweeping sc' w' w'')
    have "occupied (resources sc') = {}"
      by (rule stays_empty(2) [OF ok sweeping(2,3)])
         (simp_all add: idle_scope_def sample_table_def occupied_def indices_where_def)
    with sweeping(9) show ?thesis ..
  qed auto
qed

section \<open>Properties\<close>

text \<open>
  C29. A scope stays well formed. Whatever is called on a freshly constructed scope, and whatever
  its resources and drivers do, both registries keep their books, the fields agree with the phase
  of the lifecycle, the phase only advances, and every token that has died stays dead.
\<close>

theorem scope_well_formed:
  assumes "scope_new (arenas, tags) = (Inr sc, c)" and "0 < arenas" and "0 < tags"
    and "scope_steps HR HO (sc, w) (u, w')"
  shows "scope_ok HR u \<and> scope_moves sc u \<and> arena_id (resources u) = arenas \<and> tag (operations u) = tags"
  using scope_steps_sound [OF assms(4)] scope_new_ok(1) [OF assms(1-3), of HR] scope_new_ok(2-4) [OF assms(1-3)]
  by (simp add: scope_moves_def ages_def)

theorem scope_well_formed_witness:
  "\<exists>sc. fst (scope_new (1, 1)) = Inr sc \<and> scope_ok plain_host (begun VmReset (sc :: (nat, unit, nat, nat) ExecutionScope))"
proof -
  obtain sc c where new: "scope_new (1, 1) = (Inr (sc :: (nat, unit, nat, nat) ExecutionScope), c)"
    by (simp add: scope_new_def table_new_def table_with_limit_def registry_with_limit_def allocate_arena_id_def
        allocate_registry_tag_def DEFAULT_MAX_RESOURCES_def DEFAULT_MAX_PENDING_OPERATIONS_def meth_defs handle_limits
        id_limits word_le_nat_alt)
  have "scope_steps plain_host countdown_host (sc, ()) (begun VmReset sc, ())"
    by (rule r_into_rtranclp) (rule sc_begin_close [OF begun_run], rule scope_new_ok(2) [OF new], simp_all)
  then show ?thesis
    using scope_well_formed [OF new, of plain_host countdown_host "()" "begun VmReset sc" "()"] new by simp
qed

text \<open>
  C30. The scope refines the abstract lifecycle: seen as a set of operations, a set of resources and
  a phase, every call is a step of the specification, which adds at most one operation or resource
  while it accepts, only removes while it drains, finishes only empty, and never changes once done.
\<close>

theorem scope_refines_lifecycle:
  assumes "scope_ok HR (fst s)" and "scope_step HR HO s u"
  shows "lifecycle_step (lifecycle_of (fst s)) (lifecycle_of (fst u))"
proof (cases "state (fst s) = Active")
  case True
  then show ?thesis by (rule active_lifecycle [OF assms(2,1)])
next
  case False
  show ?thesis by (rule closing_lifecycle [OF assms(1) scope_step_sound [OF assms(2,1)] False])
qed

theorem scope_refines_lifecycle_witness:
  "lifecycle_step (lifecycle_of busy_scope) (lifecycle_of (begun VmReset busy_scope))"
proof -
  have "scope_step plain_host countdown_host (busy_scope, ()) (begun VmReset busy_scope, ())"
    by (rule sc_begin_close [OF begun_run [OF busy_scope_ok(2)]])
  from scope_refines_lifecycle [OF _ this] show ?thesis using busy_scope_ok(1) by simp
qed



text \<open>
  C32. Operations go first. A poll of a closing scope never fails; it has ended every pending
  operation, and as long as an operation is still registered it answers \<open>Pending\<close> and the resource
  table is exactly as it was.
\<close>

theorem close_drains_operations_first:
  assumes "scope_ok HR sc" and "state sc = ScopeClosing" and "scope_poll_close HR HO (sc, w) = (x, (sc', w'))"
  shows "(x = Inr Pending \<or> (\<exists>outcome. x = Inr (Ready outcome))) \<and> active_count (operations sc') = 0 \<and>
    (\<not> registry_is_empty (operations sc') \<longrightarrow> x = Inr Pending \<and> resources sc' = resources sc) \<and>
    (table_is_empty (resources sc') \<and> registry_is_empty (operations sc') \<longleftrightarrow> x \<noteq> Inr Pending)"
proof -
  obtain reason where reason: "close_reason sc = Some reason" using assms(1,2) by (auto simp: scope_ok_def phase_ok_cases)
  from assms(1,2) reason show ?thesis
  proof (cases rule: closing_cases [where w = w and HO = HO])
    case (draining sc'' w'')
    then show ?thesis using assms(3) by (simp add: scope_ok_def phase_ok_cases)
  next
    case (sweeping sc'' w'' v)
    then show ?thesis using assms(3) scope_table_empty [OF sweeping(2)] by (simp add: scope_ok_def phase_ok_cases)
  next
    case (ready sc'' w'' outcome)
    then have "registry_is_empty (operations sc'')" "occupied (resources sc'') = {}" by (simp_all add: scope_ok_def phase_ok_cases)
    moreover from this(1) have "active_count (operations sc'') = 0"
      by (simp add: registry_is_empty_def active_count_0 list_ex_iff all_set_conv_all_nth)
    ultimately show ?thesis using ready assms(3) scope_table_empty [OF ready(2)] by simp
  qed
qed

theorem close_drains_operations_first_witness:
  "active_count (operations (fst (snd (scope_poll_close plain_host countdown_host (begun VmReset busy_scope, ()))))) = 0"
  using close_drains_operations_first [of plain_host "begun VmReset busy_scope" countdown_host "()"]
    begun_ok [OF busy_scope_ok] by (metis begun_simps(1) prod.collapse)



text \<open>
  C34. A close gets there. If each pending poll lowers some rank of the resource or of the driver
  polled, then polling the scope often enough is ready, from any well-formed closing scope.
\<close>

theorem close_completes:
  assumes "scope_ok HR sc" and "state sc = ScopeClosing" and "makes_headway HR rank" and "comes_to_rest HO drank"
  shows "\<exists>k outcome u. poll_scope_until_ready HR HO k (sc, w) = (Some outcome, u)"
  by (rule close_reaches_ready [OF assms])

theorem close_completes_witness:
  "\<exists>k outcome u. poll_scope_until_ready plain_host countdown_host k (begun VmReset busy_scope, ()) = (Some outcome, u)"
  using close_completes [OF _ begun_simps(1) plain_headway countdown_rests] begun_ok [OF busy_scope_ok] by blast

text \<open>
  C35. A scope that has begun to close takes nothing in: a push, a start and the creation of scope
  state are refused without a change, a second close under the first reason is a no-op, one under
  another reason is refused with both reasons, and an active scope refuses to be polled closed.
\<close>

theorem closing_scope_refuses:
  "state sc \<noteq> Active \<Longrightarrow> push_resource HR tid v (sc, w) = (Inl (Raised ScopeIsClosing), (sc, w))
    \<and> start_operation spec (sc, w) = (Inl (Raised ScopeIsClosing), (sc, w))
    \<and> scope_insert_state tid init f (sc, w) = (Inl (Raised ScopeIsClosing), (sc, w))
    \<and> scope_begin_close reason (sc, w) =
        (if close_reason sc = Some reason then Inr False
         else Inl (Raised (CloseAlreadyInProgress (close_reason sc) reason)), (sc, w))
    \<and> scope_poll_close HR HO (sc\<lparr>state := Active\<rparr>, w) = (Inl (Raised ScopeNotClosing), (sc\<lparr>state := Active\<rparr>, w))"
  by (simp add: push_resource_def start_operation_def scope_insert_state_def ensure_accepting_def scope_begin_close_def
      scope_poll_close_def meth_defs own_def throw_def)

theorem closing_scope_refuses_witness:
  "scope_begin_close VmDrop (begun VmReset busy_scope, ()) =
     (Inl (Raised (CloseAlreadyInProgress (Some VmReset) VmDrop)), (begun VmReset busy_scope, ()))"
  using closing_scope_refuses [of "begun VmReset busy_scope" plain_host "''File''" 7 "()" "spec_new 0" 0 id VmDrop countdown_host]
  by simp

end
