(* ===== verification/Spec2Isabelle.thy ===== *)
theory Spec2Isabelle
  imports WireProps ScopeProps
begin

text \<open>Verification of the RustScript runtime.\<close>

end
